(* ===== verification/Vox_Prelude.thy ===== *)
theory Vox_Prelude
  imports Main "HOL-Library.Word" "HOL-Library.Multiset" "HOL-Library.Char_ord"
    "HOL-Library.List_Lexorder" "HOL-Library.Product_Lexorder" "HOL-Library.Sublist"
begin

text \<open>
  The prelude of the vox-server development: the machine integers of the C++ code
  (\<open>i64\<close>, \<open>i32\<close>, \<open>size_t\<close> read as \<open>int\<close> and \<open>nat\<close> with the wrap-around written
  out), the SQL statements the repositories use (UPDATE, DELETE, COUNT, ORDER BY and
  LIMIT on a table kept as a list of rows), the string operations of the C++ standard
  library the code calls, and the rewrite rules about all of them that the component
  theories share. \<open>sql_simps\<close> collects the rules on tables, \<open>keeps\<close> the facts that
  an operation preserves the schema's constraints.
\<close>

named_theorems sql_simps \<open>rewrite rules for the SQL statements on lists of rows\<close>
named_theorems keeps \<open>operations that preserve the constraints of the schema\<close>

unbundle bit_operations_syntax

section \<open>Machine integers\<close>

text \<open>
  \<open>std::int64_t\<close> and \<open>int\<close> are read as \<open>int\<close>; \<open>i64\<close> and \<open>i32\<close> write out the
  two's complement wrap of a conversion or an arithmetic result. \<open>std::size_t\<close> is read as
  \<open>nat\<close>; \<open>usize\<close> is its wrap at 64 bits and \<open>size_to_i64\<close> the cast to
  \<open>std::int64_t\<close>.
\<close>

definition i64 :: "int \<Rightarrow> int" where
  "i64 x = (x + 2 ^ 63) mod 2 ^ 64 - 2 ^ 63"

definition i32 :: "int \<Rightarrow> int" where
  "i32 x = (x + 2 ^ 31) mod 2 ^ 32 - 2 ^ 31"

definition usize :: "nat \<Rightarrow> nat" where
  "usize n = n mod 2 ^ 64"

definition size_to_i64 :: "nat \<Rightarrow> int" where
  "size_to_i64 n = i64 (int n)"

definition in_i64 :: "int \<Rightarrow> bool" where
  "in_i64 x \<longleftrightarrow> - (2 ^ 63) \<le> x \<and> x < 2 ^ 63"

definition in_i32 :: "int \<Rightarrow> bool" where
  "in_i32 x \<longleftrightarrow> - (2 ^ 31) \<le> x \<and> x < 2 ^ 31"

lemma i64_id [simp]: "in_i64 x \<Longrightarrow> i64 x = x"
  by (simp add: in_i64_def i64_def)

lemma i32_id [simp]: "in_i32 x \<Longrightarrow> i32 x = x"
  by (simp add: in_i32_def i32_def)

lemma in_i64_i64 [simp]: "in_i64 (i64 x)"
proof -
  have "0 \<le> (x + 2 ^ 63) mod 2 ^ 64" "(x + 2 ^ 63) mod 2 ^ 64 < (2 ^ 64 :: int)"
    by simp_all
  then show ?thesis unfolding in_i64_def i64_def by simp
qed

lemma in_i32_i32 [simp]: "in_i32 (i32 x)"
proof -
  have "0 \<le> (x + 2 ^ 31) mod 2 ^ 32" "(x + 2 ^ 31) mod 2 ^ 32 < (2 ^ 32 :: int)"
    by simp_all
  then show ?thesis unfolding in_i32_def i32_def by simp
qed

lemma usize_id [simp]: "n < 2 ^ 64 \<Longrightarrow> usize n = n"
  by (simp add: usize_def)

lemma size_to_i64_id: "n < 2 ^ 63 \<Longrightarrow> size_to_i64 n = int n"
proof -
  assume "n < 2 ^ 63"
  then have "int n < 2 ^ 63" by (metis of_nat_less_iff of_nat_numeral of_nat_power)
  then show ?thesis by (simp add: size_to_i64_def in_i64_def)
qed

section \<open>SQL on lists of rows\<close>

text \<open>
  A table is the list of its rows. UPDATE rewrites the matching rows in place, DELETE keeps
  the others, and both report the number of rows they matched (\<open>sql_count\<close>), which is
  what \<open>Statement::exec\<close> returns. LIMIT with a negative argument does not limit.
\<close>

definition sql_update :: "('r \<Rightarrow> bool) \<Rightarrow> ('r \<Rightarrow> 'r) \<Rightarrow> 'r list \<Rightarrow> 'r list" where
  "sql_update P f t = map (\<lambda>r. if P r then f r else r) t"

definition sql_delete :: "('r \<Rightarrow> bool) \<Rightarrow> 'r list \<Rightarrow> 'r list" where
  "sql_delete P t = filter (\<lambda>r. \<not> P r) t"

definition sql_count :: "('r \<Rightarrow> bool) \<Rightarrow> 'r list \<Rightarrow> nat" where
  "sql_count P t = length (filter P t)"

definition sql_limit :: "int \<Rightarrow> 'r list \<Rightarrow> 'r list" where
  "sql_limit n rows = (if n < 0 then rows else take (nat n) rows)"

definition sql_order_by :: "('r \<Rightarrow> 'k::linorder) \<Rightarrow> 'r list \<Rightarrow> 'r list" where
  "sql_order_by k rows = sort_key k rows"

text \<open>The first row of a result, as \<open>executeStep\<close> followed by \<open>getColumn\<close> reads it.\<close>

definition first_row :: "'r list \<Rightarrow> 'r option" where
  "first_row rows = (case rows of [] \<Rightarrow> None | r # _ \<Rightarrow> Some r)"

lemma map_sql_update [sql_simps]:
  "(\<And>r. k (f r) = k r) \<Longrightarrow> map k (sql_update P f t) = map k t"
  by (simp add: sql_update_def)

lemma length_sql_update [sql_simps]: "length (sql_update P f t) = length t"
  by (simp add: sql_update_def)

lemma sql_update_none [sql_simps]:
  "(\<And>r. r \<in> set t \<Longrightarrow> \<not> P r) \<Longrightarrow> sql_update P f t = t"
  by (simp add: sql_update_def map_idI)

lemma set_sql_update: "set (sql_update P f t) = (\<lambda>r. if P r then f r else r) ` set t"
  by (simp add: sql_update_def)

lemma bex_sql_update:
  "(\<exists>r \<in> set (sql_update P f t). R r) \<longleftrightarrow> (\<exists>r \<in> set t. R (if P r then f r else r))"
  by (auto simp: sql_update_def)

lemma ball_sql_update:
  "(\<forall>r \<in> set (sql_update P f t). R r) \<longleftrightarrow> (\<forall>r \<in> set t. R (if P r then f r else r))"
  by (auto simp: sql_update_def)

lemma set_sql_delete [sql_simps]:
  "set (sql_delete P t) = {r \<in> set t. \<not> P r}"
  by (simp add: sql_delete_def)

lemma distinct_sql_delete [sql_simps]:
  "distinct (map k t) \<Longrightarrow> distinct (map k (sql_delete P t))"
  by (simp add: sql_delete_def distinct_map_filter)

lemma sql_delete_none [sql_simps]:
  "(\<And>r. r \<in> set t \<Longrightarrow> \<not> P r) \<Longrightarrow> sql_delete P t = t"
  by (simp add: sql_delete_def filter_id_conv)

lemma sql_count_0 [sql_simps]: "sql_count P t = 0 \<longleftrightarrow> (\<forall>r \<in> set t. \<not> P r)"
  by (simp add: sql_count_def filter_empty_conv)

lemma sql_count_le: "sql_count P t \<le> length t"
  by (simp add: sql_count_def)

lemma sql_count_delete: "sql_count P t + length (sql_delete P t) = length t"
  by (simp add: sql_count_def sql_delete_def sum_length_filter_compl)

text \<open>An UPDATE of the one row with a given key that leaves its predicate.\<close>

lemma sql_count_update_one:
  assumes "distinct (map k t)" and "r \<in> set t" and "P r" and "\<not> P (f r)"
    and only: "\<And>q. q \<in> set t \<Longrightarrow> Q q \<longleftrightarrow> q = r"
  shows "Suc (sql_count P (sql_update Q f t)) = sql_count P t"
  using assms
proof (induction t)
  case (Cons q t)
  show ?case
  proof (cases "q = r")
    case True
    then have "r \<notin> set t" using Cons.prems(1) by auto
    then have "\<not> Q x" if "x \<in> set t" for x using Cons.prems(5) [of x] that by auto
    then have "sql_update Q f t = t" by (rule sql_update_none)
    then show ?thesis
      using True Cons.prems(3-5) by (simp add: sql_count_def sql_update_def)
  next
    case False
    then have "Suc (sql_count P (sql_update Q f t)) = sql_count P t"
      using Cons by (intro Cons.IH) auto
    then show ?thesis using False Cons.prems(5) [of q] by (auto simp: sql_count_def sql_update_def)
  qed
qed simp

lemma set_sql_limit: "set (sql_limit n rows)
  \<subseteq> set rows"
  by (simp add: sql_limit_def set_take_subset)

lemma length_sql_limit: "0 \<le> n \<Longrightarrow> int (length (sql_limit n rows)) \<le> n"
  by (simp add: sql_limit_def)

lemma set_sql_order_by [sql_simps]: "set (sql_order_by k rows) = set rows"
  by (simp add: sql_order_by_def)

lemma sorted_sql_order_by: "sorted (map k (sql_order_by k rows))"
  by (simp add: sql_order_by_def)

lemma first_row_simps [simp]: "first_row [] = None" "first_row (r # rs) = Some r"
  by (simp_all add: first_row_def)

lemma first_row_None [sql_simps]: "first_row rows = None \<longleftrightarrow> rows = []"
  by (cases rows) simp_all

lemma first_row_Some: "first_row rows = Some r \<Longrightarrow> r \<in> set rows"
  by (cases rows) auto

lemma first_row_filter:
  "first_row (filter P t) = Some r \<Longrightarrow> r \<in> set t \<and> P r"
  using first_row_Some by fastforce

text \<open>A lookup by a key that is unique in the table finds exactly the row with that key.\<close>

lemma first_row_unique:
  assumes "distinct (map k t)" and "r \<in> set t" and "k r = x"
  shows "first_row (filter (\<lambda>r. k r = x) t) = Some r"
  using assms by (induction t) (auto simp: filter_empty_conv image_iff)

lemma key_eq:
  "distinct (map k t) \<Longrightarrow> r \<in> set t \<Longrightarrow> q \<in> set t \<Longrightarrow> k r = k q \<Longrightarrow> r = q"
  by (metis distinct_map inj_onD)

lemma in_set_map: "x \<in> set (map k t) \<longleftrightarrow> (\<exists>r \<in> set t. k r = x)"
  by auto

lemma filter_unique:
  assumes "distinct (map k t)" and "r \<in> set t" and "P r" and only: "\<And>q. P q \<Longrightarrow> k q = k r"
  shows "filter P t = [r]"
proof -
  have "P q \<longleftrightarrow> q = r" if "q \<in> set t" for q
    using that assms key_eq [of k t q r] by blast
  then have "filter P t = filter (\<lambda>q. q = r) t"
    by (intro filter_cong) auto
  also have "\<dots> = [r]"
    using assms(1,2) by (induction t) (auto simp: filter_empty_conv image_iff)
  finally show ?thesis .
qed

section \<open>Strings\<close>

text \<open>
  \<open>std::string::find\<close> of a character: the part before its first occurrence and the part
  after it, \<open>None\<close> for \<open>npos\<close>.
\<close>

fun split_at_char :: "char \<Rightarrow> string \<Rightarrow> (string \<times> string) option" where
  "split_at_char c [] = None"
| "split_at_char c (x # xs) =
     (if x = c then Some ([], xs)
      else map_option (\<lambda>(a, b). (x # a, b)) (split_at_char c xs))"

lemma split_at_char_None [simp]: "split_at_char c s = None \<longleftrightarrow> c \<notin> set s"
  by (induction s) auto

lemma split_at_char_absent: "c \<notin> set s \<Longrightarrow> split_at_char c s = None"
  by simp

lemma split_at_char_Some:
  "split_at_char c s = Some (a, b) \<Longrightarrow> s = a @ c # b \<and> c \<notin> set a"
  by (induction s arbitrary: a) (auto split: if_splits)

lemma split_at_char_append [simp]:
  "c \<notin> set a \<Longrightarrow> split_at_char c (a @ c # b) = Some (a, b)"
  by (induction a) auto

lemma split_at_char_length:
  "split_at_char c s = Some (a, b) \<Longrightarrow> length b < length s"
  by (drule split_at_char_Some) auto

text \<open>
  The NOCASE collation of SQLite folds the 26 upper case letters of ASCII and compares
  bytes.
\<close>

definition ascii_lower :: "char \<Rightarrow> char" where
  "ascii_lower c =
     (if CHR ''A'' \<le> c \<and> c \<le> CHR ''Z'' then char_of (of_char c + (32::nat)) else c)"

definition nocase :: "string \<Rightarrow> string" where
  "nocase s = map ascii_lower s"

section \<open>Options\<close>

lemma option_eqI: "(\<And>m. x = Some m \<longleftrightarrow> y = Some m) \<Longrightarrow> x = y"
  by (cases x; cases y) auto

lemma option_filter_eqI:
  assumes "\<And>s. x = Some s \<longleftrightarrow> y = Some s \<and> \<not> P s"
  shows "x = (case y of Some s \<Rightarrow> if P s then None else Some s | None \<Rightarrow> None)"
proof (cases x)
  case None
  then show ?thesis using assms by (auto split: option.split)
next
  case (Some s)
  then show ?thesis using assms [of s] by simp
qed

end
