(* ===== verification/Bounded_Queue.thy ===== *)
theory Bounded_Queue
  imports Vox_Prelude "HOL-Library.Multiset"
begin

text \<open>
  The bounded queue of \<open>lib/vox_common/bounded_queue.hpp\<close>. Every method holds the mutex for its
  whole body, so a method is one atomic function on the state; \<open>Push\<close> and \<open>Pop\<close> first wait for
  a predicate, and \<open>None\<close> is the call that still waits. The second part models the waiting itself:
  the threads asleep on the two condition variables, the ones that a notification has woken and
  that have not yet taken the mutex again, and spurious wake-ups. It shows that the queue is first
  in first out, that it never exceeds its capacity, and that \<open>notify_one\<close> never loses a wake-up.
\<close>

section \<open>The methods\<close>

record 'a BoundedQueue =
  bq_capacity :: nat
  bq_queue :: "'a list"
  bq_shutdown :: bool

definition BoundedQueue_new :: "nat \<Rightarrow> 'a BoundedQueue" where
  "BoundedQueue_new capacity = \<lparr>bq_capacity = capacity, bq_queue = [], bq_shutdown = False\<rparr>"

definition Push :: "'a \<Rightarrow> 'a BoundedQueue \<Rightarrow> (bool \<times> 'a BoundedQueue) option" where
  "Push item q =
     (if length (bq_queue q) < bq_capacity q \<or> bq_shutdown q
      then Some (if bq_shutdown q then (False, q) else (True, q\<lparr>bq_queue := bq_queue q @ [item]\<rparr>))
      else None)"

definition TryPush :: "'a \<Rightarrow> 'a BoundedQueue \<Rightarrow> bool \<times> 'a BoundedQueue" where
  "TryPush item q =
     (if bq_shutdown q \<or> length (bq_queue q) \<ge> bq_capacity q then (False, q)
      else (True, q\<lparr>bq_queue := bq_queue q @ [item]\<rparr>))"

definition TryPop :: "'a BoundedQueue \<Rightarrow> 'a option \<times> 'a BoundedQueue" where
  "TryPop q = (case bq_queue q of [] \<Rightarrow> (None, q) | item # rest \<Rightarrow> (Some item, q\<lparr>bq_queue := rest\<rparr>))"

definition Pop :: "'a BoundedQueue \<Rightarrow> ('a option \<times> 'a BoundedQueue) option" where
  "Pop q =
     (if bq_queue q \<noteq> [] \<or> bq_shutdown q
      then Some (case bq_queue q of [] \<Rightarrow> (None, q)
                 | item # rest \<Rightarrow> (Some item, q\<lparr>bq_queue := rest\<rparr>))
      else None)"

definition Queue_Shutdown :: "'a BoundedQueue \<Rightarrow> 'a BoundedQueue" where
  "Queue_Shutdown q = q\<lparr>bq_shutdown := True\<rparr>"

definition IsShutdown :: "'a BoundedQueue \<Rightarrow> bool" where
  "IsShutdown q = bq_shutdown q"

definition Queue_Size :: "'a BoundedQueue \<Rightarrow> nat" where
  "Queue_Size q = length (bq_queue q)"

definition Capacity :: "'a BoundedQueue \<Rightarrow> nat" where
  "Capacity q = bq_capacity q"

definition Queue_Empty :: "'a BoundedQueue \<Rightarrow> bool" where
  "Queue_Empty q \<longleftrightarrow> bq_queue q = []"

lemmas queue_defs = Push_def TryPush_def TryPop_def Pop_def Queue_Shutdown_def

section \<open>Threads that wait\<close>

text \<open>
  The state of the monitor: the queue, the number of threads asleep in \<open>Pop\<close> (on
  \<open>not_empty_\<close>) and of those woken there, and the items of the threads asleep in \<open>Push\<close> (on
  \<open>not_full_\<close>) and of those woken there.
\<close>

record 'a monitor =
  mo_queue :: "'a BoundedQueue"
  asleep_pop :: nat
  woken_pop :: nat
  asleep_push :: "'a multiset"
  woken_push :: "'a multiset"

datatype 'a event = Pushed 'a | Popped 'a | Silent

definition notify_pop :: "'a monitor \<Rightarrow> 'a monitor" where
  "notify_pop s = (if asleep_pop s = 0 then s
     else s\<lparr>asleep_pop := asleep_pop s - 1, woken_pop := woken_pop s + 1\<rparr>)"

definition pushed_event :: "bool \<Rightarrow> 'a \<Rightarrow> 'a event" where
  "pushed_event b x = (if b then Pushed x else Silent)"

definition popped_event :: "'a option \<Rightarrow> 'a event" where
  "popped_event r = (case r of None \<Rightarrow> Silent | Some x \<Rightarrow> Popped x)"

text \<open>\<open>notify_one\<close> on \<open>not_full_\<close> wakes any one of the sleeping threads.\<close>

inductive notify_push :: "'a monitor \<Rightarrow> 'a monitor \<Rightarrow> bool" where
  nobody: "asleep_push s = {#} \<Longrightarrow> notify_push s s"
| wake: "x \<in># asleep_push s \<Longrightarrow>
     notify_push s (s\<lparr>asleep_push := asleep_push s - {#x#}, woken_push := add_mset x (woken_push s)\<rparr>)"

text \<open>What follows the body of a method: the notification, when the method gets to it.\<close>

definition after_push :: "bool \<Rightarrow> 'a monitor \<Rightarrow> 'a monitor" where
  "after_push b s = (if b then notify_pop s else s)"

definition after_pop :: "'a option \<Rightarrow> 'a monitor \<Rightarrow> 'a monitor \<Rightarrow> bool" where
  "after_pop r s s' = (if r = None then s' = s else notify_push s s')"

inductive monitor_step :: "'a monitor \<Rightarrow> 'a event \<Rightarrow> 'a monitor \<Rightarrow> bool" where
  push: "Push x (mo_queue s) = Some (b, q) \<Longrightarrow>
     monitor_step s (pushed_event b x) (after_push b (s\<lparr>mo_queue := q\<rparr>))"
| push_sleeps: "Push x (mo_queue s) = None \<Longrightarrow>
     monitor_step s Silent (s\<lparr>asleep_push := add_mset x (asleep_push s)\<rparr>)"
| push_resumes: "x \<in># woken_push s \<Longrightarrow> Push x (mo_queue s) = Some (b, q) \<Longrightarrow>
     monitor_step s (pushed_event b x)
       (after_push b (s\<lparr>mo_queue := q, woken_push := woken_push s - {#x#}\<rparr>))"
| push_sleeps_again: "x \<in># woken_push s \<Longrightarrow> Push x (mo_queue s) = None \<Longrightarrow>
     monitor_step s Silent
       (s\<lparr>asleep_push := add_mset x (asleep_push s), woken_push := woken_push s - {#x#}\<rparr>)"
| try_push: "TryPush x (mo_queue s) = (b, q) \<Longrightarrow>
     monitor_step s (pushed_event b x) (after_push b (s\<lparr>mo_queue := q\<rparr>))"
| pop: "Pop (mo_queue s) = Some (r, q) \<Longrightarrow> after_pop r (s\<lparr>mo_queue := q\<rparr>) s' \<Longrightarrow>
     monitor_step s (popped_event r) s'"
| pop_sleeps: "Pop (mo_queue s) = None \<Longrightarrow>
     monitor_step s Silent (s\<lparr>asleep_pop := asleep_pop s + 1\<rparr>)"
| pop_resumes: "0 < woken_pop s \<Longrightarrow> Pop (mo_queue s) = Some (r, q) \<Longrightarrow>
     after_pop r (s\<lparr>mo_queue := q, woken_pop := woken_pop s - 1\<rparr>) s' \<Longrightarrow>
     monitor_step s (popped_event r) s'"
| pop_sleeps_again: "0 < woken_pop s \<Longrightarrow> Pop (mo_queue s) = None \<Longrightarrow>
     monitor_step s Silent (s\<lparr>asleep_pop := asleep_pop s + 1, woken_pop := woken_pop s - 1\<rparr>)"
| try_pop: "TryPop (mo_queue s) = (r, q) \<Longrightarrow> after_pop r (s\<lparr>mo_queue := q\<rparr>) s' \<Longrightarrow>
     monitor_step s (popped_event r) s'"
| spurious_pop: "0 < asleep_pop s \<Longrightarrow>
     monitor_step s Silent (s\<lparr>asleep_pop := asleep_pop s - 1, woken_pop := woken_pop s + 1\<rparr>)"
| spurious_push: "x \<in># asleep_push s \<Longrightarrow>
     monitor_step s Silent
       (s\<lparr>asleep_push := asleep_push s - {#x#}, woken_push := add_mset x (woken_push s)\<rparr>)"
| shut_down: "monitor_step s Silent
     (s\<lparr>mo_queue := Queue_Shutdown (mo_queue s), asleep_pop := 0, woken_pop := woken_pop s + asleep_pop s,
        asleep_push := {#}, woken_push := woken_push s + asleep_push s\<rparr>)"

definition monitor_init :: "nat \<Rightarrow> 'a monitor" where
  "monitor_init capacity =
     \<lparr>mo_queue = BoundedQueue_new capacity, asleep_pop = 0, woken_pop = 0, asleep_push = {#}, woken_push = {#}\<rparr>"

inductive monitor_run :: "nat \<Rightarrow> 'a event list \<Rightarrow> 'a monitor \<Rightarrow> bool" for capacity where
  start: "monitor_run capacity [] (monitor_init capacity)"
| step: "monitor_run capacity es s \<Longrightarrow> monitor_step s e s' \<Longrightarrow> monitor_run capacity (es @ [e]) s'"

fun pushed :: "'a event list \<Rightarrow> 'a list" where
  "pushed [] = []"
| "pushed (Pushed x # es) = x # pushed es"
| "pushed (e # es) = pushed es"

fun popped :: "'a event list \<Rightarrow> 'a list" where
  "popped [] = []"
| "popped (Popped x # es) = x # popped es"
| "popped (e # es) = popped es"

lemma pushed_snoc [simp]: "pushed (es @ [e]) = pushed es @ (case e of Pushed x \<Rightarrow> [x] | _ \<Rightarrow> [])"
  by (induction es rule: pushed.induct) (simp_all split: event.split)

lemma popped_snoc [simp]: "popped (es @ [e]) = popped es @ (case e of Popped x \<Rightarrow> [x] | _ \<Rightarrow> [])"
  by (induction es rule: popped.induct) (simp_all split: event.split)

section \<open>What every interleaving keeps\<close>

text \<open>
  A sleeping consumer means that the items in the queue are at most the consumers already woken,
  and a sleeping producer that the free places are at most the producers already woken. Nobody
  sleeps once the queue is shut down.
\<close>

definition no_lost_wakeup :: "'a monitor \<Rightarrow> bool" where
  "no_lost_wakeup s \<longleftrightarrow>
     (0 < asleep_pop s \<longrightarrow> \<not> bq_shutdown (mo_queue s) \<and> length (bq_queue (mo_queue s)) \<le> woken_pop s) \<and>
     (asleep_push s \<noteq> {#} \<longrightarrow> \<not> bq_shutdown (mo_queue s) \<and>
        bq_capacity (mo_queue s) \<le> length (bq_queue (mo_queue s)) + size (woken_push s))"

definition bounded :: "'a monitor \<Rightarrow> bool" where
  "bounded s \<longleftrightarrow> length (bq_queue (mo_queue s)) \<le> bq_capacity (mo_queue s)"

definition fifo_step :: "'a list \<Rightarrow> 'a event \<Rightarrow> 'a list \<Rightarrow> bool" where
  "fifo_step q e q' = (case e of Pushed x \<Rightarrow> q' = q @ [x] | Popped x \<Rightarrow> q = x # q' | Silent \<Rightarrow> q' = q)"

lemma notify_push_same:
  assumes "notify_push s s'"
  shows "mo_queue s' = mo_queue s" "asleep_pop s' = asleep_pop s" "woken_pop s' = woken_pop s"
  using assms by (auto elim: notify_push.cases)

lemma after_push_same [simp]: "mo_queue (after_push b s) = mo_queue s"
  by (simp add: after_push_def notify_pop_def)

lemma after_pop_same: "after_pop r s s' \<Longrightarrow> mo_queue s' = mo_queue s"
  by (simp add: after_pop_def notify_push_same split: if_splits)

lemma monitor_step_queue:
  assumes "monitor_step s e s'"
  shows "fifo_step (bq_queue (mo_queue s)) e (bq_queue (mo_queue s'))"
    and "bq_capacity (mo_queue s') = bq_capacity (mo_queue s)"
    and "bounded s \<Longrightarrow> bounded s'"
  using assms
  by (induction rule: monitor_step.induct)
     (auto simp: queue_defs fifo_step_def pushed_event_def popped_event_def bounded_def
        dest!: after_pop_same split: if_splits list.splits)

text \<open>
  The invariant after a method that succeeds, seen from the state \<open>t\<close> before its notification:
  the thread is a newcomer or a woken one, so at most one woken thread is gone.
\<close>

lemma push_wakeup:
  assumes "no_lost_wakeup s" and "\<not> bq_shutdown (mo_queue s)"
    and "mo_queue t = (mo_queue s)\<lparr>bq_queue := bq_queue (mo_queue s) @ [x]\<rparr>"
    and "asleep_pop t = asleep_pop s" "woken_pop t = woken_pop s" "asleep_push t = asleep_push s"
    and "size (woken_push s) \<le> Suc (size (woken_push t))"
  shows "no_lost_wakeup (after_push True t)"
proof -
  have "asleep_push t \<noteq> {#} \<Longrightarrow>
      bq_capacity (mo_queue t) \<le> length (bq_queue (mo_queue t)) + size (woken_push t)"
    using assms by (simp add: no_lost_wakeup_def)
  moreover have "0 < asleep_pop t \<Longrightarrow> length (bq_queue (mo_queue t)) \<le> Suc (woken_pop t)"
    using assms by (simp add: no_lost_wakeup_def)
  ultimately show ?thesis
    using assms(2,3) by (simp add: after_push_def notify_pop_def no_lost_wakeup_def)
qed

lemma pop_wakeup:
  assumes "no_lost_wakeup s" and "bq_queue (mo_queue s) = x # rest"
    and "mo_queue t = (mo_queue s)\<lparr>bq_queue := rest\<rparr>"
    and "asleep_pop t = asleep_pop s" "woken_pop s \<le> Suc (woken_pop t)"
    and "asleep_push t = asleep_push s" "woken_push t = woken_push s"
    and "notify_push t t'"
  shows "no_lost_wakeup t'"
proof -
  have 1: "0 < asleep_pop t \<Longrightarrow> \<not> bq_shutdown (mo_queue t) \<and> length (bq_queue (mo_queue t)) \<le> woken_pop t"
    using assms by (simp add: no_lost_wakeup_def)
  have 2: "asleep_push t \<noteq> {#} \<Longrightarrow> \<not> bq_shutdown (mo_queue t) \<and>
      bq_capacity (mo_queue t) \<le> Suc (length (bq_queue (mo_queue t)) + size (woken_push t))"
    using assms by (simp add: no_lost_wakeup_def)
  show ?thesis
    using assms(8)
  proof cases
    case nobody
    then show ?thesis using 1 by (simp add: no_lost_wakeup_def)
  next
    case (wake y)
    then have "asleep_push t \<noteq> {#}" by auto
    then show ?thesis using 1 2 wake by (simp add: no_lost_wakeup_def)
  qed
qed

lemma shutdown_wakeup:
  assumes "no_lost_wakeup s" and "bq_shutdown (mo_queue s)"
    and "asleep_pop t = asleep_pop s" and "asleep_push t = asleep_push s"
  shows "no_lost_wakeup t"
  using assms by (simp add: no_lost_wakeup_def)

lemma size_woken: "x \<in># M \<Longrightarrow> size M = Suc (size (M - {#x#}))"
  by (metis insert_DiffM size_add_mset)

lemma Push_cases:
  assumes "Push x q = Some (b, q')"
  obtains "b" "\<not> bq_shutdown q" "q' = q\<lparr>bq_queue := bq_queue q @ [x]\<rparr>" | "\<not> b" "bq_shutdown q" "q' = q"
  using assms by (auto simp: Push_def split: if_splits)

lemma TryPush_cases:
  assumes "TryPush x q = (b, q')"
  obtains "b" "\<not> bq_shutdown q" "q' = q\<lparr>bq_queue := bq_queue q @ [x]\<rparr>" | "\<not> b" "q' = q"
proof (cases "bq_shutdown q \<or> length (bq_queue q) \<ge> bq_capacity q")
  case True
  with assms have "\<not> b" "q' = q" by (simp_all add: TryPush_def)
  then show ?thesis by (rule that(2))
next
  case False
  with assms have "b" "q' = q\<lparr>bq_queue := bq_queue q @ [x]\<rparr>" by (simp_all add: TryPush_def)
  with False show ?thesis by (intro that(1)) simp_all
qed

lemma no_lost_same_queue [simp]: "no_lost_wakeup (s\<lparr>mo_queue := mo_queue s\<rparr>) = no_lost_wakeup s"
  by (simp add: no_lost_wakeup_def)

lemma Pop_cases:
  assumes "Pop q = Some (r, q')"
  obtains x rest where "r = Some x" "bq_queue q = x # rest" "q' = q\<lparr>bq_queue := rest\<rparr>"
  | "r = None" "bq_shutdown q" "q' = q"
  using assms by (auto simp: Pop_def split: if_splits list.splits)

lemma Pop_wakeup:
  assumes "no_lost_wakeup s" and "Pop (mo_queue s) = Some (r, mo_queue t)" and "after_pop r t t'"
    and "asleep_pop t = asleep_pop s" "woken_pop s \<le> Suc (woken_pop t)"
    and "asleep_push t = asleep_push s" "woken_push t = woken_push s"
  shows "no_lost_wakeup t'"
  using assms(2)
proof (cases rule: Pop_cases)
  case (1 x rest)
  then show ?thesis
    using assms(3) by (intro pop_wakeup [OF assms(1) 1(2,3) assms(4-7)]) (simp add: after_pop_def)
next
  case 2
  then have "t' = t" using assms(3) by (simp add: after_pop_def)
  then show ?thesis using shutdown_wakeup [OF assms(1) 2(2) assms(4,6)] by simp
qed

lemma monitor_step_wakeup:
  assumes "monitor_step s e s'" and "no_lost_wakeup s"
  shows "no_lost_wakeup s'"
  using assms
proof (induction rule: monitor_step.induct)
  case (push x s b q)
  from push(1) show ?case
    by (cases rule: Push_cases)
       (simp_all add: push_wakeup [OF push(2)] shutdown_wakeup [OF push(2)] after_push_def [of False])
next
  case (push_resumes x s b q)
  from push_resumes(2) show ?case
    by (cases rule: Push_cases)
       (simp_all add: push_wakeup [OF push_resumes(3)] shutdown_wakeup [OF push_resumes(3)]
          size_woken [OF push_resumes(1)] after_push_def [of False])
next
  case (try_push x s b q)
  from try_push(1) show ?case
    by (cases rule: TryPush_cases)
       (simp_all add: push_wakeup [OF try_push(2)] try_push(2) after_push_def [of False])
next
  case (pop s r q s')
  then show ?case by (intro Pop_wakeup [OF pop(3) _ pop(2)]) simp_all
next
  case (pop_resumes s r q s')
  then show ?case by (intro Pop_wakeup [OF pop_resumes(4) _ pop_resumes(3)]) simp_all
next
  case (try_pop s r q s')
  show ?case
  proof (cases "bq_queue (mo_queue s)")
    case Nil
    then have "r = None" "q = mo_queue s" using try_pop(1) by (simp_all add: TryPop_def)
    then show ?thesis using try_pop(2,3) by (simp add: after_pop_def)
  next
    case (Cons x rest)
    then have "Pop (mo_queue s) = Some (r, q)" using try_pop(1) by (simp add: TryPop_def Pop_def)
    then show ?thesis using try_pop(2) by (intro Pop_wakeup [OF try_pop(3) _ try_pop(2)]) simp_all
  qed
next
  case (spurious_push x s)
  then have "asleep_push s \<noteq> {#}" by auto
  then show ?case using spurious_push(2) by (simp add: no_lost_wakeup_def)
qed (simp_all add: Push_def Pop_def Queue_Shutdown_def no_lost_wakeup_def split: if_splits)

section \<open>Every run\<close>

lemma monitor_run_inv:
  assumes "monitor_run capacity es s"
  shows "pushed es = popped es @ bq_queue (mo_queue s)"
    and "bq_capacity (mo_queue s) = capacity" and "bounded s" and "no_lost_wakeup s"
  using assms
proof (induction rule: monitor_run.induct)
  case start
  { case 1 show ?case by (simp add: monitor_init_def BoundedQueue_new_def) }
  { case 2 show ?case by (simp add: monitor_init_def BoundedQueue_new_def) }
  { case 3 show ?case by (simp add: monitor_init_def BoundedQueue_new_def bounded_def) }
  { case 4 show ?case by (simp add: monitor_init_def BoundedQueue_new_def no_lost_wakeup_def) }
next
  case (step es s e s')
  note q = monitor_step_queue [OF step(2)]
  { case 1 show ?case using step q(1) by (simp add: fifo_step_def split: event.splits) }
  { case 2 show ?case using step q(2) by simp }
  { case 3 show ?case using step q(3) by blast }
  { case 4 show ?case using monitor_step_wakeup [OF step(2)] step by blast }
qed

text \<open>
  C18: The bounded queue under every interleaving of its callers, spurious wake-ups included, is
  first in first out (what was pushed is what was popped, in order, followed by what the queue
  holds) and within its capacity. \<open>notify_one\<close> suffices: whenever a consumer sleeps although an
  item is there, a woken consumer exists whose \<open>Pop\<close> returns that item without waiting; whenever
  a producer sleeps although a place is free, a woken producer exists whose \<open>Push\<close> succeeds; and
  after a shutdown nobody sleeps.
\<close>

theorem BoundedQueue_monitor_correct:
  assumes "monitor_run capacity es s"
  shows "pushed es = popped es @ bq_queue (mo_queue s) \<and>
    Queue_Size (mo_queue s) \<le> capacity \<and>
    (0 < asleep_pop s \<and> \<not> Queue_Empty (mo_queue s) \<longrightarrow>
       0 < woken_pop s \<and> (\<exists>q. Pop (mo_queue s) = Some (Some (hd (bq_queue (mo_queue s))), q))) \<and>
    (asleep_push s \<noteq> {#} \<and> Queue_Size (mo_queue s) < capacity \<longrightarrow>
       woken_push s \<noteq> {#} \<and> (\<forall>x. \<exists>q. Push x (mo_queue s) = Some (True, q))) \<and>
    (IsShutdown (mo_queue s) \<longrightarrow> asleep_pop s = 0 \<and> asleep_push s = {#})"
proof (intro conjI impI)
  note inv = monitor_run_inv [OF assms]
  show "pushed es = popped es @ bq_queue (mo_queue s)" by (rule inv(1))
  show "Queue_Size (mo_queue s) \<le> capacity" using inv(2,3) by (simp add: Queue_Size_def bounded_def)
  note w = inv(4) [unfolded no_lost_wakeup_def]
  { assume "0 < asleep_pop s \<and> \<not> Queue_Empty (mo_queue s)"
    then show "0 < woken_pop s" "\<exists>q. Pop (mo_queue s) = Some (Some (hd (bq_queue (mo_queue s))), q)"
      using w by (simp_all add: Queue_Empty_def Pop_def neq_Nil_conv) fastforce+ }
  { assume "asleep_push s \<noteq> {#} \<and> Queue_Size (mo_queue s) < capacity"
    then show "woken_push s \<noteq> {#}" "\<forall>x. \<exists>q. Push x (mo_queue s) = Some (True, q)"
      using w inv(2) by (auto simp: Queue_Size_def Push_def) }
  { assume "IsShutdown (mo_queue s)"
    then show "asleep_pop s = 0" "asleep_push s = {#}"
      using w by (auto simp: IsShutdown_def) }
qed

text \<open>A consumer sleeps on the empty queue, a producer comes: the consumer is woken and pops.\<close>

theorem BoundedQueue_monitor_correct_witness:
  "\<exists>s. monitor_run 1 [Silent, Pushed (7::nat), Popped 7] s \<and>
       pushed [Silent, Pushed (7::nat), Popped 7] = popped [Silent, Pushed 7, Popped 7] @ bq_queue (mo_queue s)"
proof -
  define s0 :: "nat monitor" where "s0 = monitor_init 1"
  define s1 where "s1 = s0\<lparr>asleep_pop := 1\<rparr>"
  define s2 where "s2 = s0\<lparr>mo_queue := \<lparr>bq_capacity = 1, bq_queue = [7], bq_shutdown = False\<rparr>, woken_pop := 1\<rparr>"
  have a: "monitor_step s0 Silent s1"
    using pop_sleeps [of s0] by (simp add: s1_def s0_def monitor_init_def BoundedQueue_new_def Pop_def)
  have b: "monitor_step s1 (Pushed 7) s2"
    using monitor_step.push [of 7 s1 True "mo_queue s2"]
    by (simp add: s2_def s1_def s0_def monitor_init_def BoundedQueue_new_def Push_def after_push_def
        notify_pop_def pushed_event_def)
  have c: "monitor_step s2 (Popped 7) s0"
    using pop_resumes [of s2 "Some 7" "mo_queue s0" s0] notify_push.nobody [of s0]
    by (simp add: s2_def s0_def monitor_init_def BoundedQueue_new_def Pop_def after_pop_def popped_event_def)
  have "monitor_run 1 [] s0" unfolding s0_def by (rule monitor_run.start)
  then have "monitor_run 1 ((([] @ [Silent]) @ [Pushed 7]) @ [Popped 7]) s0"
    by (rule monitor_run.step [OF monitor_run.step [OF monitor_run.step [OF _ a] b] c])
  then have "monitor_run 1 [Silent, Pushed 7, Popped 7] s0" by simp
  then show ?thesis using BoundedQueue_monitor_correct by blast
qed

end
