(* ===== verification/Thread_Pool.thy ===== *)
theory Thread_Pool
  imports Bounded_Queue
begin

text \<open>
  The thread pool of \<open>lib/vox_common/thread_pool.hpp\<close> and \<open>thread_pool.cpp\<close>: the workers share one
  bounded queue of tasks. A worker that has taken a task passes through the states of its loop
  body one atomic access at a time, since other threads can observe each of them; every
  interleaving of the workers, of \<open>Submit\<close> and of the two halves of \<open>Shutdown\<close> is a run. A task
  that throws a \<open>std::exception\<close> ends like one that returns, so a task is a value with no result.
\<close>

section \<open>The model\<close>

datatype 'a worker =
  Waiting \<comment> \<open>before or in \<open>queue_.Pop\<close>\<close>
| Holding 'a \<comment> \<open>popped, before \<open>fetch_add\<close>\<close>
| Running 'a
| Ran \<comment> \<open>task done, before \<open>fetch_sub\<close>\<close>
| Exited

record 'a ThreadPool =
  tp_queue :: "'a BoundedQueue"
  tp_workers :: "'a worker list"
  tp_active_tasks :: nat
  tp_shutdown :: bool
  tp_submitted :: "'a list" \<comment> \<open>history: the accepted tasks\<close>
  tp_executed :: "'a list" \<comment> \<open>history: the tasks that ran\<close>

definition ThreadPool_new :: "nat \<Rightarrow> nat \<Rightarrow> 'a ThreadPool" where
  "ThreadPool_new thread_count queue_capacity =
     \<lparr>tp_queue = BoundedQueue_new queue_capacity, tp_workers = replicate thread_count Waiting,
      tp_active_tasks = 0, tp_shutdown = False, tp_submitted = [], tp_executed = []\<rparr>"

text \<open>
  \<open>Submit\<close>: \<open>None\<close> is the call that waits for a place in the queue, \<open>Some False\<close> the one that
  throws because the pool is shut down.
\<close>

definition Submit :: "'a \<Rightarrow> 'a ThreadPool \<Rightarrow> (bool \<times> 'a ThreadPool) option" where
  "Submit task p = map_option (\<lambda>(pushed, q).
     (pushed, if pushed then p\<lparr>tp_queue := q, tp_submitted := tp_submitted p @ [task]\<rparr> else p))
     (Push task (tp_queue p))"

text \<open>The predicate that \<open>WaitForIdle\<close> waits for.\<close>

definition idle :: "'a ThreadPool \<Rightarrow> bool" where
  "idle p \<longleftrightarrow> (tp_active_tasks p = 0 \<and> Queue_Size (tp_queue p) = 0) \<or> tp_shutdown p"

text \<open>One atomic step of the loop of a worker; \<open>None\<close> when it waits or has left the loop.\<close>

definition WorkerLoop :: "nat \<Rightarrow> 'a ThreadPool \<Rightarrow> 'a ThreadPool option" where
  "WorkerLoop i p = (case tp_workers p ! i of
     Waiting \<Rightarrow> (case Pop (tp_queue p) of
         None \<Rightarrow> None
       | Some (None, q) \<Rightarrow> Some (p\<lparr>tp_queue := q, tp_workers := (tp_workers p)[i := Exited]\<rparr>)
       | Some (Some task, q) \<Rightarrow> Some (p\<lparr>tp_queue := q, tp_workers := (tp_workers p)[i := Holding task]\<rparr>))
   | Holding task \<Rightarrow> Some (p\<lparr>tp_active_tasks := tp_active_tasks p + 1,
                            tp_workers := (tp_workers p)[i := Running task]\<rparr>)
   | Running task \<Rightarrow> Some (p\<lparr>tp_executed := tp_executed p @ [task], tp_workers := (tp_workers p)[i := Ran]\<rparr>)
   | Ran \<Rightarrow> Some (p\<lparr>tp_active_tasks := tp_active_tasks p - 1, tp_workers := (tp_workers p)[i := Waiting]\<rparr>)
   | Exited \<Rightarrow> None)"

text \<open>\<open>Shutdown\<close>: the flag under the mutex, then the queue; it then joins the workers.\<close>

definition begin_shutdown :: "'a ThreadPool \<Rightarrow> 'a ThreadPool" where
  "begin_shutdown p = p\<lparr>tp_shutdown := True\<rparr>"

definition close_queue :: "'a ThreadPool \<Rightarrow> 'a ThreadPool" where
  "close_queue p = p\<lparr>tp_queue := Queue_Shutdown (tp_queue p)\<rparr>"

definition joined :: "'a ThreadPool \<Rightarrow> bool" where
  "joined p \<longleftrightarrow> (\<forall>w \<in> set (tp_workers p). w = Exited)"

inductive pool_step :: "'a ThreadPool \<Rightarrow> 'a ThreadPool \<Rightarrow> bool" where
  submit: "Submit task p = Some (b, p') \<Longrightarrow> pool_step p p'"
| worker: "i < length (tp_workers p) \<Longrightarrow> WorkerLoop i p = Some p' \<Longrightarrow> pool_step p p'"
| begin_shutdown: "pool_step p (begin_shutdown p)"
| close_queue: "tp_shutdown p \<Longrightarrow> pool_step p (close_queue p)"

inductive pool_reach :: "nat \<Rightarrow> nat \<Rightarrow> 'a ThreadPool \<Rightarrow> bool" for threads capacity where
  start: "pool_reach threads capacity (ThreadPool_new threads capacity)"
| step: "pool_reach threads capacity p \<Longrightarrow> pool_step p p' \<Longrightarrow> pool_reach threads capacity p'"

section \<open>Every accepted task runs once\<close>

fun task_of :: "'a worker \<Rightarrow> 'a multiset" where
  "task_of (Holding t) = {#t#}"
| "task_of (Running t) = {#t#}"
| "task_of _ = {#}"

definition in_hand :: "'a worker list \<Rightarrow> 'a multiset" where
  "in_hand ws = sum_list (map task_of ws)"

lemma in_hand_replicate [simp]: "in_hand (replicate n Waiting) = {#}"
  by (induction n) (simp_all add: in_hand_def)

lemma in_hand_update:
  "i < length ws \<Longrightarrow> in_hand (ws[i := w]) + task_of (ws ! i) = in_hand ws + task_of w"
  unfolding in_hand_def
proof (induction ws arbitrary: i)
  case (Cons v ws)
  then show ?case by (cases i) (simp_all add: add_ac)
qed simp

definition pool_inv :: "'a ThreadPool \<Rightarrow> bool" where
  "pool_inv p \<longleftrightarrow>
     mset (tp_submitted p) = mset (tp_executed p) + in_hand (tp_workers p) + mset (bq_queue (tp_queue p)) \<and>
     (Exited \<in> set (tp_workers p) \<longrightarrow> bq_shutdown (tp_queue p) \<and> bq_queue (tp_queue p) = [])"

lemma WorkerLoop_cases:
  assumes "WorkerLoop i p = Some p'"
  obtains (exits) "tp_workers p ! i = Waiting" "bq_queue (tp_queue p) = []" "bq_shutdown (tp_queue p)"
      "p' = p\<lparr>tp_workers := (tp_workers p)[i := Exited]\<rparr>"
  | (takes) t rest where "tp_workers p ! i = Waiting" "bq_queue (tp_queue p) = t # rest"
      "p' = p\<lparr>tp_queue := (tp_queue p)\<lparr>bq_queue := rest\<rparr>, tp_workers := (tp_workers p)[i := Holding t]\<rparr>"
  | (starts) t where "tp_workers p ! i = Holding t"
      "p' = p\<lparr>tp_active_tasks := tp_active_tasks p + 1, tp_workers := (tp_workers p)[i := Running t]\<rparr>"
  | (runs) t where "tp_workers p ! i = Running t"
      "p' = p\<lparr>tp_executed := tp_executed p @ [t], tp_workers := (tp_workers p)[i := Ran]\<rparr>"
  | (ends) "tp_workers p ! i = Ran"
      "p' = p\<lparr>tp_active_tasks := tp_active_tasks p - 1, tp_workers := (tp_workers p)[i := Waiting]\<rparr>"
proof (cases "tp_workers p ! i")
  case Waiting
  show ?thesis
  proof (cases "bq_queue (tp_queue p)")
    case Nil
    then show ?thesis
      using assms Waiting by (intro exits) (simp_all add: WorkerLoop_def Pop_def split: if_splits)
  next
    case (Cons t rest)
    then show ?thesis
      using assms Waiting by (intro takes [of t rest]) (simp_all add: WorkerLoop_def Pop_def)
  qed
next
  case (Holding t)
  then show ?thesis using assms by (intro starts [of t]) (simp_all add: WorkerLoop_def)
next
  case (Running t)
  then show ?thesis using assms by (intro runs [of t]) (simp_all add: WorkerLoop_def)
next
  case Ran
  then show ?thesis using assms by (intro ends) (simp_all add: WorkerLoop_def)
next
  case Exited
  then show ?thesis using assms by (simp add: WorkerLoop_def)
qed

lemma Submit_cases:
  assumes "Submit task p = Some (b, p')"
  obtains (accepted) "\<not> bq_shutdown (tp_queue p)"
      "p' = p\<lparr>tp_queue := (tp_queue p)\<lparr>bq_queue := bq_queue (tp_queue p) @ [task]\<rparr>,
             tp_submitted := tp_submitted p @ [task]\<rparr>"
  | (refused) "p' = p"
proof (cases "bq_shutdown (tp_queue p)")
  case True
  then show ?thesis using assms by (intro refused) (simp add: Submit_def Push_def)
next
  case False
  then show ?thesis using assms by (intro accepted) (simp_all add: Submit_def Push_def split: if_splits)
qed

lemma Exited_update: "w \<noteq> Exited \<Longrightarrow> Exited \<in> set (ws[i := w]) \<Longrightarrow> Exited \<in> set ws"
  using set_update_subset_insert [of ws i w] by blast

lemma in_hand_move:
  assumes "i < length ws"
  shows "in_hand (ws[i := w]) = in_hand ws + task_of w - task_of (ws ! i)"
  using in_hand_update [OF assms, of w] by (metis add_diff_cancel_right')

lemma task_in_hand: "i < length ws \<Longrightarrow> task_of (ws ! i) \<subseteq># in_hand ws"
  using in_hand_update [of i ws Waiting] by (metis add.commute add.right_neutral mset_subset_eq_add_left task_of.simps(3))

lemma worker_inv:
  assumes "WorkerLoop i p = Some p'" and "i < length (tp_workers p)" and "pool_inv p"
  shows "pool_inv p'"
  using assms(1)
proof (cases rule: WorkerLoop_cases)
  case exits
  then show ?thesis using assms(2,3) by (simp add: pool_inv_def in_hand_move)
next
  case (takes t rest)
  then have "Exited \<notin> set (tp_workers p)" using assms(3) by (auto simp: pool_inv_def)
  then show ?thesis
    using takes assms(2,3) by (auto simp: pool_inv_def in_hand_move dest: Exited_update [rotated])
next
  case (starts t)
  then show ?thesis
    using assms(2,3) task_in_hand [OF assms(2)]
    by (auto simp: pool_inv_def in_hand_move dest: Exited_update [rotated])
next
  case (runs t)
  then show ?thesis
    using assms(2,3) task_in_hand [OF assms(2)]
    by (auto simp: pool_inv_def in_hand_move dest: Exited_update [rotated])
next
  case ends
  then show ?thesis
    using assms(2,3) by (auto simp: pool_inv_def in_hand_move dest: Exited_update [rotated])
qed

lemma submit_inv:
  assumes "Submit task p = Some (b, p')" and "pool_inv p"
  shows "pool_inv p'"
  using assms(1)
proof (cases rule: Submit_cases)
  case accepted
  then show ?thesis using assms(2) by (auto simp: pool_inv_def)
next
  case refused
  then show ?thesis using assms(2) by simp
qed

lemma pool_reach_inv:
  assumes "pool_reach threads capacity p"
  shows "pool_inv p \<and> length (tp_workers p) = threads"
  using assms
proof (induction rule: pool_reach.induct)
  case start
  show ?case by (auto simp: pool_inv_def ThreadPool_new_def BoundedQueue_new_def)
next
  case (step p p')
  from step(2) show ?case
  proof cases
    case (submit task b)
    then show ?thesis using submit_inv [OF submit] step(3) by (auto elim: Submit_cases)
  next
    case (worker i)
    then show ?thesis using worker_inv [OF worker(2,1)] step(3) by (auto elim: WorkerLoop_cases)
  next
    case begin_shutdown
    then show ?thesis using step(3) by (simp add: begin_shutdown_def pool_inv_def)
  next
    case close_queue
    then show ?thesis using step(3) by (simp add: close_queue_def Queue_Shutdown_def pool_inv_def)
  qed
qed

section \<open>Shutting down\<close>

fun weight :: "'a worker \<Rightarrow> nat" where
  "weight Waiting = 1"
| "weight (Holding t) = 4"
| "weight (Running t) = 3"
| "weight Ran = 2"
| "weight Exited = 0"

text \<open>The atomic steps that the workers still have to take once the queue is closed.\<close>

definition work :: "'a ThreadPool \<Rightarrow> nat" where
  "work p = 4 * length (bq_queue (tp_queue p)) + sum_list (map weight (tp_workers p))"

lemma weight_update:
  assumes "i < length ws"
  shows "sum_list (map weight (ws[i := w])) + weight (ws ! i) = sum_list (map weight ws) + weight w"
  using assms
proof (induction ws arbitrary: i)
  case (Cons v ws)
  then show ?case by (cases i) (simp_all add: add_ac)
qed simp

lemma WorkerLoop_work:
  assumes "WorkerLoop i p = Some p'" and "i < length (tp_workers p)"
  shows "Suc (work p') = work p"
  using assms(1)
proof (cases rule: WorkerLoop_cases)
  case exits
  then show ?thesis using weight_update [OF assms(2), of Exited] by (simp add: work_def)
next
  case (takes t rest)
  then show ?thesis using weight_update [OF assms(2), of "Holding t"] by (simp add: work_def)
next
  case (starts t)
  then show ?thesis using weight_update [OF assms(2), of "Running t"] by (simp add: work_def)
next
  case (runs t)
  then show ?thesis using weight_update [OF assms(2), of Ran] by (simp add: work_def)
next
  case ends
  then show ?thesis using weight_update [OF assms(2), of Waiting] by (simp add: work_def)
qed

lemma WorkerLoop_progress:
  assumes "bq_shutdown (tp_queue p)" and "tp_workers p ! i \<noteq> Exited"
  shows "WorkerLoop i p \<noteq> None"
  using assms by (cases "tp_workers p ! i") (simp_all add: WorkerLoop_def Pop_def split: list.split)

lemma in_hand_joined: "(\<forall>w \<in> set ws. w = Exited) \<Longrightarrow> in_hand ws = {#}"
  by (induction ws) (simp_all add: in_hand_def)

text \<open>
  C19: A pool that is shut down drains. When \<open>Shutdown\<close> has joined its workers, every task that
  \<open>Submit\<close> accepted has run exactly once. The join returns: as long as the queue is closed and a
  worker has not left its loop some worker can take a step, and every step of a worker, whatever
  the others do in between, uses up one unit of the finite remaining work.
\<close>

theorem ThreadPool_drains:
  assumes "pool_reach threads capacity p" and "0 < threads"
  shows "(joined p \<longrightarrow> mset (tp_executed p) = mset (tp_submitted p)) \<and>
    (IsShutdown (tp_queue p) \<and> \<not> joined p \<longrightarrow> (\<exists>i<threads. WorkerLoop i p \<noteq> None)) \<and>
    (\<forall>i p'. i < threads \<and> WorkerLoop i p = Some p' \<longrightarrow> Suc (work p') = work p)"
proof (intro conjI impI allI)
  note inv = pool_reach_inv [OF assms(1)]
  show "mset (tp_executed p) = mset (tp_submitted p)" if "joined p"
  proof -
    have "Exited \<in> set (tp_workers p)"
      using that inv assms(2) by (cases "tp_workers p") (auto simp: joined_def)
    then show ?thesis
      using inv that in_hand_joined [of "tp_workers p"] by (simp add: pool_inv_def joined_def)
  qed
  show "\<exists>i<threads. WorkerLoop i p \<noteq> None" if sd: "IsShutdown (tp_queue p) \<and> \<not> joined p"
  proof -
    obtain w where "w \<in> set (tp_workers p)" "w \<noteq> Exited" using sd by (auto simp: joined_def)
    then obtain i where "i < threads" "tp_workers p ! i \<noteq> Exited"
      using inv by (metis in_set_conv_nth)
    then show ?thesis using sd WorkerLoop_progress by (metis IsShutdown_def)
  qed
  show "Suc (work p') = work p" if "i < threads \<and> WorkerLoop i p = Some p'" for i p'
    using that inv WorkerLoop_work by blast
qed

definition after_submit :: "nat ThreadPool" where
  "after_submit = snd (the (Submit 7 (ThreadPool_new 1 1)))"

theorem ThreadPool_drains_witness:
  "pool_reach 1 1 after_submit \<and> Suc (work (the (WorkerLoop 0 after_submit))) = work after_submit"
proof -
  have s: "Submit 7 (ThreadPool_new 1 1) = Some (True, after_submit)"
    by (simp add: after_submit_def Submit_def Push_def ThreadPool_new_def BoundedQueue_new_def)
  have r: "pool_reach 1 1 after_submit"
    by (rule pool_reach.step [OF pool_reach.start pool_step.submit [OF s]])
  have "WorkerLoop 0 after_submit = Some (the (WorkerLoop 0 after_submit))"
    by (simp add: after_submit_def WorkerLoop_def Submit_def Push_def Pop_def ThreadPool_new_def
        BoundedQueue_new_def)
  then show ?thesis using ThreadPool_drains [OF r zero_less_one] r zero_less_one by blast
qed

text \<open>
  C35: \<open>WaitForIdle\<close> can return too early. Between the \<open>Pop\<close> of a worker and its \<open>fetch_add\<close> the
  queue is empty and no task is counted as active, so the predicate holds although the accepted
  task has not run and the pool is not shut down.
\<close>

theorem WaitForIdle_race:
  "\<exists>p. pool_reach 1 1 p \<and> idle p \<and> \<not> tp_shutdown p \<and> tp_submitted p = [t] \<and> tp_executed p = []"
proof -
  define p1 where "p1 = (ThreadPool_new 1 1 :: 'a ThreadPool)\<lparr>tp_queue :=
    \<lparr>bq_capacity = 1, bq_queue = [t], bq_shutdown = False\<rparr>, tp_submitted := [t]\<rparr>"
  define p2 where "p2 = p1\<lparr>tp_queue := BoundedQueue_new 1, tp_workers := [Holding t]\<rparr>"
  have "Submit t (ThreadPool_new 1 1) = Some (True, p1)"
    by (simp add: p1_def Submit_def Push_def ThreadPool_new_def BoundedQueue_new_def)
  then have "pool_reach 1 1 p1" by (rule pool_reach.step [OF pool_reach.start pool_step.submit])
  moreover have "WorkerLoop 0 p1 = Some p2"
    by (simp add: p2_def p1_def WorkerLoop_def Pop_def ThreadPool_new_def BoundedQueue_new_def)
  moreover have "0 < length (tp_workers p1)" by (simp add: p1_def ThreadPool_new_def)
  ultimately have "pool_reach 1 1 p2" by (metis pool_reach.step pool_step.worker)
  moreover have "idle p2 \<and> \<not> tp_shutdown p2 \<and> tp_submitted p2 = [t] \<and> tp_executed p2 = []"
    by (simp add: p2_def p1_def idle_def Queue_Size_def ThreadPool_new_def BoundedQueue_new_def)
  ultimately show ?thesis by blast
qed

end
