(* ===== verification/Vox_Strings.thy ===== *)
theory Vox_Strings
  imports Vox_Prelude
begin

text \<open>
  The conversions between numbers and text of the C++ standard library and of the format
  strings that vox-server uses: decimal output (\<open>operator<<\<close>, \<open>std::to_string\<close>), hex
  output (the \<open>x\<close> presentation of fmt with a zero-padded width), \<open>std::from_chars\<close>,
  \<open>std::stoll\<close>, \<open>std::stoull\<close> and \<open>std::stoul\<close> with base 16, and \<open>std::isspace\<close>.
  A conversion that throws or reports an error is \<open>None\<close>. The lemmas are the round
  trips of the printers with the parsers.
\<close>

section \<open>Searching\<close>

text \<open>
  \<open>std::string::find\<close> of a text: whether it occurs, and what stands before and after its first
  occurrence.
\<close>

fun contains_text :: "string \<Rightarrow> string \<Rightarrow> bool" where
  "contains_text needle [] \<longleftrightarrow> needle = []"
| "contains_text needle (c # s) \<longleftrightarrow> take (length needle) (c # s) = needle \<or> contains_text needle s"

fun split_at_text :: "string \<Rightarrow> string \<Rightarrow> (string \<times> string) option" where
  "split_at_text needle [] = (if needle = [] then Some ([], []) else None)"
| "split_at_text needle (c # s) =
     (if take (length needle) (c # s) = needle then Some ([], drop (length needle) (c # s))
      else map_option (\<lambda>(a, b). (c # a, b)) (split_at_text needle s))"

lemma split_at_text_Some: "split_at_text needle s = Some (a, b) \<Longrightarrow> s = a @ needle @ b"
  by (induction needle s arbitrary: a b rule: split_at_text.induct)
    (auto split: if_splits, metis append_take_drop_id)

lemma split_at_text_None: "split_at_text needle s = None \<longleftrightarrow> \<not> contains_text needle s"
  by (induction needle s rule: split_at_text.induct) (auto simp: map_option_case split: option.splits)

section \<open>Digits\<close>

definition isspace :: "char \<Rightarrow> bool" where
  "isspace c \<longleftrightarrow> c \<in> {CHR '' '', CHR 0x09, CHR 0x0A, CHR 0x0B, CHR 0x0C, CHR 0x0D}"

definition digit_char :: "nat \<Rightarrow> char" where
  "digit_char n = (if n < 10 then char_of (48 + n) else char_of (87 + n))"

text \<open>The value of a digit or letter, as \<open>strtol\<close> reads it: letters count from ten.\<close>

definition digit_value :: "char \<Rightarrow> nat option" where
  "digit_value c =
     (let v = of_char c :: nat in
      if 48 \<le> v \<and> v \<le> 57 then Some (v - 48)
      else if 97 \<le> v \<and> v \<le> 122 then Some (v - 87)
      else if 65 \<le> v \<and> v \<le> 90 then Some (v - 55)
      else None)"

definition is_digit :: "nat \<Rightarrow> char \<Rightarrow> bool" where
  "is_digit base c = (case digit_value c of None \<Rightarrow> False | Some v \<Rightarrow> v < base)"

lemma digit_value_digit_char: "n < 36 \<Longrightarrow> digit_value (digit_char n) = Some n"
  by (auto simp: digit_value_def digit_char_def Let_def)

lemma is_digit_digit_char: "n < base \<Longrightarrow> base \<le> 36 \<Longrightarrow> is_digit base (digit_char n)"
  by (simp add: is_digit_def digit_value_digit_char)

lemma digit_char_eq [simp]: "n < 36 \<Longrightarrow> m < 36 \<Longrightarrow> digit_char n = digit_char m \<longleftrightarrow> n = m"
  by (metis digit_value_digit_char option.inject)

text \<open>The digits of a number, most significant first; zero is a single digit.\<close>

fun digits :: "nat \<Rightarrow> nat \<Rightarrow> string" where
  "digits base n =
     (if base < 2 \<or> n < base then [digit_char n]
      else digits base (n div base) @ [digit_char (n mod base)])"

declare digits.simps [simp del]

definition digits_value :: "nat \<Rightarrow> string \<Rightarrow> nat" where
  "digits_value base s = foldl (\<lambda>a c. a * base + the (digit_value c)) 0 s"

lemma digits_value_snoc [simp]:
  "digits_value base (s @ [c]) = digits_value base s * base + the (digit_value c)"
  by (simp add: digits_value_def)

lemma digits_value_Nil [simp]: "digits_value base [] = 0"
  by (simp add: digits_value_def)

lemma digits_nonempty [simp]: "digits base n \<noteq> []"
  by (subst digits.simps) simp

lemma digits_are_digits:
  "2 \<le> base \<Longrightarrow> base \<le> 36 \<Longrightarrow> c \<in> set (digits base n) \<Longrightarrow> is_digit base c"
proof (induction base n rule: digits.induct)
  case (1 base n)
  then show ?case
    by (subst (asm) (2) digits.simps)
      (auto split: if_splits intro!: is_digit_digit_char)
qed

lemma digits_value_digits: "2 \<le> base \<Longrightarrow> base \<le> 36 \<Longrightarrow> digits_value base (digits base n) = n"
proof (induction base n rule: digits.induct)
  case (1 base n)
  show ?case
  proof (cases "n < base")
    case True
    with 1 show ?thesis
      by (subst digits.simps) (simp add: digits_value_def digit_value_digit_char)
  next
    case False
    have "n mod base < base" using 1(2) by simp
    then have m: "digit_value (digit_char (n mod base)) = Some (n mod base)"
      using 1(3) by (intro digit_value_digit_char) linarith
    have "digits_value base (digits base n) = n div base * base + n mod base"
      using False 1 by (subst digits.simps) (simp add: m)
    then show ?thesis by simp
  qed
qed

section \<open>Printing\<close>

text \<open>\<open>operator<<\<close> and \<open>std::to_string\<close> on a signed integer.\<close>

definition show_int :: "int \<Rightarrow> string" where
  "show_int x = (if x < 0 then CHR ''-'' # digits 10 (nat (- x)) else digits 10 (nat x))"

text \<open>fmt's \<open>{:0wx}\<close>: lower case hex, padded on the left with zeros to width \<open>w\<close>.\<close>

definition fmt_hex :: "nat \<Rightarrow> nat \<Rightarrow> string" where
  "fmt_hex w n = (let s = digits 16 n in replicate (w - length s) (CHR ''0'') @ s)"

lemma digit_char_0: "digit_char 0 = CHR ''0''"
  by code_simp

lemma show_int_nonempty [simp]: "show_int x \<noteq> []"
  by (simp add: show_int_def)

lemma bar_not_digit: "\<not> is_digit 10 (CHR ''|'')"
  by code_simp

lemma bar_not_in_show_int [simp]: "CHR ''|'' \<notin> set (show_int x)"
  using digits_are_digits [of 10 "CHR ''|''"] bar_not_digit by (auto simp: show_int_def)

section \<open>Fixed-width hex\<close>

fun hex_fixed :: "nat \<Rightarrow> nat \<Rightarrow> string" where
  "hex_fixed 0 n = []"
| "hex_fixed (Suc w) n = hex_fixed w (n div 16) @ [digit_char (n mod 16)]"

lemma length_hex_fixed [simp]: "length (hex_fixed w n) = w"
  by (induction w arbitrary: n) simp_all

lemma hex_fixed_inj:
  "n < 16 ^ w \<Longrightarrow> m < 16 ^ w \<Longrightarrow> hex_fixed w n = hex_fixed w m \<Longrightarrow> n = m"
proof (induction w arbitrary: n m)
  case 0
  then show ?case by simp
next
  case (Suc w)
  then have "hex_fixed w (n div 16) = hex_fixed w (m div 16)"
    and d: "digit_char (n mod 16) = digit_char (m mod 16)"
    by auto
  moreover have "n div 16 < 16 ^ w" "m div 16 < 16 ^ w"
    using Suc.prems by (simp_all add: less_mult_imp_div_less mult.commute)
  ultimately have "n div 16 = m div 16" using Suc.IH by blast
  moreover from d have "n mod 16 = m mod 16" by simp
  ultimately show ?case by (metis div_mult_mod_eq)
qed

lemma hex_fixed_0: "hex_fixed w 0 = replicate w (CHR ''0'')"
  by (induction w) (simp_all add: digit_char_0 replicate_append_same)

lemma length_digits_16: "n < 16 ^ Suc w \<Longrightarrow> length (digits 16 n) \<le> Suc w"
proof (induction w arbitrary: n)
  case 0
  then show ?case by (simp add: digits.simps)
next
  case (Suc w)
  show ?case
  proof (cases "n < 16")
    case True
    then show ?thesis by (simp add: digits.simps)
  next
    case False
    have "n div 16 < 16 ^ Suc w" using Suc.prems by (simp add: less_mult_imp_div_less mult.commute)
    then have "length (digits 16 (n div 16)) \<le> Suc w" by (rule Suc.IH)
    with False show ?thesis by (subst digits.simps) simp
  qed
qed

lemma hex_fixed_pad:
  "n < 16 ^ Suc w \<Longrightarrow> hex_fixed (Suc w) n = replicate (Suc w - length (digits 16 n)) (CHR ''0'') @ digits 16 n"
proof (induction w arbitrary: n)
  case 0
  then show ?case by (simp add: digits.simps)
next
  case (Suc w)
  show ?case
  proof (cases "n < 16")
    case True
    then show ?thesis by (simp add: digits.simps hex_fixed_0 digit_char_0 replicate_append_same)
  next
    case False
    have *: "n div 16 < 16 ^ Suc w" using Suc.prems by (simp add: less_mult_imp_div_less mult.commute)
    have "digits 16 n = digits 16 (n div 16) @ [digit_char (n mod 16)]"
      using False by (subst digits.simps) simp
    moreover have "hex_fixed (Suc (Suc w)) n = hex_fixed (Suc w) (n div 16) @ [digit_char (n mod 16)]"
      by simp
    ultimately show ?thesis using Suc.IH [OF *] length_digits_16 [OF *] by simp
  qed
qed

text \<open>Where the value fits the width, the padded output has exactly that width.\<close>

lemma fmt_hex_fixed: "n < 16 ^ w \<Longrightarrow> 0 < w \<Longrightarrow> fmt_hex w n = hex_fixed w n"
  using hex_fixed_pad [of n "w - 1"] by (simp add: fmt_hex_def Let_def)

section \<open>Parsing\<close>

text \<open>
  \<open>strtol\<close> with a base: skip white space, take an optional sign, take the longest run of
  digits; \<open>None\<close> where there is no digit. The rest of the input is ignored.
\<close>

definition strto :: "nat \<Rightarrow> string \<Rightarrow> int option" where
  "strto base s =
     (let s = dropWhile isspace s;
          neg = (s \<noteq> [] \<and> hd s = CHR ''-'');
          s = (if s \<noteq> [] \<and> (hd s = CHR ''-'' \<or> hd s = CHR ''+'') then tl s else s);
          ds = takeWhile (is_digit base) s
      in if ds = [] then None
         else Some (if neg then - int (digits_value base ds) else int (digits_value base ds)))"

text \<open>\<open>std::stoll\<close>: \<open>std::out_of_range\<close> where the value does not fit.\<close>

definition stoll :: "string \<Rightarrow> int option" where
  "stoll s = (case strto 10 s of None \<Rightarrow> None | Some v \<Rightarrow> if in_i64 v then Some v else None)"

text \<open>
  \<open>std::stoull\<close>: a minus sign negates modulo \<open>2^64\<close>; the range check is on the digits.
\<close>

definition stoull :: "string \<Rightarrow> nat option" where
  "stoull s = (case strto 10 s of None \<Rightarrow> None
     | Some v \<Rightarrow> if \<bar>v\<bar> < 2 ^ 64 then Some (nat (v mod 2 ^ 64)) else None)"

text \<open>
  \<open>std::from_chars\<close> over a whole string (the callers demand that the match ends at the
  end): no white space and no plus sign, a minus sign for signed types only.
\<close>

definition from_chars_u64 :: "string \<Rightarrow> nat option" where
  "from_chars_u64 s =
     (if s \<noteq> [] \<and> list_all (is_digit 10) s \<and> digits_value 10 s < 2 ^ 64
      then Some (digits_value 10 s) else None)"

definition from_chars_i64 :: "string \<Rightarrow> int option" where
  "from_chars_i64 s =
     (let neg = (s \<noteq> [] \<and> hd s = CHR ''-''); ds = (if neg then tl s else s);
          v = (if neg then - int (digits_value 10 ds) else int (digits_value 10 ds))
      in if ds \<noteq> [] \<and> list_all (is_digit 10) ds \<and> in_i64 v then Some v else None)"

section \<open>Round trips\<close>

lemma digits_10_props:
  "list_all (is_digit 10) (digits 10 n)" "takeWhile (is_digit 10) (digits 10 n) = digits 10 n"
  using digits_are_digits [of 10 _ n] by (auto simp: list_all_iff)

lemma not_sign_or_space: "is_digit 10 c \<Longrightarrow> c \<noteq> CHR ''-'' \<and> c \<noteq> CHR ''+'' \<and> \<not> isspace c"
  by (auto simp: is_digit_def digit_value_def isspace_def Let_def split: if_splits)

lemma hd_digits: "is_digit 10 (hd (digits 10 n))"
  using digits_are_digits [of 10 "hd (digits 10 n)" n] by simp

lemma dropWhile_digits: "dropWhile isspace (digits 10 n) = digits 10 n"
  using not_sign_or_space [OF hd_digits [of n]] by (cases "digits 10 n") auto

lemma strto_show_int: "strto 10 (show_int x) = Some x"
proof -
  note d = not_sign_or_space [OF hd_digits] digits_10_props dropWhile_digits
    digits_value_digits [of 10]
  have "\<not> isspace (CHR ''-'')" by (simp add: isspace_def)
  then show ?thesis by (simp add: strto_def show_int_def d Let_def)
qed

lemma stoll_show_int [simp]: "in_i64 x \<Longrightarrow> stoll (show_int x) = Some x"
  by (simp add: stoll_def strto_show_int)

lemma from_chars_show_int [simp]: "in_i64 x \<Longrightarrow> from_chars_i64 (show_int x) = Some x"
  using not_sign_or_space [OF hd_digits] digits_10_props digits_value_digits [of 10]
  by (simp add: from_chars_i64_def show_int_def Let_def)

lemma show_int_inj: "show_int x = show_int y \<Longrightarrow> x = y"
  by (metis strto_show_int option.inject)

end
