(* ===== verification/Vox_Types.thy ===== *)
theory Vox_Types
  imports Vox_Strings
begin

text \<open>
  The shared types of \<open>lib/vox_common/types.hpp\<close> (identifiers, enums, \<open>Error\<close> and the
  \<open>std::expected\<close> results), the HTTP status table of \<open>lib/vox_net/error_http.hpp\<close>, the
  identifier generator of \<open>lib/vox_common/uuid.cpp\<close> and the token generator of
  \<open>lib/vox_auth/token_manager.cpp\<close>. The random engine is outside: a draw of
  \<open>std::uniform_int_distribution<std::uint64_t>\<close> is an argument of type \<open>64 word\<close>.
\<close>

section \<open>Identifiers, enums and results\<close>

type_synonym UserId = string
type_synonym DeviceId = string
type_synonym ConversationId = string
type_synonym EnvelopeId = string
type_synonym AttachmentId = string
type_synonym Timestamp = int

definition DeviceScopeKey :: "UserId \<Rightarrow> DeviceId \<Rightarrow> string" where
  "DeviceScopeKey user_id device_id = user_id @ CHR 0x1F # device_id"

datatype ConversationType = kDm | kGroup | kChannel

datatype MemberRole = kOwner | kAdmin | kMember

datatype ErrorCode =
    kOk | kNotFound | kAlreadyExists | kUnauthorized | kForbidden | kInvalidArgument
  | kInternal | kQuotaExceeded | kRateLimited | kShutdown | kQueueFull | kExpired
  | kDuplicate | kPayloadTooLarge

record Error =
  err_code :: ErrorCode
  err_message :: string

type_synonym 'a Result = "Error + 'a"
type_synonym VoidResult = "unit Result"

text \<open>\<open>std::unexpected(Error{.code = c, .message = m})\<close>.\<close>

definition unexpected :: "ErrorCode \<Rightarrow> string \<Rightarrow> 'a Result" where
  "unexpected c m = Inl \<lparr>err_code = c, err_message = m\<rparr>"

definition ok :: "'a Result \<Rightarrow> bool" where
  "ok r \<longleftrightarrow> (case r of Inl _ \<Rightarrow> False | Inr _ \<Rightarrow> True)"

lemma ok_simps [simp]: "ok (Inr x)" "\<not> ok (Inl e)" "\<not> ok (unexpected c m)"
  by (simp_all add: ok_def unexpected_def)

lemma unexpected_neq_Inr [simp]: "unexpected c m \<noteq> Inr x" "Inr x \<noteq> unexpected c m"
  by (simp_all add: unexpected_def)

lemma unexpected_inj [simp]:
  "(unexpected c m :: 'a Result) = unexpected c' m' \<longleftrightarrow> c = c' \<and> m = m'"
  by (auto simp: unexpected_def)

lemma case_unexpected [simp]:
  "(case unexpected c m of Inl e \<Rightarrow> f e | Inr x \<Rightarrow> g x) = f \<lparr>err_code = c, err_message = m\<rparr>"
  by (simp add: unexpected_def)

lemma Inl_eq_unexpected [simp]:
  "Inl e = (unexpected c m :: 'a Result) \<longleftrightarrow> e = \<lparr>err_code = c, err_message = m\<rparr>"
  "(unexpected c m :: 'a Result) = Inl e \<longleftrightarrow> e = \<lparr>err_code = c, err_message = m\<rparr>"
  by (auto simp: unexpected_def)

text \<open>
  The idiom \<open>auto r = op(); if (!r) return std::unexpected(r.error());\<close> on operations that
  return a result and the state after them.
\<close>

definition and_then :: "'a Result \<times> 's \<Rightarrow> ('a \<Rightarrow> 's \<Rightarrow> 'b Result \<times> 's) \<Rightarrow> 'b Result \<times> 's" where
  "and_then m f = (case m of (Inl e, s) \<Rightarrow> (Inl e, s) | (Inr x, s) \<Rightarrow> f x s)"

lemma and_then_simps [simp]:
  "and_then (Inr x, s) f = f x s" "and_then (Inl e, s) f = (Inl e, s)"
  "and_then (unexpected c m, s) f = (unexpected c m, s)"
  by (simp_all add: and_then_def unexpected_def)

lemma fst_and_then_Inr:
  "fst (and_then m f) = Inr y \<longleftrightarrow> (\<exists>x. fst m = Inr x \<and> fst (f x (snd m)) = Inr y)"
  by (auto simp: and_then_def split: prod.split sum.split)

lemma snd_and_then:
  "snd (and_then m f) = (case fst m of Inl e \<Rightarrow> snd m | Inr x \<Rightarrow> snd (f x (snd m)))"
  by (auto simp: and_then_def split: prod.split sum.split)

lemma and_then_inv:
  assumes "I (snd m)" and "\<And>x. fst m = Inr x \<Longrightarrow> I (snd (f x (snd m)))"
  shows "I (snd (and_then m f))"
  using assms by (auto simp: snd_and_then split: sum.split)

text \<open>The key of a device in the delivery queues and in the push registry.\<close>

lemma DeviceScopeKey_inj:
  assumes "CHR 0x1F \<notin> set u" and "CHR 0x1F \<notin> set u'"
  shows "DeviceScopeKey u d = DeviceScopeKey u' d' \<longleftrightarrow> u = u' \<and> d = d'"
  using assms split_at_char_append [of "CHR 0x1F" u d] split_at_char_append [of "CHR 0x1F" u' d']
  unfolding DeviceScopeKey_def by (metis Pair_inject option.inject)

section \<open>HTTP status of an error\<close>

fun HttpStatusForError :: "ErrorCode \<Rightarrow> nat" where
  "HttpStatusForError kNotFound = 404"
| "HttpStatusForError kAlreadyExists = 409"
| "HttpStatusForError kUnauthorized = 401"
| "HttpStatusForError kForbidden = 403"
| "HttpStatusForError kInvalidArgument = 400"
| "HttpStatusForError kQuotaExceeded = 413"
| "HttpStatusForError kRateLimited = 429"
| "HttpStatusForError kExpired = 401"
| "HttpStatusForError kDuplicate = 409"
| "HttpStatusForError kQueueFull = 503"
| "HttpStatusForError kPayloadTooLarge = 413"
| "HttpStatusForError _ = 500"

section \<open>Identifiers and tokens\<close>

definition kHighVersionMask :: "64 word" where "kHighVersionMask = 0xFFFFFFFFFFFF0FFF"
definition kHighVersionValue :: "64 word" where "kHighVersionValue = 0x0000000000004000"
definition kLowVariantMask :: "64 word" where "kLowVariantMask = 0x3FFFFFFFFFFFFFFF"
definition kLowVariantValue :: "64 word" where "kLowVariantValue = 0x8000000000000000"
definition kLowNodeMask :: "64 word" where "kLowNodeMask = 0x0000FFFFFFFFFFFF"

definition GenerateUuid :: "64 word \<Rightarrow> 64 word \<Rightarrow> string" where
  "GenerateUuid draw_high draw_low =
     (let high = (draw_high AND kHighVersionMask) OR kHighVersionValue;
          low = (draw_low AND kLowVariantMask) OR kLowVariantValue
      in fmt_hex 8 (unat (ucast (drop_bit 32 high) :: 32 word)) @ CHR ''-'' #
         fmt_hex 4 (unat (ucast (drop_bit 16 high AND 0xFFFF) :: 16 word)) @ CHR ''-'' #
         fmt_hex 4 (unat (ucast (high AND 0xFFFF) :: 16 word)) @ CHR ''-'' #
         fmt_hex 4 (unat (ucast (drop_bit 48 low) :: 16 word)) @ CHR ''-'' #
         fmt_hex 12 (unat (low AND kLowNodeMask)))"

type_synonym uuid_draw = "64 word \<times> 64 word"
type_synonym token_draw = "64 word \<times> 64 word \<times> 64 word \<times> 64 word"

abbreviation uuid :: "uuid_draw \<Rightarrow> string" where
  "uuid r \<equiv> GenerateUuid (fst r) (snd r)"

definition GenerateToken :: "token_draw \<Rightarrow> string" where
  "GenerateToken r = (case r of (a, b, c, d) \<Rightarrow>
     fmt_hex 16 (unat a) @ fmt_hex 16 (unat b) @ fmt_hex 16 (unat c) @ fmt_hex 16 (unat d))"

lemma unat_less_16: "unat (w :: 16 word) < 16 ^ 4" "unat (v :: 32 word) < 16 ^ 8"
    "unat (x :: 64 word) < 16 ^ 16"
  using unsigned_less [of w] unsigned_less [of v] unsigned_less [of x] by simp_all

lemma node_less: "unat (x AND kLowNodeMask) < 16 ^ 12"
proof -
  have "x AND kLowNodeMask \<le> kLowNodeMask" by (rule word_and_le1)
  then have "unat (x AND kLowNodeMask) \<le> unat kLowNodeMask" by (simp add: word_le_nat_alt)
  also have "\<dots> < 16 ^ 12" by (simp add: kLowNodeMask_def)
  finally show ?thesis .
qed

lemmas fmt_hex_words = fmt_hex_fixed [OF unat_less_16(1)] fmt_hex_fixed [OF unat_less_16(2)]
  fmt_hex_fixed [OF unat_less_16(3)] fmt_hex_fixed [OF node_less]

lemma length_GenerateUuid: "length (GenerateUuid h l) = 36"
  by (simp add: GenerateUuid_def Let_def fmt_hex_words)

lemma length_GenerateToken [simp]: "length (GenerateToken r) = 64"
  by (cases r) (simp add: GenerateToken_def fmt_hex_words)

lemma GenerateToken_inj: "GenerateToken r = GenerateToken r' \<longleftrightarrow> r = r'"
proof -
  obtain a b c d where r: "r = (a, b, c, d)" by (cases r)
  obtain a' b' c' d' where r': "r' = (a', b', c', d')" by (cases r')
  have "x = y" if "hex_fixed 16 (unat x) = hex_fixed 16 (unat y)" for x y :: "64 word"
    using hex_fixed_inj [OF unat_less_16(3) unat_less_16(3) that] by (simp add: unsigned_word_eqI)
  then show ?thesis unfolding r r' by (auto simp: GenerateToken_def fmt_hex_words)
qed

section \<open>The form of an identifier\<close>

abbreviation hex_digits :: string where
  "hex_digits \<equiv> ''0123456789abcdef''"

lemma digit_char_hex: "n < 16 \<Longrightarrow> digit_char n = hex_digits ! n"
proof -
  have "\<forall>n \<in> {..<16}. digit_char n = hex_digits ! n" by code_simp
  then show "n < 16 \<Longrightarrow> digit_char n = hex_digits ! n" by simp
qed

lemma digit_char_in_hex: "n < 16 \<Longrightarrow> digit_char n \<in> set hex_digits"
  unfolding digit_char_hex by (rule nth_mem) simp

lemma set_hex_fixed: "set (hex_fixed w n) \<subseteq> set hex_digits"
proof (induction w arbitrary: n)
  case (Suc w)
  then show ?case using digit_char_in_hex [of "n mod 16"] by fastforce
qed simp

lemma nth_hex_fixed: "i < w \<Longrightarrow> hex_fixed w n ! i = digit_char (n div 16 ^ (w - Suc i) mod 16)"
proof (induction w arbitrary: i n)
  case (Suc w)
  show ?case
  proof (cases "i = w")
    case False
    with Suc show ?thesis by (simp add: nth_append div_mult2_eq [symmetric] power_Suc [symmetric] Suc_diff_Suc del: power_Suc)
  qed (simp add: nth_append)
qed simp

lemma set_uuid: "set (GenerateUuid h l) \<subseteq> set (CHR ''-'' # hex_digits)"
  using set_hex_fixed by (auto simp: GenerateUuid_def Let_def fmt_hex_words dest!: subsetD [OF set_hex_fixed])

text \<open>
  A generated identifier never holds the separator of \<open>DeviceScopeKey\<close>, so the keys of
  two devices of generated users differ whenever the devices do, and never a quote.
\<close>

lemma sep_notin_uuid [simp]: "CHR 0x1F \<notin> set (GenerateUuid h l)"
  using set_uuid [of h l] by auto

lemma quote_notin_uuid [simp]: "CHR 0x27 \<notin> set (GenerateUuid h l)"
  using set_uuid [of h l] by auto

lemma uuid_not_empty [simp]: "GenerateUuid h l \<noteq> []"
  using length_GenerateUuid [of h l] by auto

definition uuid4_pattern :: "string list" where
  "uuid4_pattern = replicate 8 hex_digits @ ''-'' # replicate 4 hex_digits @ ''-'' # ''4'' # replicate 3 hex_digits @
     ''-'' # ''89ab'' # replicate 3 hex_digits @ ''-'' # replicate 12 hex_digits"

definition uuid4 :: "string \<Rightarrow> bool" where
  "uuid4 s \<longleftrightarrow> list_all2 (\<lambda>c allowed. c \<in> set allowed) s uuid4_pattern"

lemma hex_fixed_Cons: "hex_fixed (Suc w) n = digit_char (n div 16 ^ w mod 16) # hex_fixed w n"
proof (induction w arbitrary: n)
  case (Suc w)
  have "hex_fixed (Suc (Suc w)) n = hex_fixed (Suc w) (n div 16) @ [digit_char (n mod 16)]" by (rule hex_fixed.simps)
  also have "\<dots> = digit_char (n div 16 div 16 ^ w mod 16) # hex_fixed (Suc w) n"
    by (simp only: Suc append_Cons hex_fixed.simps(2) [of w n, symmetric])
  finally show ?case by (simp only: div_mult2_eq power_Suc)
qed simp

lemma hex_fixed_pattern: "list_all2 (\<lambda>c allowed. c \<in> set allowed) (hex_fixed w n) (replicate w hex_digits)"
proof (induction w arbitrary: n)
  case (Suc w)
  then show ?case using digit_char_in_hex [of "n div 16 ^ w mod 16"] by (simp add: hex_fixed_Cons del: hex_fixed.simps list.set)
qed simp

lemma version_digit: "unat (ucast (((h AND kHighVersionMask) OR kHighVersionValue) AND 0xFFFF) :: 16 word) div 4096 = 4"
proof -
  have "drop_bit 12 (ucast (((h AND kHighVersionMask) OR kHighVersionValue) AND 0xFFFF) :: 16 word) = 4"
    by (rule bit_word_eqI) (auto simp: bit_simps kHighVersionMask_def kHighVersionValue_def numeral_eq_Suc less_Suc_eq)
  then have "unat (drop_bit 12 (ucast (((h AND kHighVersionMask) OR kHighVersionValue) AND 0xFFFF) :: 16 word)) = 4" by simp
  then show ?thesis by (simp add: drop_bit_eq_div unat_div)
qed

lemma variant_digit: "digit_char (unat (ucast (drop_bit 48 ((l AND kLowVariantMask) OR kLowVariantValue)) :: 16 word) div 4096) \<in> set ''89ab''"
proof -
  let ?w = "ucast (drop_bit 48 ((l AND kLowVariantMask) OR kLowVariantValue)) :: 16 word"
  have "drop_bit 14 ?w = 2"
    by (rule bit_word_eqI) (auto simp: bit_simps kLowVariantMask_def kLowVariantValue_def numeral_eq_Suc less_Suc_eq)
  then have "unat (drop_bit 14 ?w) = 2" by simp
  then have "unat ?w div 16384 = 2" by (simp add: drop_bit_eq_div unat_div)
  then have "unat ?w div 4096 \<in> {8, 9, 10, 11}" by (auto simp: div_nat_eqI)
  moreover have "\<forall>n \<in> {8, 9, 10, 11}. digit_char n \<in> set ''89ab''" by code_simp
  ultimately show ?thesis by blast
qed

lemma uuid4_uuid: "uuid4 (GenerateUuid h l)"
proof -
  let ?P = "\<lambda>c allowed. c \<in> set allowed"
  have lt: "unat (w :: 16 word) < 65536" for w using unsigned_less [of w] by simp
  have first: "list_all2 ?P (hex_fixed 4 (unat w) @ xs) (cs # replicate 3 hex_digits @ ys)"
    if "digit_char (unat w div 4096) \<in> set cs" "list_all2 ?P xs ys" for w :: "16 word" and cs xs ys
    using that lt [of w] hex_fixed_Cons [of 3 "unat w"]
    by (simp add: list_all2_appendI hex_fixed_pattern del: hex_fixed.simps list.set)
  have rest: "list_all2 ?P (hex_fixed w n @ CHR ''-'' # xs) (replicate w hex_digits @ ''-'' # ys)"
    if "list_all2 ?P xs ys" for w n xs ys
    using that by (intro list_all2_appendI hex_fixed_pattern) simp
  have "digit_char (unat (ucast (((h AND kHighVersionMask) OR kHighVersionValue) AND 0xFFFF) :: 16 word) div 4096) \<in> set ''4''"
    unfolding version_digit by code_simp
  then show ?thesis
    unfolding uuid4_def uuid4_pattern_def GenerateUuid_def Let_def fmt_hex_words [OF zero_less_numeral]
    by (intro rest first variant_digit list.rel_intros hex_fixed_pattern) simp_all
qed

lemma high_words:
  fixes x y :: "64 word"
  assumes "ucast (drop_bit 32 x) = (ucast (drop_bit 32 y) :: 32 word)"
    and "ucast (drop_bit 16 x AND 0xFFFF) = (ucast (drop_bit 16 y AND 0xFFFF) :: 16 word)"
    and "ucast (x AND 0xFFFF) = (ucast (y AND 0xFFFF) :: 16 word)"
  shows "x = y"
proof (rule bit_word_eqI)
  fix n assume n: "n < LENGTH(64)"
  have m: "bit (0xFFFF :: 64 word) k \<longleftrightarrow> k < 16" "bit (0xFFFF :: int) k \<longleftrightarrow> k < 16" for k
    using bit_mask_iff [of 16 k, where 'a = "64 word"] bit_mask_iff [of 16 k, where 'a = int]
    by (auto simp: mask_eq_exp_minus_1)
  have top: "k < 32 \<Longrightarrow> bit x (32 + k) = bit y (32 + k)" for k
    using arg_cong [OF assms(1), of "\<lambda>w. bit w k"] by (simp add: bit_simps)
  have mid: "k < 16 \<Longrightarrow> bit x (16 + k) = bit y (16 + k)" "k < 16 \<Longrightarrow> bit x k = bit y k" for k
    using arg_cong [OF assms(2), of "\<lambda>w. bit w k"] arg_cong [OF assms(3), of "\<lambda>w. bit w k"] by (simp_all add: bit_simps m)
  from n consider "n < 16" | "16 \<le> n" "n < 32" | "32 \<le> n" "n < 64" by fastforce
  then show "bit x n = bit y n"
    by cases (use mid(2) [of n] mid(1) [of "n - 16"] top [of "n - 32"] in simp_all)
qed

lemma low_words:
  fixes x y :: "64 word"
  assumes "ucast (drop_bit 48 x) = (ucast (drop_bit 48 y) :: 16 word)" and "x AND kLowNodeMask = y AND kLowNodeMask"
  shows "x = y"
proof (rule bit_word_eqI)
  fix n assume n: "n < LENGTH(64)"
  have m: "bit kLowNodeMask k \<longleftrightarrow> k < 48" for k
    using bit_mask_iff [of 48 k, where 'a = "64 word"] by (auto simp: mask_eq_exp_minus_1 kLowNodeMask_def)
  have "k < 16 \<Longrightarrow> bit x (48 + k) = bit y (48 + k)" for k
    using arg_cong [OF assms(1), of "\<lambda>w. bit w k"] by (simp add: bit_simps)
  moreover have "n < 48 \<Longrightarrow> bit x n = bit y n"
    using arg_cong [OF assms(2), of "\<lambda>w. bit w n"] by (simp add: bit_simps m)
  ultimately show "bit x n = bit y n" using n by (cases "n < 48") (auto dest: meta_spec [of _ "n - 48"])
qed

lemma masked_or:
  fixes a b m v :: "64 word"
  assumes "m AND v = 0"
  shows "(a AND m) OR v = (b AND m) OR v \<longleftrightarrow> a AND m = b AND m"
proof
  have "\<not> (bit m n \<and> bit v n)" for n using assms by (metis bit_0_eq bit_and_iff bot_apply bot_bool_def)
  then show "(a AND m) OR v = (b AND m) OR v \<Longrightarrow> a AND m = b AND m"
    by (auto simp: bit_eq_iff bit_simps)
qed simp

lemma hex_word_eq:
  "hex_fixed 4 (unat w) = hex_fixed 4 (unat w') \<longleftrightarrow> w = w'"
  "hex_fixed 8 (unat u) = hex_fixed 8 (unat u') \<longleftrightarrow> u = u'"
  "hex_fixed 12 (unat (x AND kLowNodeMask)) = hex_fixed 12 (unat (y AND kLowNodeMask)) \<longleftrightarrow> x AND kLowNodeMask = y AND kLowNodeMask"
  for w w' :: "16 word" and u u' :: "32 word" and x y :: "64 word"
  using hex_fixed_inj [OF unat_less_16(1) unat_less_16(1), of w w'] hex_fixed_inj [OF unat_less_16(2) unat_less_16(2), of u u']
    hex_fixed_inj [OF node_less node_less, of x y]
  by (auto simp: unsigned_word_eqI)

text \<open>
  C40: A generated identifier is a UUID of version 4 and variant 1 in the canonical form, and the draws
  are kept but for the six bits that are fixed: two identifiers are equal only when their draws
  agree on the other 122 bits.
\<close>

theorem GenerateUuid_type:
  "uuid4 (GenerateUuid h l) \<and>
   (GenerateUuid h l = GenerateUuid h' l' \<longleftrightarrow>
      h AND kHighVersionMask = h' AND kHighVersionMask \<and> l AND kLowVariantMask = l' AND kLowVariantMask)"
proof -
  have disjoint: "kHighVersionMask AND kHighVersionValue = 0" "kLowVariantMask AND kLowVariantValue = 0"
    by (simp_all add: kHighVersionMask_def kHighVersionValue_def kLowVariantMask_def kLowVariantValue_def)
  let ?hi = "\<lambda>h. (h AND kHighVersionMask) OR kHighVersionValue" and ?lo = "\<lambda>l. (l AND kLowVariantMask) OR kLowVariantValue"
  have "GenerateUuid h l = GenerateUuid h' l' \<Longrightarrow> ?hi h = ?hi h' \<and> ?lo l = ?lo l'"
    using high_words [of "?hi h" "?hi h'"] low_words [of "?lo l" "?lo l'"]
    unfolding GenerateUuid_def Let_def fmt_hex_words [OF zero_less_numeral]
    by (auto simp: hex_word_eq simp del: hex_fixed.simps)
  moreover have "?hi h = ?hi h' \<and> ?lo l = ?lo l' \<Longrightarrow> GenerateUuid h l = GenerateUuid h' l'"
    unfolding GenerateUuid_def Let_def by (elim conjE) (simp only:)
  ultimately have "GenerateUuid h l = GenerateUuid h' l' \<longleftrightarrow> ?hi h = ?hi h' \<and> ?lo l = ?lo l'" by blast
  then show ?thesis using uuid4_uuid by (simp add: masked_or [OF disjoint(1)] masked_or [OF disjoint(2)])
qed

end
