(* ===== verification/Sha256.thy ===== *)
theory Sha256
  imports Vox_Types
begin

text \<open>
  SHA-256 and HMAC-SHA-256 as the server computes them: the vendored
  \<open>lib/vox_common/picosha2.h\<close> and \<open>HmacSha256Hex\<close> of
  \<open>lib/vox_common/hmac_sha256.cpp\<close>. \<open>word_t\<close> is \<open>unsigned long\<close>, 64 bits on the LP64
  targets of the server, so the 32-bit arithmetic of the standard is done on 64-bit words with
  masks. \<open>Sha256_Spec\<close> has the standard's own definition on 32-bit words and the proof that the
  code computes it.
\<close>

section \<open>The code\<close>

type_synonym word_t = "64 word"
type_synonym byte_t = "8 word"

definition mask_32bit :: "word_t \<Rightarrow> word_t" where
  "mask_32bit x = x AND 0xffffffff"

definition add_constant :: "word_t list" where
  "add_constant = concat [
    [0x428a2f98, 0x71374491, 0xb5c0fbcf, 0xe9b5dba5, 0x3956c25b, 0x59f111f1, 0x923f82a4, 0xab1c5ed5],
    [0xd807aa98, 0x12835b01, 0x243185be, 0x550c7dc3, 0x72be5d74, 0x80deb1fe, 0x9bdc06a7, 0xc19bf174],
    [0xe49b69c1, 0xefbe4786, 0x0fc19dc6, 0x240ca1cc, 0x2de92c6f, 0x4a7484aa, 0x5cb0a9dc, 0x76f988da],
    [0x983e5152, 0xa831c66d, 0xb00327c8, 0xbf597fc7, 0xc6e00bf3, 0xd5a79147, 0x06ca6351, 0x14292967],
    [0x27b70a85, 0x2e1b2138, 0x4d2c6dfc, 0x53380d13, 0x650a7354, 0x766a0abb, 0x81c2c92e, 0x92722c85],
    [0xa2bfe8a1, 0xa81a664b, 0xc24b8b70, 0xc76c51a3, 0xd192e819, 0xd6990624, 0xf40e3585, 0x106aa070],
    [0x19a4c116, 0x1e376c08, 0x2748774c, 0x34b0bcb5, 0x391c0cb3, 0x4ed8aa4a, 0x5b9cca4f, 0x682e6ff3],
    [0x748f82ee, 0x78a5636f, 0x84c87814, 0x8cc70208, 0x90befffa, 0xa4506ceb, 0xbef9a3f7, 0xc67178f2]]"

type_synonym 'w state8 = "'w \<times> 'w \<times> 'w \<times> 'w \<times> 'w \<times> 'w \<times> 'w \<times> 'w"

definition initial_message_digest :: "word_t state8" where
  "initial_message_digest = (0x6a09e667, 0xbb67ae85, 0x3c6ef372, 0xa54ff53a,
                             0x510e527f, 0x9b05688c, 0x1f83d9ab, 0x5be0cd19)"

definition ch :: "word_t \<Rightarrow> word_t \<Rightarrow> word_t \<Rightarrow> word_t" where
  "ch x y z = (x AND y) XOR (NOT x AND z)"

definition maj :: "word_t \<Rightarrow> word_t \<Rightarrow> word_t \<Rightarrow> word_t" where
  "maj x y z = (x AND y) XOR (x AND z) XOR (y AND z)"

definition rotr :: "word_t \<Rightarrow> nat \<Rightarrow> word_t" where
  "rotr x n = mask_32bit (drop_bit n x OR push_bit (32 - n) x)"

definition bsig0 :: "word_t \<Rightarrow> word_t" where
  "bsig0 x = rotr x 2 XOR rotr x 13 XOR rotr x 22"

definition bsig1 :: "word_t \<Rightarrow> word_t" where
  "bsig1 x = rotr x 6 XOR rotr x 11 XOR rotr x 25"

definition shr :: "word_t \<Rightarrow> nat \<Rightarrow> word_t" where
  "shr x n = drop_bit n x"

definition ssig0 :: "word_t \<Rightarrow> word_t" where
  "ssig0 x = rotr x 7 XOR rotr x 18 XOR shr x 3"

definition ssig1 :: "word_t \<Rightarrow> word_t" where
  "ssig1 x = rotr x 17 XOR rotr x 19 XOR shr x 10"

text \<open>
  \<open>hash256_block\<close>: the 64 bytes \<open>block\<close>, the array \<open>w\<close> of the message schedule filled in
  two loops, and the 64 rounds.
\<close>

definition load_words :: "byte_t list \<Rightarrow> word_t list" where
  "load_words block =
     fold (\<lambda>i w. w[i := push_bit 24 (ucast (block ! (i * 4))) OR
                        push_bit 16 (ucast (block ! (i * 4 + 1))) OR
                        push_bit 8 (ucast (block ! (i * 4 + 2))) OR
                        ucast (block ! (i * 4 + 3))])
       [0..<16] (replicate 64 0)"

definition schedule_step :: "nat \<Rightarrow> word_t list \<Rightarrow> word_t list" where
  "schedule_step i w =
     w[i := mask_32bit (ssig1 (w ! (i - 2)) + w ! (i - 7) + ssig0 (w ! (i - 15)) + w ! (i - 16))]"

definition schedule :: "byte_t list \<Rightarrow> word_t list" where
  "schedule block = fold schedule_step [16..<64] (load_words block)"

definition round_step :: "word_t list \<Rightarrow> nat \<Rightarrow> word_t state8 \<Rightarrow> word_t state8" where
  "round_step w i s = (case s of (a, b, c, d, e, f, g, h) \<Rightarrow>
     let temp1 = h + bsig1 e + ch e f g + add_constant ! i + w ! i;
         temp2 = bsig0 a + maj a b c
     in (mask_32bit (temp1 + temp2), a, b, c, mask_32bit (d + temp1), e, f, g))"

definition hash256_block :: "word_t state8 \<Rightarrow> byte_t list \<Rightarrow> word_t state8" where
  "hash256_block message_digest block =
     (case (message_digest, fold (round_step (schedule block)) [0..<64] message_digest) of
        ((h0, h1, h2, h3, h4, h5, h6, h7), (a, b, c, d, e, f, g, h)) \<Rightarrow>
          (mask_32bit (h0 + a), mask_32bit (h1 + b), mask_32bit (h2 + c), mask_32bit (h3 + d),
           mask_32bit (h4 + e), mask_32bit (h5 + f), mask_32bit (h6 + g), mask_32bit (h7 + h)))"

record hash256_one_by_one =
  buffer :: "byte_t list"
  data_length_digits :: "word_t list"
  hh :: "word_t state8"

definition hash256_init :: hash256_one_by_one where
  "hash256_init = \<lparr>buffer = [], data_length_digits = [0, 0, 0, 0], hh = initial_message_digest\<rparr>"

text \<open>The carry loop of \<open>add_to_data_length\<close>, which breaks at the first digit without carry.\<close>

fun carry_loop :: "word_t \<Rightarrow> word_t list \<Rightarrow> word_t list" where
  "carry_loop carry [] = []"
| "carry_loop carry (x # xs) =
     (let x' = x + carry
      in if x' \<ge> 65536 then (x' AND 65535) # carry_loop (drop_bit 16 x') xs else x' # xs)"

definition add_to_data_length :: "word_t \<Rightarrow> word_t list \<Rightarrow> word_t list" where
  "add_to_data_length n dl = carry_loop 0 (dl[0 := dl ! 0 + n])"

text \<open>The loop of \<open>process\<close> over the complete blocks of the buffer.\<close>

function hash_blocks :: "word_t state8 \<Rightarrow> byte_t list \<Rightarrow> word_t state8 \<times> byte_t list" where
  "hash_blocks h buf =
     (if 64 \<le> length buf then hash_blocks (hash256_block h (take 64 buf)) (drop 64 buf) else (h, buf))"
  by pat_completeness auto
termination by (relation "measure (\<lambda>(h, buf). length buf)") auto

declare hash_blocks.simps [simp del]

definition sha_process :: "byte_t list \<Rightarrow> hash256_one_by_one \<Rightarrow> hash256_one_by_one" where
  "sha_process bytes s =
     (let dl = add_to_data_length (word_of_nat (length bytes)) (data_length_digits s);
          (h, rest) = hash_blocks (hh s) (buffer s @ bytes)
      in \<lparr>buffer = rest, data_length_digits = dl, hh = h\<rparr>)"

fun shift_digits :: "word_t \<Rightarrow> word_t list \<Rightarrow> word_t list" where
  "shift_digits carry [] = []"
| "shift_digits carry (x # xs) =
     ((push_bit 3 x OR carry) AND 65535) # shift_digits (drop_bit 13 x AND 65535) xs"

definition write_data_bit_length :: "word_t list \<Rightarrow> byte_t list" where
  "write_data_bit_length dl =
     concat (map (\<lambda>x. [ucast (drop_bit 8 x), ucast x]) (rev (shift_digits 0 dl)))"

text \<open>
  \<open>finish\<close>: \<open>temp\<close> is the zero-filled block that takes the rest of the buffer, the byte
  0x80 and, in its last eight bytes, the bit length. The fills that follow an assignment write
  zeros where \<open>temp\<close> already is zero, except the one that clears the block that was hashed.
\<close>

definition sha_finish :: "hash256_one_by_one \<Rightarrow> hash256_one_by_one" where
  "sha_finish s =
     (let remains = length (buffer s);
          temp = (buffer s @ replicate (64 - remains) 0)[remains := 0x80];
          len = write_data_bit_length (data_length_digits s)
      in if remains > 55
         then let h = hash256_block (hh s) temp;
                  temp' = replicate 60 0 @ drop 60 temp
              in s\<lparr>hh := hash256_block h (take 56 temp' @ len)\<rparr>
         else s\<lparr>hh := hash256_block (hh s) (take 56 temp @ len)\<rparr>)"

definition word_bytes :: "word_t \<Rightarrow> byte_t list" where
  "word_bytes x = map (\<lambda>i. ucast (drop_bit (24 - 8 * i) x)) [0..<4]"

definition get_hash_bytes :: "hash256_one_by_one \<Rightarrow> byte_t list" where
  "get_hash_bytes s = (case hh s of (a, b, c, d, e, f, g, h) \<Rightarrow>
     concat (map word_bytes [a, b, c, d, e, f, g, h]))"

definition hash256_impl :: "byte_t list \<Rightarrow> byte_t list" where
  "hash256_impl bytes = get_hash_bytes (sha_finish (sha_process bytes hash256_init))"

text \<open>A \<open>std::string\<close> seen as bytes and back.\<close>

definition string_bytes :: "string \<Rightarrow> byte_t list" where
  "string_bytes s = map (\<lambda>c. word_of_nat (of_char c)) s"

definition bytes_string :: "byte_t list \<Rightarrow> string" where
  "bytes_string bs = map (\<lambda>b. char_of (unat b)) bs"

definition Sha256Raw :: "string \<Rightarrow> byte_t list" where
  "Sha256Raw data = hash256_impl (string_bytes data)"

definition bytes_to_hex_string :: "byte_t list \<Rightarrow> string" where
  "bytes_to_hex_string bs = concat (map (\<lambda>b. fmt_hex 2 (unat b)) bs)"

definition kBlock :: nat where
  "kBlock = 64"

definition key_block :: "string \<Rightarrow> byte_t list" where
  "key_block key =
     (let k = (if length key > kBlock then Sha256Raw key else string_bytes key)
      in k @ replicate (kBlock - length k) 0)"

definition HmacSha256Hex :: "string \<Rightarrow> string \<Rightarrow> string" where
  "HmacSha256Hex key message =
     (let ipad = map (\<lambda>kb. kb XOR 0x36) (key_block key);
          opad = map (\<lambda>kb. kb XOR 0x5c) (key_block key);
          inner_hash = Sha256Raw (bytes_string ipad @ message);
          outer_hash = Sha256Raw (bytes_string opad @ bytes_string inner_hash)
      in bytes_to_hex_string outer_hash)"

lemma length_word_bytes [simp]: "length (word_bytes x) = 4"
  by (simp add: word_bytes_def)

lemma length_Sha256Raw [simp]: "length (Sha256Raw data) = 32"
  by (simp add: Sha256Raw_def hash256_impl_def get_hash_bytes_def split: prod.splits)

lemma unat_byte_less_16: "unat (b :: byte_t) < 16 ^ 2"
  using unsigned_less [of b] by simp

lemma length_hex_bytes [simp]: "length (bytes_to_hex_string bs) = 2 * length bs"
  unfolding bytes_to_hex_string_def
  by (induction bs) (simp_all add: fmt_hex_fixed [OF unat_byte_less_16])

lemma length_HmacSha256Hex [simp]: "length (HmacSha256Hex key message) = 64"
  by (simp add: HmacSha256Hex_def Let_def)

end
