(* ===== verification/Sha256_Spec.thy ===== *)
theory Sha256_Spec
  imports Sha256
begin

text \<open>
  The Secure Hash Standard (FIPS 180-4) for SHA-256 and the keyed hash of RFC 2104, stated on bytes
  and 32-bit words as the documents have them, and the proof that \<open>picosha2.h\<close> and
  \<open>hmac_sha256.cpp\<close> compute them. The code works on 64-bit words whose upper half is zero: such a
  word is \<open>wide x\<close> for a word \<open>x\<close> of 32 bits.
\<close>

section \<open>The standard\<close>

type_synonym w32 = "32 word"

definition fips_ch :: "w32 \<Rightarrow> w32 \<Rightarrow> w32 \<Rightarrow> w32" where
  "fips_ch x y z = (x AND y) XOR (NOT x AND z)"

definition fips_maj :: "w32 \<Rightarrow> w32 \<Rightarrow> w32 \<Rightarrow> w32" where
  "fips_maj x y z = (x AND y) XOR (x AND z) XOR (y AND z)"

definition big_sigma0 :: "w32 \<Rightarrow> w32" where
  "big_sigma0 x = word_rotr 2 x XOR word_rotr 13 x XOR word_rotr 22 x"

definition big_sigma1 :: "w32 \<Rightarrow> w32" where
  "big_sigma1 x = word_rotr 6 x XOR word_rotr 11 x XOR word_rotr 25 x"

definition small_sigma0 :: "w32 \<Rightarrow> w32" where
  "small_sigma0 x = word_rotr 7 x XOR word_rotr 18 x XOR drop_bit 3 x"

definition small_sigma1 :: "w32 \<Rightarrow> w32" where
  "small_sigma1 x = word_rotr 17 x XOR word_rotr 19 x XOR drop_bit 10 x"

text \<open>
  The constants of the rounds: the first 32 bits of the fractional parts of the cube roots of the
  first 64 primes.
\<close>

definition primes64 :: "int list" where
  "primes64 = concat [
    [2, 3, 5, 7, 11, 13, 17, 19],
    [23, 29, 31, 37, 41, 43, 47, 53],
    [59, 61, 67, 71, 73, 79, 83, 89],
    [97, 101, 103, 107, 109, 113, 127, 131],
    [137, 139, 149, 151, 157, 163, 167, 173],
    [179, 181, 191, 193, 197, 199, 211, 223],
    [227, 229, 233, 239, 241, 251, 257, 263],
    [269, 271, 277, 281, 283, 293, 307, 311]]"

definition root_fraction :: "nat \<Rightarrow> int \<Rightarrow> int \<Rightarrow> bool" where
  "root_fraction r p k \<longleftrightarrow> 0 \<le> k \<and> k < 4294967296 \<and>
     (\<exists>n \<in> set [0..6]. (n * 4294967296 + k) ^ r \<le> p * 4294967296 ^ r \<and>
        p * 4294967296 ^ r < (n * 4294967296 + k + 1) ^ r)"

definition fips_K :: "w32 list" where
  "fips_K = map ucast add_constant"

definition fips_H0 :: "w32 state8" where
  "fips_H0 = (case initial_message_digest of (a, b, c, d, e, f, g, h) \<Rightarrow>
     (ucast a, ucast b, ucast c, ucast d, ucast e, ucast f, ucast g, ucast h))"

lemma fips_K_roots: "length fips_K = 64 \<and> list_all2 (\<lambda>p k. root_fraction 3 p (uint k)) primes64 fips_K"
  by code_simp

lemma fips_H0_roots: "case fips_H0 of (a, b, c, d, e, f, g, h) \<Rightarrow>
    list_all2 (\<lambda>p k. root_fraction 2 p (uint k)) (take 8 primes64) [a, b, c, d, e, f, g, h]"
  by code_simp

text \<open>A block of 64 bytes as 16 words, the message schedule, and the computation of one block.\<close>

definition be_word :: "byte_t list \<Rightarrow> w32" where
  "be_word bs = fold (\<lambda>b w. push_bit 8 w OR ucast b) bs 0"

definition block_word :: "byte_t list \<Rightarrow> nat \<Rightarrow> w32" where
  "block_word block t = be_word (take 4 (drop (4 * t) block))"

fun fips_W :: "byte_t list \<Rightarrow> nat \<Rightarrow> w32" where
  "fips_W block t =
     (if t < 16 then block_word block t
      else small_sigma1 (fips_W block (t - 2)) + fips_W block (t - 7) + small_sigma0 (fips_W block (t - 15)) + fips_W block (t - 16))"

declare fips_W.simps [simp del]

definition fips_round :: "byte_t list \<Rightarrow> nat \<Rightarrow> w32 state8 \<Rightarrow> w32 state8" where
  "fips_round block t = (\<lambda>(a, b, c, d, e, f, g, h).
     let t1 = h + big_sigma1 e + fips_ch e f g + fips_K ! t + fips_W block t;
         t2 = big_sigma0 a + fips_maj a b c
     in (t1 + t2, a, b, c, d + t1, e, f, g))"

definition fips_block :: "w32 state8 \<Rightarrow> byte_t list \<Rightarrow> w32 state8" where
  "fips_block hs block =
     (case (hs, fold (fips_round block) [0..<64] hs) of
        ((h0, h1, h2, h3, h4, h5, h6, h7), (a, b, c, d, e, f, g, h)) \<Rightarrow>
          (h0 + a, h1 + b, h2 + c, h3 + d, h4 + e, h5 + f, h6 + g, h7 + h))"

text \<open>
  Padding: a one bit, zeros up to eight bytes before the end of a block, and the length in bits, big
  endian in 64 bits.
\<close>

definition be_bytes :: "nat \<Rightarrow> 64 word \<Rightarrow> byte_t list" where
  "be_bytes n x = map (\<lambda>i. ucast (drop_bit (8 * (n - Suc i)) x)) [0..<n]"

definition fips_pad :: "byte_t list \<Rightarrow> byte_t list" where
  "fips_pad m = m @ 0x80 # replicate ((119 - length m mod 64) mod 64) 0 @ be_bytes 8 (word_of_nat (8 * length m))"

fun fips_blocks :: "byte_t list \<Rightarrow> byte_t list list" where
  "fips_blocks bs = (if bs = [] then [] else take 64 bs # fips_blocks (drop 64 bs))"

declare fips_blocks.simps [simp del]

definition fips_sha256 :: "byte_t list \<Rightarrow> byte_t list" where
  "fips_sha256 m =
     (case foldl fips_block fips_H0 (fips_blocks (fips_pad m)) of (a, b, c, d, e, f, g, h) \<Rightarrow>
        concat (map (\<lambda>x. be_bytes 4 (ucast x)) [a, b, c, d, e, f, g, h]))"

section \<open>Words of 32 bits in 64\<close>

definition wide :: "w32 \<Rightarrow> word_t" where
  "wide x = ucast x"

definition narrow :: "word_t \<Rightarrow> w32" where
  "narrow x = ucast x"

lemma bit_wide: "bit (wide x) n \<longleftrightarrow> n < 32 \<and> bit x n"
  by (auto simp: wide_def bit_simps dest: bit_imp_le_length)

lemma bit_narrow: "bit (narrow x) n \<longleftrightarrow> n < 32 \<and> bit x n"
  by (auto simp: narrow_def bit_simps)

lemma narrow_wide [simp]: "narrow (wide x) = x"
  by (rule bit_word_eqI) (simp add: bit_wide bit_narrow)

lemma mask_wide: "mask_32bit x = wide (narrow x)"
proof (rule bit_word_eqI)
  fix n assume "n < LENGTH(64)"
  have "bit (0xffffffff :: word_t) n \<longleftrightarrow> n < 32"
    using bit_mask_iff [of 32 n, where 'a = word_t] by (auto simp: mask_eq_exp_minus_1)
  then show "bit (mask_32bit x) n = bit (wide (narrow x)) n" by (auto simp: mask_32bit_def bit_simps bit_wide bit_narrow)
qed

lemma narrow_add: "narrow (x + y) = narrow x + narrow y"
proof -
  have "take_bit 32 (a + b) = take_bit 32 (take_bit 64 a + take_bit 64 b)" for a b :: int
    using take_bit_add [of 32 a b] take_bit_add [of 32 "take_bit 64 a" "take_bit 64 b"] by simp
  then show ?thesis unfolding narrow_def by transfer simp
qed

lemma wide_logic:
  "ch (wide x) (wide y) (wide z) = wide (fips_ch x y z)" "maj (wide x) (wide y) (wide z) = wide (fips_maj x y z)"
  "wide x XOR wide y = wide (x XOR y)" "shr (wide x) n = wide (drop_bit n x)"
  by (rule bit_word_eqI; auto simp: ch_def maj_def fips_ch_def fips_maj_def shr_def bit_simps bit_wide dest: bit_imp_le_length)+

lemma wide_rotr: "0 < n \<Longrightarrow> n < 32 \<Longrightarrow> rotr (wide x) n = wide (word_rotr n x)"
proof (rule bit_word_eqI)
  fix k assume n: "0 < n" "n < 32" and "k < LENGTH(64)"
  have "bit (word_rotr n x) k \<longleftrightarrow> k < 32 \<and> bit x (if k + n < 32 then k + n else k + n - 32)"
    using n by (auto simp: bit_word_rotr_iff le_mod_geq)
  moreover have "bit (rotr (wide x) n) k \<longleftrightarrow> k < 32 \<and> (n + k < 32 \<and> bit x (n + k) \<or> 32 - n \<le> k \<and> bit x (k - (32 - n)))"
    using n by (auto simp: rotr_def mask_wide bit_wide bit_narrow bit_or_iff bit_drop_bit_eq bit_push_bit_iff)
  moreover have "k < 32 \<Longrightarrow> 32 - n \<le> k \<longleftrightarrow> \<not> k + n < 32" "\<not> k + n < 32 \<Longrightarrow> k - (32 - n) = k + n - 32" using n by auto
  ultimately show "bit (rotr (wide x) n) k = bit (wide (word_rotr n x)) k"
    by (cases "k + n < 32") (auto simp: bit_wide add.commute)
qed

lemma wide_sigmas:
  "bsig0 (wide x) = wide (big_sigma0 x)" "bsig1 (wide x) = wide (big_sigma1 x)"
  "ssig0 (wide x) = wide (small_sigma0 x)" "ssig1 (wide x) = wide (small_sigma1 x)"
  by (simp_all add: bsig0_def bsig1_def ssig0_def ssig1_def big_sigma0_def big_sigma1_def small_sigma0_def small_sigma1_def
      wide_rotr wide_logic)

section \<open>One block\<close>

lemma load_word:
  "push_bit 24 (ucast (b0 :: byte_t)) OR push_bit 16 (ucast (b1 :: byte_t)) OR push_bit 8 (ucast (b2 :: byte_t)) OR ucast (b3 :: byte_t) =
     wide (be_word [b0, b1, b2, b3])"
  by (rule bit_word_eqI) (auto simp: be_word_def bit_simps bit_wide dest: bit_imp_le_length)

lemma fold_update:
  "n \<le> length w \<Longrightarrow> length (fold (\<lambda>i w. w[i := f i]) [0..<n] w) = length w \<and>
     (\<forall>k < length w. fold (\<lambda>i w. w[i := f i]) [0..<n] w ! k = (if k < n then f k else w ! k))"
  by (induction n) (auto simp: nth_list_update less_Suc_eq)

lemma take_four: "4 * i + 4 \<le> length xs \<Longrightarrow> take 4 (drop (4 * i) xs) = [xs ! (i * 4), xs ! (i * 4 + 1), xs ! (i * 4 + 2), xs ! (i * 4 + 3)]"
  by (rule nth_equalityI) (auto simp: numeral_eq_Suc less_Suc_eq mult.commute)

lemma load_words_correct:
  assumes "length block = 64"
  shows "length (load_words block) = 64" "t < 16 \<Longrightarrow> load_words block ! t = wide (fips_W block t)"
proof -
  let ?f = "\<lambda>i. push_bit 24 (ucast (block ! (i * 4))) OR push_bit 16 (ucast (block ! (i * 4 + 1))) OR
    push_bit 8 (ucast (block ! (i * 4 + 2))) OR ucast (block ! (i * 4 + 3)) :: word_t"
  have f: "?f i = wide (be_word (take 4 (drop (4 * i) block)))" if "i < 16" for i
    using that assms by (simp only: load_word) (simp add: take_four)
  show "length (load_words block) = 64" "t < 16 \<Longrightarrow> load_words block ! t = wide (fips_W block t)"
    using fold_update [of 16 "replicate 64 0" ?f] f by (auto simp: load_words_def fips_W.simps [of block t] block_word_def)
qed

lemma schedule_correct:
  assumes "length block = 64"
  shows "t < 64 \<Longrightarrow> schedule block ! t = wide (fips_W block t)"
proof -
  have "length (fold schedule_step [16..<n] (load_words block)) = 64 \<and>
      (\<forall>t < n. fold schedule_step [16..<n] (load_words block) ! t = wide (fips_W block t))" if "16 \<le> n" "n \<le> 64" for n
    using that
  proof (induction n rule: dec_induct)
    case base
    then show ?case using load_words_correct [OF assms] by simp
  next
    case (step n)
    let ?w = "fold schedule_step [16..<n] (load_words block)"
    have w: "length ?w = 64" "\<And>t. t < n \<Longrightarrow> ?w ! t = wide (fips_W block t)" using step by auto
    have "mask_32bit (ssig1 (?w ! (n - 2)) + ?w ! (n - 7) + ssig0 (?w ! (n - 15)) + ?w ! (n - 16)) = wide (fips_W block n)"
      using step(1) by (simp add: w(2) mask_wide narrow_add wide_sigmas fips_W.simps [of block n])
    then show ?case using step w by (auto simp: schedule_step_def nth_list_update less_Suc_eq)
  qed
  from this [of 64] show "t < 64 \<Longrightarrow> schedule block ! t = wide (fips_W block t)" by (simp add: schedule_def)
qed

definition wide8 :: "w32 state8 \<Rightarrow> word_t state8" where
  "wide8 = (\<lambda>(a, b, c, d, e, f, g, h). (wide a, wide b, wide c, wide d, wide e, wide f, wide g, wide h))"

lemma constants_wide: "add_constant = map wide fips_K" "initial_message_digest = wide8 fips_H0"
  by code_simp+

lemma round_correct:
  assumes "length block = 64" "t < 64"
  shows "round_step (schedule block) t (wide8 s) = wide8 (fips_round block t s)"
proof -
  have "add_constant ! t = wide (fips_K ! t)" using assms(2) fips_K_roots by (simp add: constants_wide)
  moreover obtain a b c d e f g h where "s = (a, b, c, d, e, f, g, h)" by (cases s) auto
  ultimately show ?thesis
    using assms by (simp add: round_step_def fips_round_def wide8_def Let_def schedule_correct mask_wide narrow_add
        wide_sigmas wide_logic add.assoc)
qed

lemma block_correct:
  assumes "length block = 64"
  shows "hash256_block (wide8 hs) block = wide8 (fips_block hs block)"
proof -
  have "fold (round_step (schedule block)) ts (wide8 s) = wide8 (fold (fips_round block) ts s)" if "\<forall>t \<in> set ts. t < 64" for ts s
    using that by (induction ts arbitrary: s) (simp_all add: round_correct [OF assms])
  from this [of "[0..<64]" hs] show ?thesis
    by (simp add: hash256_block_def fips_block_def wide8_def mask_wide narrow_add split: prod.splits)
qed

section \<open>The length\<close>

text \<open>The four digits of 16 bits of a length, and of the length in bits.\<close>

definition digit16 :: "word_t \<Rightarrow> nat \<Rightarrow> word_t" where
  "digit16 x i = drop_bit (16 * i) x AND 0xFFFF"

lemma bit_65535: "bit (0xFFFF :: int) k \<longleftrightarrow> k < 16"
  using bit_mask_iff [of 16 k, where 'a = int] by (auto simp: mask_eq_exp_minus_1)

lemma bit_digit16: "bit (digit16 x i) k \<longleftrightarrow> k < 16 \<and> bit x (16 * i + k)"
  by (auto simp: digit16_def bit_and_iff bit_65535 bit_drop_bit_eq)

lemma small_digit:
  assumes "\<not> x \<ge> (65536 :: word_t)"
  shows "x AND 65535 = x" "drop_bit 16 x = 0"
proof -
  have u: "unat x < 65536" using assms by (simp add: not_le word_less_nat_alt)
  have "unat (x div 65536) = 0" using u by (simp add: unat_div)
  then show "drop_bit 16 x = 0" by (simp add: drop_bit_eq_div unat_eq_zero)
  have "unat (x mod 65536) = unat x" using u by (simp add: unat_mod)
  then have "x mod 65536 = x" by (simp add: word_unat_eq_iff)
  moreover have "x AND 65535 = x mod 65536"
    using take_bit_eq_mask [of 16 x] take_bit_eq_mod [of 16 x] by (simp add: mask_eq_exp_minus_1)
  ultimately show "x AND 65535 = x" by simp
qed

lemma carry_loop_zeros:
  "carry_loop c (replicate (Suc n) 0) = (c AND 65535) # carry_loop (drop_bit 16 c) (replicate n 0)"
proof -
  have "carry_loop 0 (replicate n 0) = replicate n 0" by (cases n) simp_all
  then show ?thesis using small_digit [of c] by (cases "c \<ge> 65536") (simp_all add: Let_def)
qed

lemma data_length_digits: "add_to_data_length n [0, 0, 0, 0] = map (digit16 n) [0..<4]"
proof -
  have "add_to_data_length n [0, 0, 0, 0] = carry_loop n (replicate (Suc (Suc (Suc (Suc 0)))) 0)"
    by (simp add: add_to_data_length_def)
  also have "\<dots> = map (digit16 n) [0..<4]"
    unfolding carry_loop_zeros by (simp add: digit16_def numeral_eq_Suc)
  finally show ?thesis .
qed

lemma shift_digit:
  "(push_bit 3 (digit16 n 0)) AND 65535 = digit16 (push_bit 3 n) 0"
  "i < 3 \<Longrightarrow> (push_bit 3 (digit16 n (Suc i)) OR (drop_bit 13 (digit16 n i) AND 65535)) AND 65535 = digit16 (push_bit 3 n) (Suc i)"
proof -
  show "(push_bit 3 (digit16 n 0)) AND 65535 = digit16 (push_bit 3 n) 0"
    by (rule bit_word_eqI) (auto simp: bit_digit16 bit_simps bit_65535)
  assume i: "i < 3"
  show "(push_bit 3 (digit16 n (Suc i)) OR (drop_bit 13 (digit16 n i) AND 65535)) AND 65535 = digit16 (push_bit 3 n) (Suc i)"
  proof (rule bit_word_eqI)
    fix k assume "k < LENGTH(64)"
    have "3 \<le> k \<Longrightarrow> 16 + 16 * i + (k - 3) = 16 + (16 * i + k) - 3" "16 + (16 * i + k) - 3 = 16 * i + (13 + k)" by simp_all
    with i show "bit ((push_bit 3 (digit16 n (Suc i)) OR (drop_bit 13 (digit16 n i) AND 65535)) AND 65535) k =
        bit (digit16 (push_bit 3 n) (Suc i)) k"
      by (cases "k < 3") (auto simp: bit_digit16 bit_simps bit_65535 ac_simps)
  qed
qed

lemma bit_length_bytes: "write_data_bit_length (map (digit16 n) [0..<4]) = be_bytes 8 (push_bit 3 n)"
proof -
  have "shift_digits 0 (map (digit16 n) [0..<4]) = map (digit16 (push_bit 3 n)) [0..<4]"
    using shift_digit(1) [of n] shift_digit(2) [of 0 n] shift_digit(2) [of 1 n] shift_digit(2) [of 2 n]
    by (simp add: numeral_eq_Suc)
  moreover have "ucast (drop_bit 8 (digit16 x i)) = (ucast (drop_bit (16 * i + 8) x) :: byte_t)"
    "ucast (digit16 x i) = (ucast (drop_bit (16 * i) x) :: byte_t)" for x i
    by (rule bit_word_eqI; auto simp: bit_digit16 bit_simps ac_simps)+
  ultimately show ?thesis
    by (simp add: write_data_bit_length_def be_bytes_def numeral_eq_Suc)
qed

section \<open>Blocks and padding\<close>

lemma fips_blocks_append: "length xs = 64 * k \<Longrightarrow> fips_blocks (xs @ ys) = fips_blocks xs @ fips_blocks ys"
proof (induction k arbitrary: xs)
  case 0
  then show ?case by (simp add: fips_blocks.simps [of "[]"])
next
  case (Suc k)
  then have "length (drop 64 xs) = 64 * k" "xs \<noteq> []" "64 \<le> length xs" by auto
  with Suc.IH [of "drop 64 xs"] show ?case by (simp add: fips_blocks.simps [of "xs @ ys"] fips_blocks.simps [of xs])
qed

lemma fips_blocks_one: "length xs = 64 \<Longrightarrow> fips_blocks xs = [xs]"
  by (auto simp: fips_blocks.simps [of xs] fips_blocks.simps [of "[]"])

text \<open>What \<open>process\<close> hashes at once and what stays in the buffer.\<close>

lemma hash_blocks_correct:
  "\<exists>xs ys k. buf = xs @ ys \<and> length xs = 64 * k \<and> length ys < 64 \<and>
     hash_blocks (wide8 hs) buf = (wide8 (foldl fips_block hs (fips_blocks xs)), ys)"
proof (induction "length buf" arbitrary: buf hs rule: less_induct)
  case less
  show ?case
  proof (cases "64 \<le> length buf")
    case True
    then have len: "length (drop 64 buf) < length buf" "length (take 64 buf) = 64" by auto
    from less [OF len(1), of "fips_block hs (take 64 buf)"] obtain xs ys k where
      r: "drop 64 buf = xs @ ys" "length xs = 64 * k" "length ys < 64"
        "hash_blocks (wide8 (fips_block hs (take 64 buf))) (drop 64 buf) =
           (wide8 (foldl fips_block (fips_block hs (take 64 buf)) (fips_blocks xs)), ys)" by blast
    have "buf = (take 64 buf @ xs) @ ys" using r(1) by (metis append.assoc append_take_drop_id)
    moreover have "hash_blocks (wide8 hs) buf = (wide8 (foldl fips_block hs (fips_blocks (take 64 buf @ xs))), ys)"
      using True r(4) len(2) by (simp add: hash_blocks.simps [of _ buf] block_correct fips_blocks_append [of _ 1] fips_blocks_one)
    moreover have "length (take 64 buf @ xs) = 64 * Suc k" using len r(2) by simp
    ultimately show ?thesis using r(3) by blast
  next
    case False
    have "fips_blocks [] = []" by (simp add: fips_blocks.simps)
    with False show ?thesis by (intro exI [of _ "[]"] exI [of _ buf] exI [of _ 0]) (simp add: hash_blocks.simps)
  qed
qed

lemma finish_correct:
  assumes "length r < 64" and len: "length len = 8"
  shows "foldl fips_block hs (fips_blocks (r @ 0x80 # replicate ((119 - length r mod 64) mod 64) 0 @ len)) =
    (if length r > 55
     then fips_block (fips_block hs (r @ 0x80 # replicate (63 - length r) 0)) (replicate 56 0 @ len)
     else fips_block hs (r @ 0x80 # replicate (55 - length r) 0 @ len))"
proof (cases "length r > 55")
  case True
  let ?x = "r @ 0x80 # replicate (63 - length r) 0"
  have "(119 - length r mod 64) mod 64 = (63 - length r) + 56" using True assms(1) by simp
  then have "r @ 0x80 # replicate ((119 - length r mod 64) mod 64) 0 @ len = ?x @ replicate 56 0 @ len"
    by (simp add: replicate_add)
  moreover have "length ?x = 64 * 1" "length (replicate 56 0 @ len) = 64" using assms by simp_all
  ultimately show ?thesis using True fips_blocks_append [of ?x 1 "replicate 56 0 @ len"] by (simp add: fips_blocks_one)
next
  case False
  then have "(119 - length r mod 64) mod 64 = 55 - length r" using assms(1) by (simp add: mod_if)
  moreover have "length (r @ 0x80 # replicate (55 - length r) 0 @ len) = 64" using False len by simp
  ultimately show ?thesis using False by (simp add: fips_blocks_one)
qed

section \<open>The whole hash\<close>

lemma length_be_bytes [simp]: "length (be_bytes n x) = n"
  by (simp add: be_bytes_def)

lemma word_bytes_wide: "word_bytes (wide x) = be_bytes 4 (ucast x)"
  by (simp add: word_bytes_def be_bytes_def wide_def numeral_eq_Suc)

lemma sha_finish_correct:
  assumes "length r < 64" and "hh s = wide8 hs" "buffer s = r" "write_data_bit_length (data_length_digits s) = len" "length len = 8"
  shows "hh (sha_finish s) = wide8 (foldl fips_block hs (fips_blocks (r @ 0x80 # replicate ((119 - length r mod 64) mod 64) 0 @ len)))"
proof -
  let ?temp = "r @ 0x80 # replicate (63 - length r) (0 :: byte_t)"
  have "(r @ replicate (64 - length r) 0)[length r := 0x80] = ?temp"
    using assms(1) Suc_diff_Suc [of "length r" 64] by (simp add: list_update_append)
      (metis Suc_diff_le Suc_leI diff_Suc_Suc less_Suc_eq_le list_update_code(2) numeral_eq_Suc replicate_Suc)
  moreover have "length ?temp = 64" using assms(1) by simp
  moreover have "take 56 ?temp = r @ 0x80 # replicate (55 - length r) 0" if "\<not> length r > 55"
    using that by (simp add: take_Cons' min_def)
  ultimately show ?thesis
    using assms unfolding finish_correct [OF assms(1,5)]
    by (auto simp: sha_finish_def Let_def block_correct)
qed

lemma hash256_correct: "hash256_impl m = fips_sha256 m"
proof -
  obtain xs r k where m: "m = xs @ r" "length xs = 64 * k" "length r < 64"
    and h: "hash_blocks (wide8 fips_H0) m = (wide8 (foldl fips_block fips_H0 (fips_blocks xs)), r)"
    using hash_blocks_correct by blast
  let ?len = "be_bytes 8 (word_of_nat (8 * length m))"
  have push: "push_bit 3 (word_of_nat n :: 64 word) = word_of_nat (8 * n)" for n by (simp add: push_bit_eq_mult)
  have "length m mod 64 = length r mod 64" using m by simp
  then have "fips_pad m = xs @ r @ 0x80 # replicate ((119 - length r mod 64) mod 64) 0 @ ?len"
    using m(1) by (simp add: fips_pad_def)
  then have pad: "foldl fips_block fips_H0 (fips_blocks (fips_pad m)) =
      foldl fips_block (foldl fips_block fips_H0 (fips_blocks xs))
        (fips_blocks (r @ 0x80 # replicate ((119 - length r mod 64) mod 64) 0 @ ?len))"
    using fips_blocks_append [OF m(2)] by simp
  have "hh (sha_finish (sha_process m hash256_init)) = wide8 (foldl fips_block fips_H0 (fips_blocks (fips_pad m)))"
    unfolding pad
    by (rule sha_finish_correct)
       (simp_all add: m(3) sha_process_def hash256_init_def constants_wide h data_length_digits bit_length_bytes push Let_def)
  then show ?thesis
    by (auto simp: hash256_impl_def get_hash_bytes_def fips_sha256_def wide8_def word_bytes_wide split: prod.splits)
qed

section \<open>The keyed hash\<close>

text \<open>RFC 2104 with SHA-256 and its block length of 64 bytes.\<close>

definition rfc2104_hmac :: "byte_t list \<Rightarrow> byte_t list \<Rightarrow> byte_t list" where
  "rfc2104_hmac key m =
     (let k = (if length key > 64 then fips_sha256 key else key);
          k0 = k @ replicate (64 - length k) 0
      in fips_sha256 (map (\<lambda>b. b XOR 0x5c) k0 @ fips_sha256 (map (\<lambda>b. b XOR 0x36) k0 @ m)))"

lemma string_bytes_bytes: "string_bytes (bytes_string bs) = bs"
proof -
  have "word_of_nat (of_char (char_of (unat b) :: char)) = b" for b :: byte_t
    using unsigned_less [of b, where 'a = nat] by simp
  then show ?thesis by (simp add: string_bytes_def bytes_string_def comp_def)
qed

lemma string_bytes_append: "string_bytes (s @ t) = string_bytes s @ string_bytes t" "length (string_bytes s) = length s"
  by (simp_all add: string_bytes_def)

text \<open>
  C10: The hash of tokens is the standard one. \<open>picosha2.h\<close>, which computes on 64-bit words with masks
  and pads in its own buffer, computes SHA-256 of FIPS 180-4 on every message, and \<open>HmacSha256Hex\<close> is
  the keyed hash of RFC 2104 with it, in hexadecimal.
\<close>

theorem HmacSha256_standard:
  "Sha256Raw data = fips_sha256 (string_bytes data) \<and>
   HmacSha256Hex key data = bytes_to_hex_string (rfc2104_hmac (string_bytes key) (string_bytes data))"
proof -
  have raw: "Sha256Raw s = fips_sha256 (string_bytes s)" for s by (simp add: Sha256Raw_def hash256_correct)
  moreover have "key_block key = (if length key > 64 then fips_sha256 (string_bytes key) else string_bytes key) @
      replicate (64 - length (if length key > 64 then fips_sha256 (string_bytes key) else string_bytes key)) 0"
    by (simp add: key_block_def kBlock_def raw Let_def)
  ultimately show ?thesis
    by (simp add: HmacSha256Hex_def rfc2104_hmac_def Let_def string_bytes_bytes string_bytes_append)
qed

end
