(* ===== verification/Vox_Database.thy ===== *)
theory Vox_Database
  imports Vox_Types
begin

text \<open>
  The database of vox-server: the tables of \<open>Database::CreateSchema\<close>
  (\<open>lib/vox_store/database.cpp\<close>) as lists of rows, one insert per table with the PRIMARY
  KEY, UNIQUE and FOREIGN KEY checks of its CREATE TABLE statement (\<open>None\<close> is
  SQLITE_CONSTRAINT), and the deletes on the tables that other tables reference. The
  connection runs with \<open>PRAGMA foreign_keys=ON\<close> and one recursive mutex around every
  repository call, so an operation of a repository is one function from database to
  database. SQLite itself is a parameter: the record \<open>sqlite\<close> holds what its
  documentation leaves open (the order in which a query without ORDER BY visits rows, the
  LIKE operator, the text of an exception). \<open>db_ok\<close> is the well-formedness of a
  database: every constraint of the schema, and usernames that differ in more than case.
\<close>

section \<open>Rows\<close>

record UserRecord =
  u_user_id :: UserId
  u_username :: string
  u_password_salt :: string
  u_password_verifier :: string
  u_created_at :: Timestamp
  u_disabled_at :: "Timestamp option"
  u_sync_key_version :: int
  u_wrapped_sync_key :: string
  u_sync_wrap_salt :: string
  u_sync_wrap_params :: string

record DeviceRecord =
  d_device_id :: DeviceId
  d_user_id :: UserId
  d_identity_key_public :: string
  d_signed_prekey_public :: string
  d_signed_prekey_signature :: string
  d_last_prekey_refresh_at :: "Timestamp option"
  d_client_protocol_version :: int
  d_device_label :: string
  d_created_at :: Timestamp
  d_last_seen_at :: Timestamp
  d_revoked_at :: "Timestamp option"

record prekey_row =
  pk_prekey_id :: string
  pk_user_id :: UserId
  pk_device_id :: DeviceId
  pk_prekey_public :: string
  pk_consumed_at :: "Timestamp option"

record SessionRecord =
  s_session_id :: string
  s_user_id :: UserId
  s_device_id :: DeviceId
  s_access_token_hash :: string
  s_refresh_token_hash :: string
  s_access_expires_at :: Timestamp
  s_refresh_expires_at :: Timestamp
  s_created_at :: Timestamp
  s_revoked_at :: "Timestamp option"

record conversation_row =
  c_conversation_id :: ConversationId
  c_type :: ConversationType
  c_created_by :: UserId
  c_created_at :: Timestamp
  c_policy_blob :: string
  c_membership_version :: int

record MemberRecord =
  m_conversation_id :: ConversationId
  m_user_id :: UserId
  m_role :: MemberRole
  m_added_at :: Timestamp
  m_removed_at :: "Timestamp option"

record subscription_row =
  cs_conversation_id :: ConversationId
  cs_user_id :: UserId
  cs_subscribed_at :: Timestamp
  cs_unsubscribed_at :: "Timestamp option"

record EnvelopeRecord =
  e_envelope_id :: EnvelopeId
  e_conversation_id :: ConversationId
  e_sender_user_id :: UserId
  e_sender_device_id :: DeviceId
  e_ciphertext :: string
  e_server_timestamp :: Timestamp
  e_envelope_type :: int
  e_retention_until :: "Timestamp option"
  e_ordering_epoch :: "int option"

record DeliveryStateRecord =
  ds_envelope_id :: EnvelopeId
  ds_target_user_id :: UserId
  ds_target_device_id :: DeviceId
  ds_queued_at :: Timestamp
  ds_delivered_at :: "Timestamp option"
  ds_acked_at :: "Timestamp option"

record attachment_row =
  a_attachment_id :: AttachmentId
  a_user_id :: UserId
  a_conversation_id :: ConversationId
  a_file_size :: int
  a_mime_hint :: string
  a_ciphertext_hash :: "string option"
  a_blob_path :: string
  a_upload_complete :: bool
  a_created_at :: Timestamp
  a_retention_until :: "Timestamp option"

record sync_row =
  sr_id :: int
  sr_user_id :: UserId
  sr_collection :: string
  sr_record_id :: string
  sr_ciphertext :: string
  sr_content_hash :: string
  sr_version :: int
  sr_deleted :: bool
  sr_server_updated_at :: Timestamp

text \<open>\<open>sync_seq\<close> is the AUTOINCREMENT counter that SQLite keeps for \<open>sync_records\<close>.\<close>

record db =
  users :: "UserRecord list"
  devices :: "DeviceRecord list"
  one_time_prekeys :: "prekey_row list"
  sessions :: "SessionRecord list"
  conversations :: "conversation_row list"
  conversation_members :: "MemberRecord list"
  channel_subscriptions :: "subscription_row list"
  encrypted_envelopes :: "EnvelopeRecord list"
  delivery_state :: "DeliveryStateRecord list"
  attachment_metadata :: "attachment_row list"
  sync_records :: "sync_row list"
  sync_seq :: int

text \<open>\<open>CREATE TABLE IF NOT EXISTS\<close> on a new file: every table is empty.\<close>

definition CreateSchema :: db where
  "CreateSchema = \<lparr>users = [], devices = [], one_time_prekeys = [], sessions = [],
     conversations = [], conversation_members = [], channel_subscriptions = [],
     encrypted_envelopes = [], delivery_state = [], attachment_metadata = [],
     sync_records = [], sync_seq = 0\<rparr>"

section \<open>What SQLite leaves open\<close>

record sqlite =
  scan_users :: "UserRecord list \<Rightarrow> UserRecord list"
  scan_devices :: "DeviceRecord list \<Rightarrow> DeviceRecord list"
  scan_prekeys :: "prekey_row list \<Rightarrow> prekey_row list"
  scan_conversations :: "conversation_row list \<Rightarrow> conversation_row list"
  scan_members :: "MemberRecord list \<Rightarrow> MemberRecord list"
  scan_subscriptions :: "subscription_row list \<Rightarrow> subscription_row list"
  scan_envelopes :: "EnvelopeRecord list \<Rightarrow> EnvelopeRecord list"
  scan_attachments :: "attachment_row list \<Rightarrow> attachment_row list"
  like :: "string \<Rightarrow> string \<Rightarrow> bool"
  what :: string

text \<open>
  The order of a query without ORDER BY is some order of exactly the matching rows; LIKE
  with a pattern that ends in its only wildcard, a percent sign, is a prefix match up to
  ASCII case.
\<close>

definition no_wildcard :: "string \<Rightarrow> bool" where
  "no_wildcard s \<longleftrightarrow> CHR ''%'' \<notin> set s \<and> CHR ''_'' \<notin> set s"

definition sqlite_ok :: "sqlite \<Rightarrow> bool" where
  "sqlite_ok sq \<longleftrightarrow>
     (\<forall>t. mset (scan_users sq t) = mset t) \<and> (\<forall>t. mset (scan_devices sq t) = mset t) \<and>
     (\<forall>t. mset (scan_prekeys sq t) = mset t) \<and> (\<forall>t. mset (scan_conversations sq t) = mset t) \<and>
     (\<forall>t. mset (scan_members sq t) = mset t) \<and> (\<forall>t. mset (scan_subscriptions sq t) = mset t) \<and>
     (\<forall>t. mset (scan_envelopes sq t) = mset t) \<and> (\<forall>t. mset (scan_attachments sq t) = mset t) \<and>
     (\<forall>q text. no_wildcard q \<longrightarrow>
        like sq text (q @ ''%'') = (take (length q) (nocase text) = nocase q))"

text \<open>One engine that satisfies it: rows in insertion order.\<close>

definition rowid_order :: sqlite where
  "rowid_order = \<lparr>scan_users = id, scan_devices = id, scan_prekeys = id,
     scan_conversations = id, scan_members = id, scan_subscriptions = id, scan_envelopes = id,
     scan_attachments = id,
     like = (\<lambda>text p. take (length p - 1) (nocase text) = nocase (butlast p)),
     what = ''constraint failed''\<rparr>"

lemma sqlite_ok_rowid_order [simp]: "sqlite_ok rowid_order"
  by (auto simp: sqlite_ok_def rowid_order_def)

lemma set_scan:
  assumes "sqlite_ok sq"
  shows "set (scan_users sq tu) = set tu" "set (scan_devices sq td) = set td"
    "set (scan_prekeys sq tp) = set tp" "set (scan_conversations sq tc) = set tc"
    "set (scan_members sq tm) = set tm" "set (scan_subscriptions sq ts) = set ts"
    "set (scan_envelopes sq te) = set te" "set (scan_attachments sq ta) = set ta"
  using assms unfolding sqlite_ok_def by (metis set_mset_mset)+

lemma length_scan:
  assumes "sqlite_ok sq"
  shows "length (scan_users sq tu) = length tu" "length (scan_devices sq td) = length td"
    "length (scan_prekeys sq tp) = length tp" "length (scan_conversations sq tc) = length tc"
    "length (scan_members sq tm) = length tm" "length (scan_subscriptions sq ts) = length ts"
    "length (scan_envelopes sq te) = length te" "length (scan_attachments sq ta) = length ta"
  using assms unfolding sqlite_ok_def by (metis size_mset)+

lemma distinct_map_mset: "mset xs = mset ys \<Longrightarrow> distinct (map f xs) \<longleftrightarrow> distinct (map f ys)"
  by (metis mset_eq_imp_distinct_iff mset_map)

lemma distinct_scan:
  assumes "sqlite_ok sq"
  shows "distinct (map fm (scan_members sq tm)) \<longleftrightarrow> distinct (map fm tm)"
    "distinct (map fs (scan_subscriptions sq ts)) \<longleftrightarrow> distinct (map fs ts)"
    "distinct (map fd (scan_devices sq td)) \<longleftrightarrow> distinct (map fd td)"
  using assms unfolding sqlite_ok_def by (metis distinct_map_mset)+

lemma scan_nil:
  assumes "sqlite_ok sq"
  shows "scan_users sq tu = [] \<longleftrightarrow> tu = []" "scan_devices sq td = [] \<longleftrightarrow> td = []"
    "scan_prekeys sq tp = [] \<longleftrightarrow> tp = []" "scan_conversations sq tc = [] \<longleftrightarrow> tc = []"
    "scan_members sq tm = [] \<longleftrightarrow> tm = []" "scan_subscriptions sq ts = [] \<longleftrightarrow> ts = []"
    "scan_envelopes sq te = [] \<longleftrightarrow> te = []" "scan_attachments sq ta = [] \<longleftrightarrow> ta = []"
  using length_scan [OF assms] by (metis length_0_conv)+

lemma scan_single:
  assumes "sqlite_ok sq"
  shows "scan_users sq [u] = [u]" "scan_devices sq [d] = [d]" "scan_prekeys sq [p] = [p]"
    "scan_members sq [m] = [m]" "scan_subscriptions sq [s] = [s]" "scan_envelopes sq [e] = [e]"
  using assms unfolding sqlite_ok_def by (metis mset.simps mset_single_iff)+

section \<open>Keys\<close>

definition dev_key :: "DeviceRecord \<Rightarrow> UserId \<times> DeviceId" where
  "dev_key d = (d_user_id d, d_device_id d)"

definition pk_dev :: "prekey_row \<Rightarrow> UserId \<times> DeviceId" where
  "pk_dev p = (pk_user_id p, pk_device_id p)"

definition s_dev :: "SessionRecord \<Rightarrow> UserId \<times> DeviceId" where
  "s_dev s = (s_user_id s, s_device_id s)"

definition m_key :: "MemberRecord \<Rightarrow> ConversationId \<times> UserId" where
  "m_key m = (m_conversation_id m, m_user_id m)"

definition cs_key :: "subscription_row \<Rightarrow> ConversationId \<times> UserId" where
  "cs_key s = (cs_conversation_id s, cs_user_id s)"

definition e_dev :: "EnvelopeRecord \<Rightarrow> UserId \<times> DeviceId" where
  "e_dev e = (e_sender_user_id e, e_sender_device_id e)"

definition ds_dev :: "DeliveryStateRecord \<Rightarrow> UserId \<times> DeviceId" where
  "ds_dev s = (ds_target_user_id s, ds_target_device_id s)"

definition ds_key :: "DeliveryStateRecord \<Rightarrow> EnvelopeId \<times> UserId \<times> DeviceId" where
  "ds_key s = (ds_envelope_id s, ds_target_user_id s, ds_target_device_id s)"

definition sr_key :: "sync_row \<Rightarrow> UserId \<times> string \<times> string" where
  "sr_key r = (sr_user_id r, sr_collection r, sr_record_id r)"

lemmas key_defs = dev_key_def pk_dev_def s_dev_def m_key_def cs_key_def e_dev_def ds_dev_def
  ds_key_def sr_key_def

abbreviation user_keys :: "db \<Rightarrow> UserId list" where
  "user_keys d \<equiv> map u_user_id (users d)"

abbreviation device_keys :: "db \<Rightarrow> (UserId \<times> DeviceId) list" where
  "device_keys d \<equiv> map dev_key (devices d)"

abbreviation conversation_keys :: "db \<Rightarrow> ConversationId list" where
  "conversation_keys d \<equiv> map c_conversation_id (conversations d)"

abbreviation envelope_keys :: "db \<Rightarrow> EnvelopeId list" where
  "envelope_keys d \<equiv> map e_envelope_id (encrypted_envelopes d)"

section \<open>INSERT with the constraints of the schema\<close>

definition insert_user :: "UserRecord \<Rightarrow> db \<Rightarrow> db option" where
  "insert_user u d =
     (if u_user_id u \<in> set (user_keys d) \<or> u_username u \<in> set (map u_username (users d)) then None
      else Some (d\<lparr>users := users d @ [u]\<rparr>))"

definition insert_device :: "DeviceRecord \<Rightarrow> db \<Rightarrow> db option" where
  "insert_device v d =
     (if dev_key v \<in> set (device_keys d) \<or> d_user_id v \<notin> set (user_keys d) then None
      else Some (d\<lparr>devices := devices d @ [v]\<rparr>))"

definition insert_prekey :: "prekey_row \<Rightarrow> db \<Rightarrow> db option" where
  "insert_prekey p d =
     (if pk_prekey_id p \<in> set (map pk_prekey_id (one_time_prekeys d)) \<or>
         pk_dev p \<notin> set (device_keys d) then None
      else Some (d\<lparr>one_time_prekeys := one_time_prekeys d @ [p]\<rparr>))"

definition insert_session :: "SessionRecord \<Rightarrow> db \<Rightarrow> db option" where
  "insert_session s d =
     (if s_session_id s \<in> set (map s_session_id (sessions d)) \<or>
         s_access_token_hash s \<in> set (map s_access_token_hash (sessions d)) \<or>
         s_refresh_token_hash s \<in> set (map s_refresh_token_hash (sessions d)) \<or>
         s_user_id s \<notin> set (user_keys d) \<or> s_dev s \<notin> set (device_keys d) then None
      else Some (d\<lparr>sessions := sessions d @ [s]\<rparr>))"

definition insert_conversation :: "conversation_row \<Rightarrow> db \<Rightarrow> db option" where
  "insert_conversation c d =
     (if c_conversation_id c \<in> set (conversation_keys d) \<or> c_created_by c \<notin> set (user_keys d)
      then None else Some (d\<lparr>conversations := conversations d @ [c]\<rparr>))"

text \<open>
  \<open>INSERT ... ON CONFLICT(conversation_id, user_id) DO UPDATE\<close>: an existing row is updated,
  a new one has to satisfy the foreign keys.
\<close>

definition upsert_member :: "MemberRecord \<Rightarrow> (MemberRecord \<Rightarrow> MemberRecord) \<Rightarrow> db \<Rightarrow> db option" where
  "upsert_member m f d =
     (if m_key m \<in> set (map m_key (conversation_members d))
      then Some (d\<lparr>conversation_members :=
             sql_update (\<lambda>r. m_key r = m_key m) f (conversation_members d)\<rparr>)
      else if m_conversation_id m \<notin> set (conversation_keys d) \<or> m_user_id m \<notin> set (user_keys d)
      then None
      else Some (d\<lparr>conversation_members := conversation_members d @ [m]\<rparr>))"

definition upsert_subscription ::
    "subscription_row \<Rightarrow> (subscription_row \<Rightarrow> subscription_row) \<Rightarrow> db \<Rightarrow> db option" where
  "upsert_subscription m f d =
     (if cs_key m \<in> set (map cs_key (channel_subscriptions d))
      then Some (d\<lparr>channel_subscriptions :=
             sql_update (\<lambda>r. cs_key r = cs_key m) f (channel_subscriptions d)\<rparr>)
      else if cs_conversation_id m \<notin> set (conversation_keys d) \<or> cs_user_id m \<notin> set (user_keys d)
      then None
      else Some (d\<lparr>channel_subscriptions := channel_subscriptions d @ [m]\<rparr>))"

definition insert_envelope :: "EnvelopeRecord \<Rightarrow> db \<Rightarrow> db option" where
  "insert_envelope e d =
     (if e_envelope_id e \<in> set (envelope_keys d) \<or>
         e_conversation_id e \<notin> set (conversation_keys d) \<or> e_dev e \<notin> set (device_keys d)
      then None else Some (d\<lparr>encrypted_envelopes := encrypted_envelopes d @ [e]\<rparr>))"

definition insert_delivery :: "DeliveryStateRecord \<Rightarrow> db \<Rightarrow> db option" where
  "insert_delivery s d =
     (if ds_key s \<in> set (map ds_key (delivery_state d)) \<or>
         ds_envelope_id s \<notin> set (envelope_keys d) \<or> ds_dev s \<notin> set (device_keys d)
      then None else Some (d\<lparr>delivery_state := delivery_state d @ [s]\<rparr>))"

definition insert_attachment :: "attachment_row \<Rightarrow> db \<Rightarrow> db option" where
  "insert_attachment a d =
     (if a_attachment_id a \<in> set (map a_attachment_id (attachment_metadata d)) \<or>
         a_user_id a \<notin> set (user_keys d) \<or> a_conversation_id a \<notin> set (conversation_keys d)
      then None else Some (d\<lparr>attachment_metadata := attachment_metadata d @ [a]\<rparr>))"

text \<open>\<open>INTEGER PRIMARY KEY AUTOINCREMENT\<close>: the next id is above every id ever used.\<close>

definition insert_sync :: "sync_row \<Rightarrow> db \<Rightarrow> db option" where
  "insert_sync r d =
     (if sr_key r \<in> set (map sr_key (sync_records d)) \<or> sr_user_id r \<notin> set (user_keys d) then None
      else Some (d\<lparr>sync_records := sync_records d @ [r\<lparr>sr_id := sync_seq d + 1\<rparr>],
                   sync_seq := sync_seq d + 1\<rparr>))"

lemmas insert_defs = insert_user_def insert_device_def insert_prekey_def insert_session_def
  insert_conversation_def upsert_member_def upsert_subscription_def insert_envelope_def
  insert_delivery_def insert_attachment_def insert_sync_def

section \<open>DELETE on referenced tables\<close>

text \<open>
  A DELETE on a parent table fails when a row that remains in a child table still references
  one of the deleted rows.
\<close>

definition delete_envelopes :: "(EnvelopeRecord \<Rightarrow> bool) \<Rightarrow> db \<Rightarrow> db option" where
  "delete_envelopes P d =
     (let d' = d\<lparr>encrypted_envelopes := sql_delete P (encrypted_envelopes d)\<rparr>
      in if set (map ds_envelope_id (delivery_state d)) \<subseteq> set (envelope_keys d')
         then Some d' else None)"

definition delete_devices :: "(DeviceRecord \<Rightarrow> bool) \<Rightarrow> db \<Rightarrow> db option" where
  "delete_devices P d =
     (let d' = d\<lparr>devices := sql_delete P (devices d)\<rparr>; keys = set (device_keys d')
      in if set (map pk_dev (one_time_prekeys d)) \<subseteq> keys \<and> set (map s_dev (sessions d)) \<subseteq> keys \<and>
            set (map e_dev (encrypted_envelopes d)) \<subseteq> keys \<and>
            set (map ds_dev (delivery_state d)) \<subseteq> keys
         then Some d' else None)"

definition delete_users :: "(UserRecord \<Rightarrow> bool) \<Rightarrow> db \<Rightarrow> db option" where
  "delete_users P d =
     (let d' = d\<lparr>users := sql_delete P (users d)\<rparr>; keys = set (user_keys d')
      in if set (map d_user_id (devices d)) \<subseteq> keys \<and> set (map s_user_id (sessions d)) \<subseteq> keys \<and>
            set (map c_created_by (conversations d)) \<subseteq> keys \<and>
            set (map m_user_id (conversation_members d)) \<subseteq> keys \<and>
            set (map cs_user_id (channel_subscriptions d)) \<subseteq> keys \<and>
            set (map a_user_id (attachment_metadata d)) \<subseteq> keys \<and>
            set (map sr_user_id (sync_records d)) \<subseteq> keys
         then Some d' else None)"

section \<open>Well-formed databases\<close>

text \<open>The constraints of each table, over the keys of the tables it references.\<close>

definition users_ok :: "UserRecord list \<Rightarrow> bool" where
  "users_ok t \<longleftrightarrow> distinct (map u_user_id t) \<and> distinct (map (\<lambda>u. nocase (u_username u)) t)"

definition devices_ok :: "UserId list \<Rightarrow> DeviceRecord list \<Rightarrow> bool" where
  "devices_ok us t \<longleftrightarrow> distinct (map dev_key t) \<and> set (map d_user_id t) \<subseteq> set us"

definition prekeys_ok :: "(UserId \<times> DeviceId) list \<Rightarrow> prekey_row list \<Rightarrow> bool" where
  "prekeys_ok ds t \<longleftrightarrow> distinct (map pk_prekey_id t) \<and> set (map pk_dev t) \<subseteq> set ds"

definition sessions_ok ::
    "UserId list \<Rightarrow> (UserId \<times> DeviceId) list \<Rightarrow> SessionRecord list \<Rightarrow> bool" where
  "sessions_ok us ds t \<longleftrightarrow> distinct (map s_session_id t) \<and>
     distinct (map s_access_token_hash t) \<and> distinct (map s_refresh_token_hash t) \<and>
     set (map s_user_id t) \<subseteq> set us \<and> set (map s_dev t) \<subseteq> set ds"

definition conversations_ok :: "UserId list \<Rightarrow> conversation_row list \<Rightarrow> bool" where
  "conversations_ok us t \<longleftrightarrow> distinct (map c_conversation_id t) \<and> set (map c_created_by t) \<subseteq> set us"

definition members_ok :: "ConversationId list \<Rightarrow> UserId list \<Rightarrow> MemberRecord list \<Rightarrow> bool" where
  "members_ok cs us t \<longleftrightarrow> distinct (map m_key t) \<and>
     set (map m_conversation_id t) \<subseteq> set cs \<and> set (map m_user_id t) \<subseteq> set us"

definition subscriptions_ok ::
    "ConversationId list \<Rightarrow> UserId list \<Rightarrow> subscription_row list \<Rightarrow> bool" where
  "subscriptions_ok cs us t \<longleftrightarrow> distinct (map cs_key t) \<and>
     set (map cs_conversation_id t) \<subseteq> set cs \<and> set (map cs_user_id t) \<subseteq> set us"

definition envelopes_ok ::
    "ConversationId list \<Rightarrow> (UserId \<times> DeviceId) list \<Rightarrow> EnvelopeRecord list \<Rightarrow> bool" where
  "envelopes_ok cs ds t \<longleftrightarrow> distinct (map e_envelope_id t) \<and>
     set (map e_conversation_id t) \<subseteq> set cs \<and> set (map e_dev t) \<subseteq> set ds"

definition delivery_ok ::
    "EnvelopeId list \<Rightarrow> (UserId \<times> DeviceId) list \<Rightarrow> DeliveryStateRecord list \<Rightarrow> bool" where
  "delivery_ok es ds t \<longleftrightarrow> distinct (map ds_key t) \<and>
     set (map ds_envelope_id t) \<subseteq> set es \<and> set (map ds_dev t) \<subseteq> set ds"

definition attachments_ok ::
    "UserId list \<Rightarrow> ConversationId list \<Rightarrow> attachment_row list \<Rightarrow> bool" where
  "attachments_ok us cs t \<longleftrightarrow> distinct (map a_attachment_id t) \<and>
     set (map a_user_id t) \<subseteq> set us \<and> set (map a_conversation_id t) \<subseteq> set cs"

definition sync_ok :: "UserId list \<Rightarrow> int \<Rightarrow> sync_row list \<Rightarrow> bool" where
  "sync_ok us seq t \<longleftrightarrow> distinct (map sr_key t) \<and> set (map sr_user_id t) \<subseteq> set us \<and>
     sorted_wrt (<) (map sr_id t) \<and> (\<forall>i \<in> set (map sr_id t). 0 < i \<and> i \<le> seq) \<and> 0 \<le> seq"

definition db_ok :: "db \<Rightarrow> bool" where
  "db_ok d \<longleftrightarrow> users_ok (users d) \<and> devices_ok (user_keys d) (devices d) \<and>
     prekeys_ok (device_keys d) (one_time_prekeys d) \<and>
     sessions_ok (user_keys d) (device_keys d) (sessions d) \<and>
     conversations_ok (user_keys d) (conversations d) \<and>
     members_ok (conversation_keys d) (user_keys d) (conversation_members d) \<and>
     subscriptions_ok (conversation_keys d) (user_keys d) (channel_subscriptions d) \<and>
     envelopes_ok (conversation_keys d) (device_keys d) (encrypted_envelopes d) \<and>
     delivery_ok (envelope_keys d) (device_keys d) (delivery_state d) \<and>
     attachments_ok (user_keys d) (conversation_keys d) (attachment_metadata d) \<and>
     sync_ok (user_keys d) (sync_seq d) (sync_records d)"

lemmas table_ok_defs = users_ok_def devices_ok_def prekeys_ok_def sessions_ok_def
  conversations_ok_def members_ok_def subscriptions_ok_def envelopes_ok_def delivery_ok_def
  attachments_ok_def sync_ok_def

lemma CreateSchema_ok [simp]: "db_ok CreateSchema"
  by (simp add: db_ok_def table_ok_defs CreateSchema_def)

text \<open>More keys to reference keep a referencing table well-formed.\<close>

lemma table_ok_mono:
  "devices_ok us td \<Longrightarrow> set us \<subseteq> set us' \<Longrightarrow> devices_ok us' td"
  "prekeys_ok ds tp \<Longrightarrow> set ds \<subseteq> set ds' \<Longrightarrow> prekeys_ok ds' tp"
  "sessions_ok us ds ts \<Longrightarrow> set us \<subseteq> set us' \<Longrightarrow> set ds \<subseteq> set ds' \<Longrightarrow> sessions_ok us' ds' ts"
  "conversations_ok us tc \<Longrightarrow> set us \<subseteq> set us' \<Longrightarrow> conversations_ok us' tc"
  "members_ok cs us tm \<Longrightarrow> set cs \<subseteq> set cs' \<Longrightarrow> set us \<subseteq> set us' \<Longrightarrow> members_ok cs' us' tm"
  "subscriptions_ok cs us tu \<Longrightarrow> set cs \<subseteq> set cs' \<Longrightarrow> set us \<subseteq> set us' \<Longrightarrow> subscriptions_ok cs' us' tu"
  "envelopes_ok cs ds te \<Longrightarrow> set cs \<subseteq> set cs' \<Longrightarrow> set ds \<subseteq> set ds' \<Longrightarrow> envelopes_ok cs' ds' te"
  "delivery_ok es ds tv \<Longrightarrow> set es \<subseteq> set es' \<Longrightarrow> set ds \<subseteq> set ds' \<Longrightarrow> delivery_ok es' ds' tv"
  "attachments_ok us cs ta \<Longrightarrow> set us \<subseteq> set us' \<Longrightarrow> set cs \<subseteq> set cs' \<Longrightarrow> attachments_ok us' cs' ta"
  "sync_ok us q tr \<Longrightarrow> set us \<subseteq> set us' \<Longrightarrow> sync_ok us' q tr"
  by (simp_all only: table_ok_defs) (blast intro: subset_trans)+

text \<open>An UPDATE that leaves the key columns alone keeps every constraint.\<close>

lemma db_ok_users:
  assumes "db_ok d" and "map u_user_id t = map u_user_id (users d)"
    and "map u_username t = map u_username (users d)"
  shows "db_ok (d\<lparr>users := t\<rparr>)"
proof -
  have "map (\<lambda>u. nocase (u_username u)) t = map (\<lambda>u. nocase (u_username u)) (users d)"
    using arg_cong [OF assms(3), of "map nocase"] by (simp add: comp_def)
  with assms show ?thesis by (simp add: db_ok_def users_ok_def)
qed

lemma db_ok_devices:
  assumes "db_ok d" and "map dev_key t = map dev_key (devices d)"
  shows "db_ok (d\<lparr>devices := t\<rparr>)"
proof -
  have "map d_user_id t = map d_user_id (devices d)"
    using arg_cong [OF assms(2), of "map fst"] by (simp add: comp_def dev_key_def)
  with assms show ?thesis by (simp add: db_ok_def devices_ok_def del: set_map)
qed

lemma db_ok_prekeys:
  assumes "db_ok d" and "map pk_prekey_id t = map pk_prekey_id (one_time_prekeys d)"
    and "map pk_dev t = map pk_dev (one_time_prekeys d)"
  shows "db_ok (d\<lparr>one_time_prekeys := t\<rparr>)"
  using assms by (simp add: db_ok_def prekeys_ok_def del: set_map)

lemma db_ok_sessions:
  assumes "db_ok d" and "map s_session_id t = map s_session_id (sessions d)"
    and "map s_access_token_hash t = map s_access_token_hash (sessions d)"
    and "map s_refresh_token_hash t = map s_refresh_token_hash (sessions d)"
    and "map s_user_id t = map s_user_id (sessions d)" and "map s_dev t = map s_dev (sessions d)"
  shows "db_ok (d\<lparr>sessions := t\<rparr>)"
  using assms by (simp add: db_ok_def sessions_ok_def del: set_map)

lemma db_ok_conversations:
  assumes "db_ok d" and "map c_conversation_id t = map c_conversation_id (conversations d)"
    and "map c_created_by t = map c_created_by (conversations d)"
  shows "db_ok (d\<lparr>conversations := t\<rparr>)"
  using assms by (simp add: db_ok_def conversations_ok_def del: set_map)

lemma db_ok_members:
  assumes "db_ok d" and "map m_key t = map m_key (conversation_members d)"
  shows "db_ok (d\<lparr>conversation_members := t\<rparr>)"
proof -
  have "map m_conversation_id t = map m_conversation_id (conversation_members d)"
    "map m_user_id t = map m_user_id (conversation_members d)"
    using arg_cong [OF assms(2), of "map fst"] arg_cong [OF assms(2), of "map snd"]
    by (simp_all add: comp_def m_key_def)
  with assms show ?thesis by (simp add: db_ok_def members_ok_def del: set_map)
qed

lemma db_ok_subscriptions:
  assumes "db_ok d" and "map cs_key t = map cs_key (channel_subscriptions d)"
  shows "db_ok (d\<lparr>channel_subscriptions := t\<rparr>)"
proof -
  have "map cs_conversation_id t = map cs_conversation_id (channel_subscriptions d)"
    "map cs_user_id t = map cs_user_id (channel_subscriptions d)"
    using arg_cong [OF assms(2), of "map fst"] arg_cong [OF assms(2), of "map snd"]
    by (simp_all add: comp_def cs_key_def)
  with assms show ?thesis by (simp add: db_ok_def subscriptions_ok_def del: set_map)
qed

lemma db_ok_delivery:
  assumes "db_ok d" and "map ds_key t = map ds_key (delivery_state d)"
  shows "db_ok (d\<lparr>delivery_state := t\<rparr>)"
proof -
  have "map ds_envelope_id t = map ds_envelope_id (delivery_state d)"
    "map ds_dev t = map ds_dev (delivery_state d)"
    using arg_cong [OF assms(2), of "map fst"] arg_cong [OF assms(2), of "map snd"]
    by (simp_all add: comp_def ds_key_def flip: ds_dev_def)
  with assms show ?thesis by (simp add: db_ok_def delivery_ok_def del: set_map)
qed

lemma db_ok_attachments:
  assumes "db_ok d" and "map a_attachment_id t = map a_attachment_id (attachment_metadata d)"
    and "map a_user_id t = map a_user_id (attachment_metadata d)"
    and "map a_conversation_id t = map a_conversation_id (attachment_metadata d)"
  shows "db_ok (d\<lparr>attachment_metadata := t\<rparr>)"
  using assms by (simp add: db_ok_def attachments_ok_def del: set_map)

lemma db_ok_sync:
  assumes "db_ok d" and "map sr_key t = map sr_key (sync_records d)"
    and "map sr_id t = map sr_id (sync_records d)"
  shows "db_ok (d\<lparr>sync_records := t\<rparr>)"
proof -
  have "map sr_user_id t = map sr_user_id (sync_records d)"
    using arg_cong [OF assms(2), of "map fst"] by (simp add: comp_def sr_key_def)
  with assms show ?thesis by (simp add: db_ok_def sync_ok_def del: set_map)
qed

text \<open>A DELETE on a table that no other table references keeps every constraint.\<close>

lemma map_sql_delete_subset: "set (map k t) \<subseteq> A \<Longrightarrow> set (map k (sql_delete P t)) \<subseteq> A"
  by (auto simp: sql_delete_def)

lemma table_ok_delete:
  "users_ok tu \<Longrightarrow> users_ok (sql_delete Pu tu)"
  "devices_ok us td \<Longrightarrow> devices_ok us (sql_delete Pd td)"
  "prekeys_ok ds tp \<Longrightarrow> prekeys_ok ds (sql_delete Pp tp)"
  "sessions_ok us ds ts \<Longrightarrow> sessions_ok us ds (sql_delete Ps ts)"
  "members_ok cs us tm \<Longrightarrow> members_ok cs us (sql_delete Pm tm)"
  "subscriptions_ok cs us tc \<Longrightarrow> subscriptions_ok cs us (sql_delete Pc tc)"
  "envelopes_ok cs ds te \<Longrightarrow> envelopes_ok cs ds (sql_delete Pe te)"
  "delivery_ok es ds tv \<Longrightarrow> delivery_ok es ds (sql_delete Pv tv)"
  "attachments_ok us cs ta \<Longrightarrow> attachments_ok us cs (sql_delete Pa ta)"
  by (simp_all add: table_ok_defs distinct_sql_delete map_sql_delete_subset del: set_map)

lemma db_ok_delete:
  assumes "db_ok d"
  shows "db_ok (d\<lparr>one_time_prekeys := sql_delete Pp (one_time_prekeys d)\<rparr>)"
    "db_ok (d\<lparr>sessions := sql_delete Ps (sessions d)\<rparr>)"
    "db_ok (d\<lparr>conversation_members := sql_delete Pm (conversation_members d)\<rparr>)"
    "db_ok (d\<lparr>channel_subscriptions := sql_delete Pc (channel_subscriptions d)\<rparr>)"
    "db_ok (d\<lparr>delivery_state := sql_delete Pd (delivery_state d)\<rparr>)"
    "db_ok (d\<lparr>attachment_metadata := sql_delete Pa (attachment_metadata d)\<rparr>)"
  using assms by (simp_all add: db_ok_def table_ok_delete)

lemma delete_envelopes_ok:
  "delete_envelopes P d = Some d' \<Longrightarrow> db_ok d \<Longrightarrow> db_ok d'"
  by (clarsimp simp: delete_envelopes_def Let_def db_ok_def table_ok_delete delivery_ok_def
      split: if_splits)

lemma delete_devices_ok:
  "delete_devices P d = Some d' \<Longrightarrow> db_ok d \<Longrightarrow> db_ok d'"
  by (clarsimp simp: delete_devices_def Let_def db_ok_def table_ok_delete delivery_ok_def
      sessions_ok_def prekeys_ok_def envelopes_ok_def split: if_splits)

lemma delete_users_ok:
  "delete_users P d = Some d' \<Longrightarrow> db_ok d \<Longrightarrow> db_ok d'"
  by (clarsimp simp: delete_users_def Let_def db_ok_def table_ok_delete devices_ok_def
      sessions_ok_def conversations_ok_def members_ok_def subscriptions_ok_def
      attachments_ok_def sync_ok_def split: if_splits)

text \<open>A successful INSERT keeps every constraint.\<close>

lemma insert_user_ok:
  assumes "insert_user u d = Some d'" and "db_ok d"
    and "nocase (u_username u) \<notin> set (map (\<lambda>u. nocase (u_username u)) (users d))"
  shows "db_ok d'"
proof -
  have d': "d' = d\<lparr>users := users d @ [u]\<rparr>" and "u_user_id u \<notin> set (user_keys d)"
    using assms(1) by (auto simp: insert_user_def split: if_splits)
  with assms(2,3) have "users_ok (users d @ [u])" by (simp add: db_ok_def users_ok_def)
  moreover have "set (user_keys d) \<subseteq> set (user_keys d')" by (auto simp: d')
  ultimately show ?thesis
    using assms(2) unfolding d' db_ok_def by (auto intro: table_ok_mono simp del: set_map)
qed

lemma insert_device_ok:
  assumes "insert_device v d = Some d'" and "db_ok d"
  shows "db_ok d'"
proof -
  have d': "d' = d\<lparr>devices := devices d @ [v]\<rparr>" and "dev_key v \<notin> set (device_keys d)"
    "d_user_id v \<in> set (user_keys d)"
    using assms(1) by (auto simp: insert_device_def split: if_splits)
  with assms(2) have "devices_ok (user_keys d) (devices d @ [v])"
    by (simp add: db_ok_def devices_ok_def)
  moreover have "set (device_keys d) \<subseteq> set (device_keys d')" by (auto simp: d')
  ultimately show ?thesis
    using assms(2) unfolding d' db_ok_def by (auto intro: table_ok_mono simp del: set_map)
qed

lemma insert_conversation_ok:
  assumes "insert_conversation c d = Some d'" and "db_ok d"
  shows "db_ok d'"
proof -
  have d': "d' = d\<lparr>conversations := conversations d @ [c]\<rparr>"
    and "c_conversation_id c \<notin> set (conversation_keys d)" "c_created_by c \<in> set (user_keys d)"
    using assms(1) by (auto simp: insert_conversation_def split: if_splits)
  with assms(2) have "conversations_ok (user_keys d) (conversations d @ [c])"
    by (simp add: db_ok_def conversations_ok_def)
  moreover have "set (conversation_keys d) \<subseteq> set (conversation_keys d')" by (auto simp: d')
  ultimately show ?thesis
    using assms(2) unfolding d' db_ok_def by (auto intro: table_ok_mono simp del: set_map)
qed

lemma insert_envelope_ok:
  assumes "insert_envelope e d = Some d'" and "db_ok d"
  shows "db_ok d'"
proof -
  have d': "d' = d\<lparr>encrypted_envelopes := encrypted_envelopes d @ [e]\<rparr>"
    and "e_envelope_id e \<notin> set (envelope_keys d)"
    "e_conversation_id e \<in> set (conversation_keys d)" "e_dev e \<in> set (device_keys d)"
    using assms(1) by (auto simp: insert_envelope_def split: if_splits)
  with assms(2) have
    "envelopes_ok (conversation_keys d) (device_keys d) (encrypted_envelopes d @ [e])"
    by (simp add: db_ok_def envelopes_ok_def)
  moreover have "set (envelope_keys d) \<subseteq> set (envelope_keys d')" by (auto simp: d')
  ultimately show ?thesis
    using assms(2) unfolding d' db_ok_def by (auto intro: table_ok_mono simp del: set_map)
qed

lemma insert_prekey_ok: "insert_prekey p d = Some d' \<Longrightarrow> db_ok d \<Longrightarrow> db_ok d'"
  by (clarsimp simp: insert_prekey_def db_ok_def prekeys_ok_def split: if_splits)

lemma insert_session_ok: "insert_session s d = Some d' \<Longrightarrow> db_ok d \<Longrightarrow> db_ok d'"
  by (clarsimp simp: insert_session_def db_ok_def sessions_ok_def split: if_splits)

lemma insert_delivery_ok: "insert_delivery s d = Some d' \<Longrightarrow> db_ok d \<Longrightarrow> db_ok d'"
  by (clarsimp simp: insert_delivery_def db_ok_def delivery_ok_def split: if_splits)

lemma insert_attachment_ok:
  "insert_attachment a d = Some d' \<Longrightarrow> db_ok d \<Longrightarrow> db_ok d'"
  by (clarsimp simp: insert_attachment_def db_ok_def attachments_ok_def split: if_splits)

lemma insert_sync_ok:
  assumes "insert_sync r d = Some d'" and "db_ok d"
  shows "db_ok d'"
proof -
  have d': "d' = d\<lparr>sync_records := sync_records d @ [r\<lparr>sr_id := sync_seq d + 1\<rparr>],
      sync_seq := sync_seq d + 1\<rparr>"
    and "sr_key r \<notin> set (map sr_key (sync_records d))" "sr_user_id r \<in> set (user_keys d)"
    using assms(1) by (auto simp: insert_sync_def split: if_splits)
  with assms(2) have "sync_ok (user_keys d) (sync_seq d + 1)
      (sync_records d @ [r\<lparr>sr_id := sync_seq d + 1\<rparr>])"
    by (fastforce simp: db_ok_def sync_ok_def sorted_wrt_append sr_key_def)
  then show ?thesis using assms(2) by (simp add: d' db_ok_def)
qed

lemma upsert_member_ok:
  assumes "upsert_member m f d = Some d'" and "db_ok d" and "\<And>r. m_key (f r) = m_key r"
  shows "db_ok d'"
proof (cases "m_key m \<in> set (map m_key (conversation_members d))")
  case True
  then show ?thesis
    using assms by (auto simp: upsert_member_def sql_simps intro!: db_ok_members)
next
  case False
  then show ?thesis using assms(1,2)
    by (clarsimp simp: upsert_member_def db_ok_def members_ok_def split: if_splits)
qed

lemma upsert_subscription_ok:
  assumes "upsert_subscription m f d = Some d'" and "db_ok d" and "\<And>r. cs_key (f r) = cs_key r"
  shows "db_ok d'"
proof (cases "cs_key m \<in> set (map cs_key (channel_subscriptions d))")
  case True
  then show ?thesis
    using assms by (auto simp: upsert_subscription_def sql_simps intro!: db_ok_subscriptions)
next
  case False
  then show ?thesis using assms(1,2)
    by (clarsimp simp: upsert_subscription_def db_ok_def subscriptions_ok_def split: if_splits)
qed

text \<open>Sequences of operations.\<close>

lemma db_ok_and_then:
  assumes "db_ok (snd m)" and "\<And>x. fst m = Inr x \<Longrightarrow> db_ok (snd m) \<Longrightarrow> db_ok (snd (f x (snd m)))"
  shows "db_ok (snd (and_then m f))"
  by (rule and_then_inv [where I = db_ok]) (use assms in \<open>blast+\<close>)

text \<open>The foreign keys, row by row.\<close>

lemma db_ok_fks:
  assumes "db_ok d"
  shows "dv \<in> set (devices d) \<Longrightarrow> d_user_id dv \<in> set (user_keys d)"
    and "p \<in> set (one_time_prekeys d) \<Longrightarrow> pk_dev p \<in> set (device_keys d)"
    and "s \<in> set (sessions d) \<Longrightarrow> s_dev s \<in> set (device_keys d)"
    and "s \<in> set (sessions d) \<Longrightarrow> s_user_id s \<in> set (user_keys d)"
    and "c \<in> set (conversations d) \<Longrightarrow> c_created_by c \<in> set (user_keys d)"
    and "m \<in> set (conversation_members d) \<Longrightarrow> m_conversation_id m \<in> set (conversation_keys d)"
    and "m \<in> set (conversation_members d) \<Longrightarrow> m_user_id m \<in> set (user_keys d)"
    and "u \<in> set (channel_subscriptions d) \<Longrightarrow> cs_conversation_id u \<in> set (conversation_keys d)"
    and "u \<in> set (channel_subscriptions d) \<Longrightarrow> cs_user_id u \<in> set (user_keys d)"
    and "e \<in> set (encrypted_envelopes d) \<Longrightarrow> e_conversation_id e \<in> set (conversation_keys d)"
    and "e \<in> set (encrypted_envelopes d) \<Longrightarrow> e_dev e \<in> set (device_keys d)"
    and "ds \<in> set (delivery_state d) \<Longrightarrow> ds_envelope_id ds \<in> set (envelope_keys d)"
    and "ds \<in> set (delivery_state d) \<Longrightarrow> ds_dev ds \<in> set (device_keys d)"
  using assms unfolding db_ok_def table_ok_defs by (simp_all add: image_subset_iff)

end
