(* ===== verification/User_Repository.thy ===== *)
theory User_Repository
  imports Vox_Database
begin

text \<open>
  \<open>UserRepository\<close> (\<open>lib/vox_store/user_repository.cpp\<close>). An operation returns its
  result and the database after it. A lookup by primary key has at most one row, so it reads
  the table directly; every other SELECT goes through the scan order of SQLite.
\<close>

section \<open>Operations\<close>

record UserPublicProfile =
  up_user_id :: UserId
  up_username :: string

record SyncKeyBundleRecord =
  sb_sync_key_version :: int
  sb_wrapped_sync_key :: string
  sb_sync_wrap_salt :: string
  sb_sync_wrap_params :: string

definition kMaxUserIdsInBatch :: nat where
  "kMaxUserIdsInBatch = 100"

definition same_username :: "string \<Rightarrow> UserRecord \<Rightarrow> bool" where
  "same_username username u \<longleftrightarrow> nocase (u_username u) = nocase username"

definition CreateUser :: "UserRecord \<Rightarrow> db \<Rightarrow> VoidResult \<times> db" where
  "CreateUser user d =
     (if filter (same_username (u_username user)) (users d) \<noteq> []
      then (unexpected kAlreadyExists ''Username already taken'', d)
      else case insert_user (user\<lparr>u_disabled_at := None\<rparr>) d of
             None \<Rightarrow> (unexpected kAlreadyExists ''Username already taken'', d)
           | Some d' \<Rightarrow> (Inr (), d'))"

definition FindByUsername :: "sqlite \<Rightarrow> string \<Rightarrow> db \<Rightarrow> UserRecord option" where
  "FindByUsername sq username d =
     first_row (scan_users sq (filter (same_username username) (users d)))"

definition User_FindById :: "UserId \<Rightarrow> db \<Rightarrow> UserRecord option" where
  "User_FindById user_id d = first_row (filter (\<lambda>u. u_user_id u = user_id) (users d))"

text \<open>The loop that drops repeated ids and stops at the size of a batch.\<close>

fun ordered_ids :: "UserId list \<Rightarrow> UserId list \<Rightarrow> UserId list" where
  "ordered_ids ordered [] = ordered"
| "ordered_ids ordered (i # ids) =
     (let ordered' = (if i \<in> set ordered then ordered else ordered @ [i])
      in if length ordered' \<ge> kMaxUserIdsInBatch then ordered' else ordered_ids ordered' ids)"

definition FindPublicProfilesByIds :: "sqlite \<Rightarrow> UserId list \<Rightarrow> db \<Rightarrow> UserPublicProfile list" where
  "FindPublicProfilesByIds sq ids d =
     (let ordered = ordered_ids [] ids
      in if ordered = [] then []
         else let rows = scan_users sq
                    (filter (\<lambda>u. u_user_id u \<in> set ordered \<and> u_disabled_at u = None) (users d));
                  by_id = fold (\<lambda>u m. m(u_user_id u \<mapsto> u_username u)) rows Map.empty
              in List.map_filter
                   (\<lambda>i. map_option (\<lambda>n. \<lparr>up_user_id = i, up_username = n\<rparr>) (by_id i)) ordered)"

definition DisableUser :: "UserId \<Rightarrow> Timestamp \<Rightarrow> db \<Rightarrow> VoidResult \<times> db" where
  "DisableUser user_id now d =
     (let P = (\<lambda>u. u_user_id u = user_id);
          d' = d\<lparr>users := sql_update P (\<lambda>u. u\<lparr>u_disabled_at := Some now\<rparr>) (users d)\<rparr>
      in if sql_count P (users d) = 0 then (unexpected kNotFound ''User not found'', d')
         else (Inr (), d'))"

definition ListUsers :: "sqlite \<Rightarrow> nat \<Rightarrow> nat \<Rightarrow> db \<Rightarrow> UserRecord list" where
  "ListUsers sq limit offset d =
     sql_limit (size_to_i64 limit)
       (drop (nat (size_to_i64 offset))
         (sql_order_by (\<lambda>u. - u_created_at u) (scan_users sq (users d))))"

definition SearchByUsernamePrefix :: "sqlite \<Rightarrow> string \<Rightarrow> nat \<Rightarrow> db \<Rightarrow> UserRecord list" where
  "SearchByUsernamePrefix sq query limit d =
     (if query = [] then []
      else sql_limit (size_to_i64 limit)
             (sql_order_by u_username
               (scan_users sq
                 (filter (\<lambda>u. like sq (u_username u) (query @ ''%'') \<and> u_disabled_at u = None)
                   (users d)))))"

definition GetSyncKeyBundle :: "UserId \<Rightarrow> db \<Rightarrow> SyncKeyBundleRecord option" where
  "GetSyncKeyBundle user_id d =
     (case User_FindById user_id d of
        None \<Rightarrow> None
      | Some u \<Rightarrow> Some \<lparr>sb_sync_key_version = u_sync_key_version u,
                       sb_wrapped_sync_key = u_wrapped_sync_key u,
                       sb_sync_wrap_salt = u_sync_wrap_salt u,
                       sb_sync_wrap_params = u_sync_wrap_params u\<rparr>)"

definition SetSyncKeyBundle :: "UserId \<Rightarrow> SyncKeyBundleRecord \<Rightarrow> db \<Rightarrow> VoidResult \<times> db" where
  "SetSyncKeyBundle user_id bundle d =
     (let P = (\<lambda>u. u_user_id u = user_id);
          d' = d\<lparr>users := sql_update P
                 (\<lambda>u. u\<lparr>u_sync_key_version := sb_sync_key_version bundle,
                        u_wrapped_sync_key := sb_wrapped_sync_key bundle,
                        u_sync_wrap_salt := sb_sync_wrap_salt bundle,
                        u_sync_wrap_params := sb_sync_wrap_params bundle\<rparr>) (users d)\<rparr>
      in if sql_count P (users d) = 0 then (unexpected kNotFound ''User not found'', d')
         else (Inr (), d'))"

definition UpdatePasswordCredentials ::
    "UserId \<Rightarrow> string \<Rightarrow> string \<Rightarrow> db \<Rightarrow> VoidResult \<times> db" where
  "UpdatePasswordCredentials user_id password_salt password_verifier d =
     (let P = (\<lambda>u. u_user_id u = user_id);
          d' = d\<lparr>users := sql_update P
                 (\<lambda>u. u\<lparr>u_password_salt := password_salt,
                        u_password_verifier := password_verifier\<rparr>) (users d)\<rparr>
      in if sql_count P (users d) = 0 then (unexpected kNotFound ''User not found'', d')
         else (Inr (), d'))"

section \<open>Constraints kept\<close>

lemma CreateUser_keeps [keeps]: "db_ok d \<Longrightarrow> db_ok (snd (CreateUser user d))"
proof (cases "filter (same_username (u_username user)) (users d)")
  case Nil
  assume ok: "db_ok d"
  have "nocase (u_username user) \<notin> set (map (\<lambda>u. nocase (u_username u)) (users d))"
    using Nil by (fastforce simp: same_username_def filter_empty_conv)
  then show ?thesis
    using Nil ok by (auto simp: CreateUser_def intro: insert_user_ok split: option.splits)
qed (simp add: CreateUser_def)

lemma DisableUser_keeps [keeps]: "db_ok d \<Longrightarrow> db_ok (snd (DisableUser user_id now d))"
  unfolding DisableUser_def Let_def by (auto simp: sql_simps intro!: db_ok_users)

lemma SetSyncKeyBundle_keeps [keeps]: "db_ok d \<Longrightarrow> db_ok (snd (SetSyncKeyBundle user_id b d))"
  unfolding SetSyncKeyBundle_def Let_def by (auto simp: sql_simps intro!: db_ok_users)

lemma UpdatePasswordCredentials_keeps [keeps]:
  "db_ok d \<Longrightarrow> db_ok (snd (UpdatePasswordCredentials user_id s v d))"
  unfolding UpdatePasswordCredentials_def Let_def by (auto simp: sql_simps intro!: db_ok_users)

section \<open>Lookups\<close>

lemma users_distinct: "db_ok d \<Longrightarrow> distinct (map u_user_id (users d))"
  by (simp add: db_ok_def users_ok_def)

lemma User_FindById_Some: "User_FindById i d = Some u \<Longrightarrow> u \<in> set (users d) \<and> u_user_id u = i"
  unfolding User_FindById_def by (drule first_row_filter) auto

lemma User_FindById_iff:
  "db_ok d \<Longrightarrow> User_FindById i d = Some u \<longleftrightarrow> u \<in> set (users d) \<and> u_user_id u = i"
  by (metis User_FindById_Some User_FindById_def first_row_unique users_distinct)

lemma User_FindById_None: "User_FindById i d = None \<longleftrightarrow> i \<notin> set (user_keys d)"
  by (auto simp: User_FindById_def sql_simps filter_empty_conv)

lemma User_FindById_update:
  assumes "\<And>u. u_user_id (f u) = u_user_id u"
  shows "User_FindById i (d\<lparr>users := sql_update (\<lambda>u. u_user_id u = j) f (users d)\<rparr>) =
    map_option (\<lambda>u. if i = j then f u else u) (User_FindById i d)"
proof -
  have "first_row (filter (\<lambda>u. u_user_id u = i) (sql_update (\<lambda>u. u_user_id u = j) f t)) =
      map_option (\<lambda>u. if i = j then f u else u) (first_row (filter (\<lambda>u. u_user_id u = i) t))" for t
    by (induction t) (auto simp: sql_update_def assms)
  then show ?thesis by (simp add: User_FindById_def)
qed

lemma CreateUser_cases:
  assumes "db_ok d" and "CreateUser u d = (r, d')"
  obtains (taken) "r = unexpected kAlreadyExists ''Username already taken''" "d' = d"
      "(\<exists>v \<in> set (users d). same_username (u_username u) v) \<or> u_user_id u \<in> set (user_keys d)"
    | (created) "r = Inr ()" "d' = d\<lparr>users := users d @ [u\<lparr>u_disabled_at := None\<rparr>]\<rparr>"
      "\<forall>v \<in> set (users d). \<not> same_username (u_username u) v" "u_user_id u \<notin> set (user_keys d)"
proof (cases "\<exists>v \<in> set (users d). same_username (u_username u) v")
  case True
  then show ?thesis using assms by (intro taken) (auto simp: CreateUser_def filter_empty_conv)
next
  case False
  then have fresh: "filter (same_username (u_username u)) (users d) = []"
      "u_username u \<notin> set (map u_username (users d))"
    by (auto simp: filter_empty_conv same_username_def)
  show ?thesis
  proof (cases "u_user_id u \<in> set (user_keys d)")
    case True
    then show ?thesis
      using assms fresh by (intro taken) (auto simp: CreateUser_def insert_user_def)
  next
    case id: False
    then show ?thesis
      using assms fresh False by (intro created) (auto simp: CreateUser_def insert_user_def)
  qed
qed

lemma FindByUsername_iff:
  assumes "db_ok d" and "sqlite_ok sq"
  shows "FindByUsername sq n d = Some u \<longleftrightarrow> u \<in> set (users d) \<and> same_username n u"
proof
  assume "FindByUsername sq n d = Some u"
  then have "u \<in> set (scan_users sq (filter (same_username n) (users d)))"
    by (simp add: FindByUsername_def first_row_Some)
  then show "u \<in> set (users d) \<and> same_username n u" by (simp add: set_scan [OF assms(2)])
next
  assume u: "u \<in> set (users d) \<and> same_username n u"
  have "distinct (map (\<lambda>u. nocase (u_username u)) (users d))"
    using assms(1) by (simp add: db_ok_def users_ok_def)
  then have "filter (same_username n) (users d) = [u]"
    using u by (intro filter_unique [where k = "\<lambda>u. nocase (u_username u)"])
      (auto simp: same_username_def)
  then show "FindByUsername sq n d = Some u"
    by (simp add: FindByUsername_def scan_single [OF assms(2)])
qed

lemma FindByUsername_None:
  "sqlite_ok sq \<Longrightarrow> FindByUsername sq n d = None \<longleftrightarrow> (\<forall>u \<in> set (users d). \<not> same_username n u)"
  by (simp add: FindByUsername_def sql_simps scan_nil filter_empty_conv)

section \<open>Batches of public profiles\<close>

text \<open>The list of ids without repetitions, each at its first position.\<close>

fun first_occurrences :: "'a list \<Rightarrow> 'a list" where
  "first_occurrences [] = []"
| "first_occurrences (x # xs) = x # filter (\<lambda>y. y \<noteq> x) (first_occurrences xs)"

lemma set_first_occurrences [simp]: "set (first_occurrences xs) = set xs"
  by (induction xs) auto

lemma distinct_first_occurrences [simp]: "distinct (first_occurrences xs)"
  by (induction xs) auto

lemma ordered_ids_acc:
  assumes "length acc < kMaxUserIdsInBatch"
  shows "ordered_ids acc ids =
    take kMaxUserIdsInBatch (acc @ filter (\<lambda>y. y \<notin> set acc) (first_occurrences ids))"
  using assms
proof (induction ids arbitrary: acc)
  case Nil
  then show ?case by simp
next
  case (Cons i ids)
  show ?case
  proof (cases "i \<in> set acc")
    case True
    then have "filter (\<lambda>y. y \<notin> set acc) (filter (\<lambda>y. y \<noteq> i) (first_occurrences ids)) =
        filter (\<lambda>y. y \<notin> set acc) (first_occurrences ids)"
      by (auto intro: filter_cong)
    with True Cons show ?thesis by auto
  next
    case False
    have f: "filter (\<lambda>y. y \<notin> set (acc @ [i])) xs =
        filter (\<lambda>y. y \<notin> set acc) (filter (\<lambda>y. y \<noteq> i) xs)" for xs
      by (auto intro: filter_cong)
    show ?thesis
    proof (cases "Suc (length acc) = kMaxUserIdsInBatch")
      case True
      then have "kMaxUserIdsInBatch - length acc = Suc 0" by simp
      with False True show ?thesis by (simp add: Let_def)
    next
      case neq: False
      with Cons.prems have "length (acc @ [i]) < kMaxUserIdsInBatch" by simp
      from Cons.IH [OF this] False neq Cons.prems f show ?thesis by (simp add: Let_def)
    qed
  qed
qed

lemma ordered_ids_eq: "ordered_ids [] ids = take kMaxUserIdsInBatch (first_occurrences ids)"
  using ordered_ids_acc [of "[]" ids] by (simp add: kMaxUserIdsInBatch_def)

lemma fold_by_id:
  assumes "distinct (map u_user_id rows)"
  shows "fold (\<lambda>u m. m(u_user_id u \<mapsto> u_username u)) rows m i =
    (case first_row (filter (\<lambda>u. u_user_id u = i) rows) of
       Some u \<Rightarrow> Some (u_username u) | None \<Rightarrow> m i)"
  using assms
proof (induction rows arbitrary: m)
  case (Cons u rows)
  have none: "i = u_user_id u \<Longrightarrow> filter (\<lambda>v. u_user_id v = i) rows = []"
    using Cons.prems by (simp add: filter_empty_conv image_iff) metis
  show ?case using Cons none by (auto split: option.splits)
qed simp

definition public_profile :: "db \<Rightarrow> UserId \<Rightarrow> UserPublicProfile option" where
  "public_profile d i =
     (case User_FindById i d of
        Some u \<Rightarrow> if u_disabled_at u = None
                  then Some \<lparr>up_user_id = i, up_username = u_username u\<rparr> else None
      | None \<Rightarrow> None)"

lemma by_id_profile:
  assumes ok: "db_ok d" and sq: "sqlite_ok sq" and i: "i \<in> A"
  defines "rows \<equiv> scan_users sq (filter (\<lambda>u. u_user_id u \<in> A \<and> u_disabled_at u = None) (users d))"
  shows "map_option (\<lambda>n. \<lparr>up_user_id = i, up_username = n\<rparr>)
      (fold (\<lambda>u m. m(u_user_id u \<mapsto> u_username u)) rows Map.empty i) = public_profile d i"
proof -
  have set: "set rows = {u \<in> set (users d). u_user_id u \<in> A \<and> u_disabled_at u = None}"
    by (auto simp: rows_def set_scan [OF sq])
  have "mset rows = mset (filter (\<lambda>u. u_user_id u \<in> A \<and> u_disabled_at u = None) (users d))"
    using sq by (simp add: rows_def sqlite_ok_def)
  then have dist: "distinct (map u_user_id rows)"
    using users_distinct [OF ok] distinct_map_mset distinct_map_filter by metis
  note by_id = fold_by_id [OF dist, of Map.empty i]
  show ?thesis
  proof (cases "\<exists>u \<in> set rows. u_user_id u = i")
    case True
    then obtain u where u: "u \<in> set rows" "u_user_id u = i" by blast
    then have "User_FindById i d = Some u" "u_disabled_at u = None"
      using User_FindById_iff [OF ok] set by auto
    with by_id first_row_unique [OF dist u] show ?thesis by (simp add: public_profile_def)
  next
    case False
    then have "filter (\<lambda>u. u_user_id u = i) rows = []" by (auto simp: filter_empty_conv)
    moreover have "public_profile d i = None"
      using False set i User_FindById_Some [of i d]
      by (auto simp: public_profile_def split: option.splits)
    ultimately show ?thesis using by_id by simp
  qed
qed

text \<open>
  The batch lookup of public profiles returns, for the first 100 distinct ids of the
  request and in the order of the request, the profile of every id that is an enabled user,
  whatever order SQLite visits the rows in.
\<close>

theorem FindPublicProfilesByIds_correct:
  assumes "db_ok d" and "sqlite_ok sq"
  shows "FindPublicProfilesByIds sq ids d =
    List.map_filter (public_profile d) (take kMaxUserIdsInBatch (first_occurrences ids))"
proof -
  define ordered where "ordered = take kMaxUserIdsInBatch (first_occurrences ids)"
  have "List.map_filter (\<lambda>i. map_option (\<lambda>n. \<lparr>up_user_id = i, up_username = n\<rparr>)
        (fold (\<lambda>u m. m(u_user_id u \<mapsto> u_username u))
          (scan_users sq (filter (\<lambda>u. u_user_id u \<in> set ordered \<and> u_disabled_at u = None) (users d)))
          Map.empty i)) ordered = List.map_filter (public_profile d) ordered"
    using by_id_profile [OF assms, of _ "set ordered"] unfolding List.map_filter_def
    by (auto cong: map_cong filter_cong)
  then show ?thesis
    by (simp add: FindPublicProfilesByIds_def ordered_ids_eq Let_def flip: ordered_def)
qed

definition user_alice :: UserRecord where
  "user_alice = \<lparr>u_user_id = ''u1'', u_username = ''Alice'', u_password_salt = ''s'',
     u_password_verifier = ''v'', u_created_at = 10, u_disabled_at = None,
     u_sync_key_version = 0, u_wrapped_sync_key = '''', u_sync_wrap_salt = '''',
     u_sync_wrap_params = ''''\<rparr>"

definition user_bob :: UserRecord where
  "user_bob = user_alice\<lparr>u_user_id := ''u2'', u_username := ''bob''\<rparr>"

definition two_users :: db where
  "two_users = CreateSchema\<lparr>users := [user_alice, user_bob]\<rparr>"

lemma two_users_ok [simp]: "db_ok two_users"
  by code_simp

theorem FindPublicProfilesByIds_correct_witness:
  "FindPublicProfilesByIds rowid_order [''u2'', ''x'', ''u2'', ''u1''] two_users =
     [\<lparr>up_user_id = ''u2'', up_username = ''bob''\<rparr>, \<lparr>up_user_id = ''u1'', up_username = ''Alice''\<rparr>]"
  unfolding FindPublicProfilesByIds_correct [OF two_users_ok sqlite_ok_rowid_order]
  by code_simp

text \<open>
  Usernames are unique up to ASCII case, and an account is found under any capitalisation:
  a successful \<open>CreateUser\<close> makes \<open>FindByUsername\<close> return exactly that account for every
  spelling of its name, and a second \<open>CreateUser\<close> with any spelling of the name fails with
  \<open>kAlreadyExists\<close> and leaves the database alone.
\<close>

theorem CreateUser_nocase:
  assumes "db_ok d" and "sqlite_ok sq" and "CreateUser u d = (Inr (), d')"
    and "nocase name = nocase (u_username u)"
  shows "FindByUsername sq name d' = Some (u\<lparr>u_disabled_at := None\<rparr>) \<and>
    (\<forall>v. u_username v = name \<longrightarrow>
       CreateUser v d' = (unexpected kAlreadyExists ''Username already taken'', d'))"
proof -
  have ok': "db_ok d'" using CreateUser_keeps [OF assms(1), of u] assms(3) by simp
  have d': "d' = d\<lparr>users := users d @ [u\<lparr>u_disabled_at := None\<rparr>]\<rparr>"
    using assms(1,3) by (cases rule: CreateUser_cases) auto
  have "same_username name (u\<lparr>u_disabled_at := None\<rparr>)"
    using assms(4) by (simp add: same_username_def)
  then have "FindByUsername sq name d' = Some (u\<lparr>u_disabled_at := None\<rparr>)"
    unfolding FindByUsername_iff [OF ok' assms(2)] by (simp add: d')
  moreover have "CreateUser v d' = (unexpected kAlreadyExists ''Username already taken'', d')"
    if "u_username v = name" for v
    using that assms(4) by (simp add: CreateUser_def same_username_def d')
  ultimately show ?thesis by blast
qed

theorem CreateUser_nocase_witness:
  "FindByUsername rowid_order ''ALICE'' (snd (CreateUser user_alice CreateSchema)) = Some user_alice"
proof -
  have "CreateUser user_alice CreateSchema = (Inr (), snd (CreateUser user_alice CreateSchema))"
    "nocase ''ALICE'' = nocase (u_username user_alice)" by code_simp+
  from CreateUser_nocase [OF CreateSchema_ok sqlite_ok_rowid_order this]
  show ?thesis by (simp add: user_alice_def)
qed

end
