(* ===== verification/Conversation_Repository.thy ===== *)
theory Conversation_Repository
  imports User_Repository
begin

text \<open>
  \<open>ConversationRepository\<close> (\<open>lib/vox_store/conversation_repository.cpp\<close>): conversations,
  their members and the subscriptions of channels. A removed member and a cancelled
  subscription stay in their table with \<open>removed_at\<close>, respectively \<open>unsubscribed_at\<close>, set.
  The \<open>last_activity_at\<close> of a \<open>ConversationRecord\<close> is filled by one query only, which
  returns it beside the row.
\<close>

section \<open>Operations\<close>

definition BumpMembershipVersion :: "ConversationId \<Rightarrow> db \<Rightarrow> db" where
  "BumpMembershipVersion conv_id d =
     d\<lparr>conversations := sql_update (\<lambda>c. c_conversation_id c = conv_id)
         (\<lambda>c. c\<lparr>c_membership_version := c_membership_version c + 1\<rparr>) (conversations d)\<rparr>"

definition CreateConversation :: "conversation_row \<Rightarrow> db \<Rightarrow> VoidResult \<times> db" where
  "CreateConversation conv d =
     (case insert_conversation conv d of
        None \<Rightarrow> (unexpected kAlreadyExists ''Conversation already exists'', d)
      | Some d' \<Rightarrow> (Inr (), d'))"

definition Conv_FindById :: "ConversationId \<Rightarrow> db \<Rightarrow> conversation_row option" where
  "Conv_FindById conv_id d =
     first_row (filter (\<lambda>c. c_conversation_id c = conv_id) (conversations d))"

definition Conv_AddMember ::
    "sqlite \<Rightarrow> ConversationId \<Rightarrow> UserId \<Rightarrow> MemberRole \<Rightarrow> Timestamp \<Rightarrow> db \<Rightarrow> VoidResult \<times> db" where
  "Conv_AddMember sq conv_id user_id role now d =
     (case upsert_member
             \<lparr>m_conversation_id = conv_id, m_user_id = user_id, m_role = role, m_added_at = now,
              m_removed_at = None\<rparr>
             (\<lambda>m. m\<lparr>m_removed_at := None, m_role := role, m_added_at := now\<rparr>) d of
        None \<Rightarrow> (unexpected kInternal (what sq), d)
      | Some d' \<Rightarrow> (Inr (), BumpMembershipVersion conv_id d'))"

definition active_member :: "ConversationId \<Rightarrow> UserId \<Rightarrow> MemberRecord \<Rightarrow> bool" where
  "active_member conv_id user_id m \<longleftrightarrow> m_key m = (conv_id, user_id) \<and> m_removed_at m = None"

definition Conv_RemoveMember :: "ConversationId \<Rightarrow> UserId \<Rightarrow> Timestamp \<Rightarrow> db \<Rightarrow> VoidResult \<times> db" where
  "Conv_RemoveMember conv_id user_id now d =
     (let P = active_member conv_id user_id;
          d' = d\<lparr>conversation_members :=
                 sql_update P (\<lambda>m. m\<lparr>m_removed_at := Some now\<rparr>) (conversation_members d)\<rparr>
      in if sql_count P (conversation_members d) > 0
         then (Inr (), BumpMembershipVersion conv_id d') else (Inr (), d'))"

definition GetMembers :: "sqlite \<Rightarrow> ConversationId \<Rightarrow> db \<Rightarrow> MemberRecord list" where
  "GetMembers sq conv_id d =
     scan_members sq (filter (\<lambda>m. m_conversation_id m = conv_id \<and> m_removed_at m = None)
       (conversation_members d))"

text \<open>\<open>MAX\<close> of no rows is NULL.\<close>

definition sql_max :: "int list \<Rightarrow> int option" where
  "sql_max xs = (case xs of [] \<Rightarrow> None | x # xs \<Rightarrow> Some (fold max xs x))"

definition last_activity_at :: "db \<Rightarrow> conversation_row \<Rightarrow> Timestamp option" where
  "last_activity_at d c =
     sql_max (map e_server_timestamp
       (filter (\<lambda>e. e_conversation_id e = c_conversation_id c) (encrypted_envelopes d)))"

definition GetConversationsForUser ::
    "sqlite \<Rightarrow> UserId \<Rightarrow> db \<Rightarrow> (conversation_row \<times> Timestamp option) list" where
  "GetConversationsForUser sq user_id d =
     map (\<lambda>c. (c, last_activity_at d c))
       (scan_conversations sq
         (concat (map (\<lambda>c. map (\<lambda>_. c) (filter (active_member (c_conversation_id c) user_id)
            (conversation_members d))) (conversations d))))"

definition active_subscription :: "ConversationId \<Rightarrow> UserId \<Rightarrow> subscription_row \<Rightarrow> bool" where
  "active_subscription conv_id user_id s \<longleftrightarrow>
     cs_key s = (conv_id, user_id) \<and> cs_unsubscribed_at s = None"

definition IsUserInConversation :: "ConversationId \<Rightarrow> UserId \<Rightarrow> db \<Rightarrow> bool" where
  "IsUserInConversation conv_id user_id d =
     (case Conv_FindById conv_id d of
        None \<Rightarrow> False
      | Some c \<Rightarrow>
          if c_type c = kChannel
          then filter (active_subscription conv_id user_id) (channel_subscriptions d) \<noteq> []
          else filter (active_member conv_id user_id) (conversation_members d) \<noteq> [])"

definition GetMember :: "ConversationId \<Rightarrow> UserId \<Rightarrow> db \<Rightarrow> MemberRecord option" where
  "GetMember conv_id user_id d =
     first_row (filter (active_member conv_id user_id) (conversation_members d))"

definition Subscribe :: "sqlite \<Rightarrow> ConversationId \<Rightarrow> UserId \<Rightarrow> Timestamp \<Rightarrow> db \<Rightarrow> VoidResult \<times> db" where
  "Subscribe sq conv_id user_id now d =
     (case upsert_subscription
             \<lparr>cs_conversation_id = conv_id, cs_user_id = user_id, cs_subscribed_at = now,
              cs_unsubscribed_at = None\<rparr>
             (\<lambda>s. s\<lparr>cs_unsubscribed_at := None, cs_subscribed_at := now\<rparr>) d of
        None \<Rightarrow> (unexpected kInternal (what sq), d)
      | Some d' \<Rightarrow> (Inr (), BumpMembershipVersion conv_id d'))"

definition Unsubscribe :: "ConversationId \<Rightarrow> UserId \<Rightarrow> Timestamp \<Rightarrow> db \<Rightarrow> VoidResult \<times> db" where
  "Unsubscribe conv_id user_id now d =
     (let P = active_subscription conv_id user_id;
          d' = d\<lparr>channel_subscriptions :=
                 sql_update P (\<lambda>s. s\<lparr>cs_unsubscribed_at := Some now\<rparr>) (channel_subscriptions d)\<rparr>
      in if sql_count P (channel_subscriptions d) > 0
         then (Inr (), BumpMembershipVersion conv_id d') else (Inr (), d'))"

definition GetSubscribers :: "sqlite \<Rightarrow> ConversationId \<Rightarrow> db \<Rightarrow> UserId list" where
  "GetSubscribers sq conv_id d =
     map cs_user_id (scan_subscriptions sq
       (filter (\<lambda>s. cs_conversation_id s = conv_id \<and> cs_unsubscribed_at s = None)
         (channel_subscriptions d)))"

definition GetMemberCount :: "ConversationId \<Rightarrow> db \<Rightarrow> nat" where
  "GetMemberCount conv_id d =
     sql_count (\<lambda>m. m_conversation_id m = conv_id \<and> m_removed_at m = None) (conversation_members d)"

section \<open>Constraints kept\<close>

lemma BumpMembershipVersion_keeps [keeps]: "db_ok d \<Longrightarrow> db_ok (BumpMembershipVersion c d)"
  unfolding BumpMembershipVersion_def by (rule db_ok_conversations) (simp_all add: sql_simps)

lemma CreateConversation_keeps [keeps]: "db_ok d \<Longrightarrow> db_ok (snd (CreateConversation c d))"
  by (simp add: CreateConversation_def insert_conversation_ok split: option.split)

lemma Conv_AddMember_keeps [keeps]: "db_ok d \<Longrightarrow> db_ok (snd (Conv_AddMember sq c u role now d))"
  by (simp add: Conv_AddMember_def keeps upsert_member_ok m_key_def split: option.split)

lemma Conv_RemoveMember_keeps [keeps]: "db_ok d \<Longrightarrow> db_ok (snd (Conv_RemoveMember c u now d))"
  by (simp add: Conv_RemoveMember_def Let_def keeps db_ok_members sql_simps m_key_def)

lemma Subscribe_keeps [keeps]: "db_ok d \<Longrightarrow> db_ok (snd (Subscribe sq c u now d))"
  by (simp add: Subscribe_def keeps upsert_subscription_ok cs_key_def split: option.split)

lemma Unsubscribe_keeps [keeps]: "db_ok d \<Longrightarrow> db_ok (snd (Unsubscribe c u now d))"
  by (simp add: Unsubscribe_def Let_def keeps db_ok_subscriptions sql_simps cs_key_def)

section \<open>Lookups\<close>

lemma Bump_sel [simp]:
  "users (BumpMembershipVersion c d) = users d" "devices (BumpMembershipVersion c d) = devices d"
  "conversation_members (BumpMembershipVersion c d) = conversation_members d"
  "channel_subscriptions (BumpMembershipVersion c d) = channel_subscriptions d"
  "encrypted_envelopes (BumpMembershipVersion c d) = encrypted_envelopes d"
  "delivery_state (BumpMembershipVersion c d) = delivery_state d"
  "conversation_keys (BumpMembershipVersion c d) = conversation_keys d"
  by (simp_all add: BumpMembershipVersion_def sql_simps)

lemma conversations_distinct: "db_ok d \<Longrightarrow> distinct (conversation_keys d)"
  by (simp add: db_ok_def conversations_ok_def)

lemma members_distinct: "db_ok d \<Longrightarrow> distinct (map m_key (conversation_members d))"
  by (simp add: db_ok_def members_ok_def)

lemma Conv_FindById_Some:
  "Conv_FindById i d = Some c \<Longrightarrow> c \<in> set (conversations d) \<and> c_conversation_id c = i"
  unfolding Conv_FindById_def by (drule first_row_filter) simp

lemma Conv_FindById_None: "Conv_FindById i d = None \<longleftrightarrow> i \<notin> set (conversation_keys d)"
  by (simp add: Conv_FindById_def sql_simps filter_empty_conv image_iff) metis

lemma Conv_FindById_iff:
  "db_ok d \<Longrightarrow> Conv_FindById i d = Some c \<longleftrightarrow> c \<in> set (conversations d) \<and> c_conversation_id c = i"
  using first_row_unique [OF conversations_distinct, of d c i] Conv_FindById_Some [of i d c]
  unfolding Conv_FindById_def by blast

lemma Conv_FindById_Bump:
  "Conv_FindById i (BumpMembershipVersion j d) =
     map_option (\<lambda>c. if i = j then c\<lparr>c_membership_version := c_membership_version c + 1\<rparr> else c)
       (Conv_FindById i d)"
proof -
  have "first_row (filter (\<lambda>c. c_conversation_id c = i) (sql_update (\<lambda>c. c_conversation_id c = j)
      (\<lambda>c. c\<lparr>c_membership_version := c_membership_version c + 1\<rparr>) t)) =
    map_option (\<lambda>c. if i = j then c\<lparr>c_membership_version := c_membership_version c + 1\<rparr> else c)
      (first_row (filter (\<lambda>c. c_conversation_id c = i) t))" for t
    by (induction t) (auto simp: sql_update_def)
  then show ?thesis by (simp add: Conv_FindById_def BumpMembershipVersion_def)
qed

lemma Conv_FindById_members [simp]:
  "Conv_FindById i (d\<lparr>conversation_members := t\<rparr>) = Conv_FindById i d"
  "Conv_FindById i (d\<lparr>channel_subscriptions := ts\<rparr>) = Conv_FindById i d"
  by (simp_all add: Conv_FindById_def)

lemma GetMember_iff:
  assumes "db_ok d"
  shows "GetMember c u d = Some m \<longleftrightarrow> m \<in> set (conversation_members d) \<and> active_member c u m"
proof
  assume "GetMember c u d = Some m"
  then show "m \<in> set (conversation_members d) \<and> active_member c u m"
    unfolding GetMember_def by (rule first_row_filter)
next
  assume m: "m \<in> set (conversation_members d) \<and> active_member c u m"
  then have "filter (active_member c u) (conversation_members d) = [m]"
    by (intro filter_unique [OF members_distinct [OF assms]]) (auto simp: active_member_def)
  then show "GetMember c u d = Some m" by (simp add: GetMember_def)
qed

lemma set_GetMembers:
  "sqlite_ok sq \<Longrightarrow> set (GetMembers sq c d) =
     {m \<in> set (conversation_members d). m_conversation_id m = c \<and> m_removed_at m = None}"
  by (auto simp: GetMembers_def set_scan)

lemma GetMembers_GetMember:
  assumes "db_ok d" and "sqlite_ok sq"
  shows "u \<in> m_user_id ` set (GetMembers sq c d) \<longleftrightarrow> GetMember c u d \<noteq> None"
proof -
  have "GetMember c u d \<noteq> None \<longleftrightarrow> (\<exists>m. m \<in> set (conversation_members d) \<and> active_member c u m)"
    using GetMember_iff [OF assms(1), of c u] by (cases "GetMember c u d") auto
  then show ?thesis by (auto simp: set_GetMembers [OF assms(2)] active_member_def m_key_def)
qed

lemma set_GetSubscribers:
  "sqlite_ok sq \<Longrightarrow> u \<in> set (GetSubscribers sq c d) \<longleftrightarrow>
     (\<exists>s \<in> set (channel_subscriptions d). active_subscription c u s)"
  by (auto simp: GetSubscribers_def set_scan active_subscription_def cs_key_def)

section \<open>The roster of a conversation\<close>

text \<open>
  What the members table promises: for each conversation a map from users to roles, and a
  version that grows with every change.
\<close>

record roster =
  roles :: "UserId \<rightharpoonup> MemberRole"
  version :: int

definition roster_of :: "db \<Rightarrow> ConversationId \<Rightarrow> roster" where
  "roster_of d c = \<lparr>roles = (\<lambda>u. map_option m_role (GetMember c u d)),
     version = (case Conv_FindById c d of None \<Rightarrow> 0 | Some r \<Rightarrow> c_membership_version r)\<rparr>"

definition roster_add :: "UserId \<Rightarrow> MemberRole \<Rightarrow> roster \<Rightarrow> roster" where
  "roster_add u role r = r\<lparr>roles := (roles r)(u \<mapsto> role), version := version r + 1\<rparr>"

definition roster_remove :: "UserId \<Rightarrow> roster \<Rightarrow> roster" where
  "roster_remove u r =
     (if roles r u = None then r else r\<lparr>roles := (roles r)(u := None), version := version r + 1\<rparr>)"

lemma upsert_member_set:
  assumes "db_ok d" and "upsert_member m f d = Some d'" and "\<And>r. m_key r = m_key m \<Longrightarrow> f r = m"
  shows "set (conversation_members d') =
      insert m {r \<in> set (conversation_members d). m_key r \<noteq> m_key m}"
    and "conversations d' = conversations d" and "m_conversation_id m \<in> set (conversation_keys d)"
proof -
  show "set (conversation_members d') = insert m {r \<in> set (conversation_members d). m_key r \<noteq> m_key m}"
  proof (cases "m_key m \<in> set (map m_key (conversation_members d))")
    case True
    then obtain r where r: "r \<in> set (conversation_members d)" "m_key r = m_key m" by auto
    have "d' = d\<lparr>conversation_members := sql_update (\<lambda>r. m_key r = m_key m) f (conversation_members d)\<rparr>"
      using assms(2) True by (simp add: upsert_member_def)
    then show ?thesis using assms(3) r by (force simp: set_sql_update)
  next
    case False
    then have "d' = d\<lparr>conversation_members := conversation_members d @ [m]\<rparr>"
      using assms(2) by (simp add: upsert_member_def split: if_splits)
    moreover have "m_key r \<noteq> m_key m" if "r \<in> set (conversation_members d)" for r
      using False that by (metis image_eqI set_map)
    ultimately show ?thesis by auto
  qed
  show "conversations d' = conversations d"
    using assms(2) by (simp add: upsert_member_def split: if_splits) auto
  show "m_conversation_id m \<in> set (conversation_keys d)"
  proof (cases "m_key m \<in> set (map m_key (conversation_members d))")
    case True
    then obtain r where "r \<in> set (conversation_members d)" "m_conversation_id r = m_conversation_id m"
      by (auto simp: m_key_def)
    then show ?thesis using db_ok_fks(6) [OF assms(1)] by metis
  next
    case False
    then show ?thesis using assms(2) by (simp add: upsert_member_def split: if_splits)
  qed
qed

lemma Conv_AddMember_ok:
  assumes "db_ok d" and "fst (Conv_AddMember sq c u role now d) = Inr ()"
  defines "d' \<equiv> snd (Conv_AddMember sq c u role now d)"
  shows "set (conversation_members d') = insert \<lparr>m_conversation_id = c, m_user_id = u, m_role = role,
      m_added_at = now, m_removed_at = None\<rparr> {r \<in> set (conversation_members d). m_key r \<noteq> (c, u)}"
    and "conversations d' = conversations (BumpMembershipVersion c d)" and "c \<in> set (conversation_keys d)"
proof -
  let ?m = "\<lparr>m_conversation_id = c, m_user_id = u, m_role = role, m_added_at = now, m_removed_at = None\<rparr>"
  let ?f = "\<lambda>m. m\<lparr>m_removed_at := None, m_role := role, m_added_at := now\<rparr>"
  obtain d1 where d1: "upsert_member ?m ?f d = Some d1" "d' = BumpMembershipVersion c d1"
    using assms(2) by (auto simp: d'_def Conv_AddMember_def split: option.splits)
  have f: "?f r = ?m" if "m_key r = m_key ?m" for r using that by (simp add: m_key_def)
  note up = upsert_member_set [OF assms(1) d1(1) f]
  show "set (conversation_members d') = insert ?m {r \<in> set (conversation_members d). m_key r \<noteq> (c, u)}"
    using up(1) by (simp add: d1(2) m_key_def)
  show "conversations d' = conversations (BumpMembershipVersion c d)"
    using up(2) by (simp add: d1(2) BumpMembershipVersion_def)
  show "c \<in> set (conversation_keys d)" using up(3) by simp
qed

lemma GetMember_AddMember:
  assumes "db_ok d" and "fst (Conv_AddMember sq c u role now d) = Inr ()"
  shows "GetMember c' u' (snd (Conv_AddMember sq c u role now d)) =
    (if (c', u') = (c, u) then Some \<lparr>m_conversation_id = c, m_user_id = u, m_role = role,
       m_added_at = now, m_removed_at = None\<rparr> else GetMember c' u' d)"
proof -
  let ?m = "\<lparr>m_conversation_id = c, m_user_id = u, m_role = role, m_added_at = now, m_removed_at = None\<rparr>"
  have "GetMember c' u' (snd (Conv_AddMember sq c u role now d)) = Some m \<longleftrightarrow>
    (if (c', u') = (c, u) then m = ?m else GetMember c' u' d = Some m)" for m
    unfolding GetMember_iff [OF Conv_AddMember_keeps [OF assms(1)]] GetMember_iff [OF assms(1)]
      Conv_AddMember_ok(1) [OF assms]
    by (auto simp: active_member_def m_key_def)
  then show ?thesis by (intro option_eqI) auto
qed

lemma GetMember_RemoveMember:
  assumes "db_ok d"
  shows "GetMember c' u' (snd (Conv_RemoveMember c u now d)) =
    (if (c', u') = (c, u) then None else GetMember c' u' d)"
proof -
  have set: "set (conversation_members (snd (Conv_RemoveMember c u now d))) =
      set (sql_update (active_member c u) (\<lambda>m. m\<lparr>m_removed_at := Some now\<rparr>) (conversation_members d))"
    by (simp add: Conv_RemoveMember_def Let_def)
  have "GetMember c' u' (snd (Conv_RemoveMember c u now d)) = Some m \<longleftrightarrow>
    (c', u') \<noteq> (c, u) \<and> GetMember c' u' d = Some m" for m
    unfolding GetMember_iff [OF Conv_RemoveMember_keeps [OF assms]] GetMember_iff [OF assms] set
    by (auto simp: active_member_def m_key_def set_sql_update)
  then show ?thesis by (intro option_eqI) auto
qed

text \<open>
  C15: The repository implements the roster. \<open>AddMember\<close> on a conversation adds or re-adds the
  user with the given role, whether or not there is an old row; \<open>RemoveMember\<close> removes an
  active member and does nothing for anyone else; both leave the roster of every other
  conversation alone, and the version grows by one exactly when the roster was written.
\<close>

theorem members_refine_roster:
  assumes "db_ok d"
  shows "(fst (Conv_AddMember sq c u role now d) = Inr () \<longrightarrow>
      roster_of (snd (Conv_AddMember sq c u role now d)) c' =
        (if c' = c then roster_add u role (roster_of d c) else roster_of d c')) \<and>
    roster_of (snd (Conv_RemoveMember c u now d)) c' =
      (if c' = c then roster_remove u (roster_of d c) else roster_of d c')"
proof (intro conjI impI)
  assume ok: "fst (Conv_AddMember sq c u role now d) = Inr ()"
  let ?d' = "snd (Conv_AddMember sq c u role now d)"
  have "Conv_FindById i ?d' = Conv_FindById i (BumpMembershipVersion c d)" for i
    by (simp add: Conv_FindById_def Conv_AddMember_ok(2) [OF assms ok])
  moreover have "Conv_FindById c d \<noteq> None"
    using Conv_AddMember_ok(3) [OF assms ok] by (simp add: Conv_FindById_None)
  ultimately show "roster_of ?d' c' =
      (if c' = c then roster_add u role (roster_of d c) else roster_of d c')"
    by (auto simp: roster_of_def roster_add_def GetMember_AddMember [OF assms ok] Conv_FindById_Bump
        split: option.split)
next
  let ?d' = "snd (Conv_RemoveMember c u now d)"
  have cnt: "0 < sql_count (active_member c u) (conversation_members d) \<longleftrightarrow> GetMember c u d \<noteq> None"
    by (cases "filter (active_member c u) (conversation_members d)")
      (simp_all add: sql_count_def GetMember_def)
  have "Conv_FindById i ?d' = (if GetMember c u d = None then Conv_FindById i d
      else Conv_FindById i (BumpMembershipVersion c d))" for i
    unfolding Conv_RemoveMember_def Let_def cnt by (simp add: Conv_FindById_Bump)
  moreover have "Conv_FindById c d \<noteq> None" if "GetMember c u d = Some m" for m
    using that db_ok_fks(6) [OF assms, of m] unfolding GetMember_iff [OF assms]
    by (auto simp: Conv_FindById_None active_member_def m_key_def)
  ultimately show "roster_of ?d' c' =
      (if c' = c then roster_remove u (roster_of d c) else roster_of d c')"
    by (cases "GetMember c u d") (auto simp: roster_of_def roster_remove_def
        GetMember_RemoveMember [OF assms] Conv_FindById_Bump fun_eq_iff split: option.split)
qed

definition group_row :: conversation_row where
  "group_row = \<lparr>c_conversation_id = ''g'', c_type = kGroup, c_created_by = ''u1'', c_created_at = 5,
     c_policy_blob = '''', c_membership_version = 0\<rparr>"

definition one_group :: db where
  "one_group = two_users\<lparr>conversations := [group_row], conversation_members :=
     [\<lparr>m_conversation_id = ''g'', m_user_id = ''u1'', m_role = kOwner, m_added_at = 5,
       m_removed_at = None\<rparr>]\<rparr>"

lemma one_group_ok [simp]: "db_ok one_group"
  by code_simp

theorem members_refine_roster_witness:
  "roles (roster_of (snd (Conv_AddMember rowid_order ''g'' ''u2'' kMember 9 one_group)) ''g'') ''u2'' =
     Some kMember \<and>
   version (roster_of (snd (Conv_AddMember rowid_order ''g'' ''u2'' kMember 9 one_group)) ''g'') = 1"
proof -
  have "fst (Conv_AddMember rowid_order ''g'' ''u2'' kMember 9 one_group) = Inr ()"
    "version (roster_of one_group ''g'') = 0"
    by code_simp+
  with members_refine_roster [OF one_group_ok, of rowid_order "''g''" "''u2''" kMember 9 "''g''"]
  show ?thesis by (simp add: roster_add_def)
qed

end
