(* ===== verification/Device_Repository.thy ===== *)
theory Device_Repository
  imports User_Repository
begin

text \<open>
  \<open>DeviceRepository\<close> (\<open>lib/vox_store/device_repository.cpp\<close>): devices with their
  long-term public keys, and the one-time prekeys that a sender consumes to start a session.
  The calls of \<open>std::chrono::system_clock::now\<close> are an argument \<open>now\<close>. A transaction that
  returns or throws before \<open>commit\<close> leaves the database as it found it.
\<close>

section \<open>Operations\<close>

record PrekeyRecord =
  pr_prekey_id :: string
  pr_device_id :: DeviceId
  pr_prekey_public :: string
  pr_consumed_at :: "Timestamp option"

record PrekeyBundle =
  pb_identity_key_public :: string
  pb_signed_prekey_public :: string
  pb_signed_prekey_signature :: string
  pb_one_time_prekey_public :: "string option"
  pb_one_time_prekey_id :: "string option"

definition RegisterDevice :: "DeviceRecord \<Rightarrow> db \<Rightarrow> VoidResult \<times> db" where
  "RegisterDevice device d =
     (case insert_device device d of
        None \<Rightarrow> (unexpected kAlreadyExists ''Device already registered'', d)
      | Some d' \<Rightarrow> (Inr (), d'))"

definition GetDevicesForUser :: "sqlite \<Rightarrow> UserId \<Rightarrow> db \<Rightarrow> DeviceRecord list" where
  "GetDevicesForUser sq user_id d =
     sql_order_by d_created_at (scan_devices sq (filter (\<lambda>v. d_user_id v = user_id) (devices d)))"

definition FindByUserAndDevice :: "UserId \<Rightarrow> DeviceId \<Rightarrow> db \<Rightarrow> DeviceRecord option" where
  "FindByUserAndDevice user_id device_id d =
     first_row (filter (\<lambda>v. dev_key v = (user_id, device_id)) (devices d))"

definition FindAllByDeviceId :: "sqlite \<Rightarrow> DeviceId \<Rightarrow> db \<Rightarrow> DeviceRecord list" where
  "FindAllByDeviceId sq device_id d =
     scan_devices sq (filter (\<lambda>v. d_device_id v = device_id) (devices d))"

fun insert_prekeys :: "UserId \<Rightarrow> DeviceId \<Rightarrow> PrekeyRecord list \<Rightarrow> db \<Rightarrow> db option" where
  "insert_prekeys user_id device_id [] d = Some d"
| "insert_prekeys user_id device_id (pk # prekeys) d =
     (case insert_prekey \<lparr>pk_prekey_id = pr_prekey_id pk, pk_user_id = user_id,
             pk_device_id = device_id, pk_prekey_public = pr_prekey_public pk,
             pk_consumed_at = None\<rparr> d of
        None \<Rightarrow> None
      | Some d' \<Rightarrow> insert_prekeys user_id device_id prekeys d')"

definition StorePrekeys ::
    "sqlite \<Rightarrow> UserId \<Rightarrow> DeviceId \<Rightarrow> PrekeyRecord list \<Rightarrow> Timestamp \<Rightarrow> db \<Rightarrow> VoidResult \<times> db" where
  "StorePrekeys sq user_id device_id prekeys now d =
     (case insert_prekeys user_id device_id prekeys d of
        None \<Rightarrow> (unexpected kInternal (what sq), d)
      | Some d' \<Rightarrow>
          (Inr (), d'\<lparr>devices := sql_update (\<lambda>v. dev_key v = (user_id, device_id))
                       (\<lambda>v. v\<lparr>d_last_prekey_refresh_at := Some now\<rparr>) (devices d')\<rparr>))"

definition available :: "UserId \<Rightarrow> DeviceId \<Rightarrow> prekey_row \<Rightarrow> bool" where
  "available user_id device_id p \<longleftrightarrow> pk_dev p = (user_id, device_id) \<and> pk_consumed_at p = None"

definition ConsumeOneAvailableOtpLocked ::
    "sqlite \<Rightarrow> UserId \<Rightarrow> DeviceId \<Rightarrow> Timestamp \<Rightarrow> db \<Rightarrow> PrekeyRecord option \<times> db" where
  "ConsumeOneAvailableOtpLocked sq user_id device_id now d =
     (case first_row (scan_prekeys sq (filter (available user_id device_id) (one_time_prekeys d))) of
        None \<Rightarrow> (None, d)
      | Some row \<Rightarrow>
          let P = (\<lambda>p. pk_prekey_id p = pk_prekey_id row \<and> pk_consumed_at p = None);
              d' = d\<lparr>one_time_prekeys :=
                     sql_update P (\<lambda>p. p\<lparr>pk_consumed_at := Some now\<rparr>) (one_time_prekeys d)\<rparr>
          in if sql_count P (one_time_prekeys d) = 0 then (None, d')
             else (Some \<lparr>pr_prekey_id = pk_prekey_id row, pr_device_id = device_id,
                         pr_prekey_public = pk_prekey_public row, pr_consumed_at = Some now\<rparr>, d'))"

definition GetPrekeyBundle ::
    "sqlite \<Rightarrow> UserId \<Rightarrow> DeviceId \<Rightarrow> Timestamp \<Rightarrow> db \<Rightarrow> PrekeyBundle Result \<times> db" where
  "GetPrekeyBundle sq user_id device_id now d =
     (case FindByUserAndDevice user_id device_id d of
        None \<Rightarrow> (unexpected kNotFound ''Device not found'', d)
      | Some dev \<Rightarrow>
          if d_revoked_at dev \<noteq> None then (unexpected kForbidden ''Device revoked'', d)
          else let (otp, d') = ConsumeOneAvailableOtpLocked sq user_id device_id now d
               in (Inr \<lparr>pb_identity_key_public = d_identity_key_public dev,
                        pb_signed_prekey_public = d_signed_prekey_public dev,
                        pb_signed_prekey_signature = d_signed_prekey_signature dev,
                        pb_one_time_prekey_public = map_option pr_prekey_public otp,
                        pb_one_time_prekey_id = map_option pr_prekey_id otp\<rparr>, d'))"

definition ConsumeOneTimePrekey ::
    "sqlite \<Rightarrow> UserId \<Rightarrow> DeviceId \<Rightarrow> Timestamp \<Rightarrow> db \<Rightarrow> PrekeyRecord Result \<times> db" where
  "ConsumeOneTimePrekey sq user_id device_id now d =
     (case ConsumeOneAvailableOtpLocked sq user_id device_id now d of
        (None, _) \<Rightarrow> (unexpected kNotFound ''No available prekeys'', d)
      | (Some consumed, d') \<Rightarrow> (Inr consumed, d'))"

definition UpdateSignedPrekey ::
    "UserId \<Rightarrow> DeviceId \<Rightarrow> string \<Rightarrow> string \<Rightarrow> Timestamp \<Rightarrow> db \<Rightarrow> VoidResult \<times> db" where
  "UpdateSignedPrekey user_id device_id signed_prekey_public signed_prekey_signature now d =
     (let P = (\<lambda>v. dev_key v = (user_id, device_id) \<and> d_revoked_at v = None);
          d' = d\<lparr>devices := sql_update P
                 (\<lambda>v. v\<lparr>d_signed_prekey_public := signed_prekey_public,
                        d_signed_prekey_signature := signed_prekey_signature,
                        d_last_prekey_refresh_at := Some now\<rparr>) (devices d)\<rparr>
      in if sql_count P (devices d) = 0 then (unexpected kNotFound ''Device not found'', d')
         else (Inr (), d'))"

definition RevokeDevice :: "UserId \<Rightarrow> DeviceId \<Rightarrow> Timestamp \<Rightarrow> db \<Rightarrow> VoidResult \<times> db" where
  "RevokeDevice user_id device_id now d =
     (let P = (\<lambda>v. dev_key v = (user_id, device_id) \<and> d_revoked_at v = None);
          d' = d\<lparr>devices := sql_update P (\<lambda>v. v\<lparr>d_revoked_at := Some now\<rparr>) (devices d)\<rparr>
      in if sql_count P (devices d) = 0 then (unexpected kNotFound ''Device not found'', d)
         else (Inr (), d'\<lparr>one_time_prekeys :=
                 sql_delete (\<lambda>p. pk_dev p = (user_id, device_id)) (one_time_prekeys d')\<rparr>))"

definition UpdateLastSeen :: "UserId \<Rightarrow> DeviceId \<Rightarrow> Timestamp \<Rightarrow> db \<Rightarrow> VoidResult \<times> db" where
  "UpdateLastSeen user_id device_id now d =
     (Inr (), d\<lparr>devices := sql_update (\<lambda>v. dev_key v = (user_id, device_id))
                  (\<lambda>v. v\<lparr>d_last_seen_at := now\<rparr>) (devices d)\<rparr>)"

definition CountAvailableOneTimePrekeys :: "UserId \<Rightarrow> DeviceId \<Rightarrow> db \<Rightarrow> nat" where
  "CountAvailableOneTimePrekeys user_id device_id d =
     sql_count (available user_id device_id) (one_time_prekeys d)"

section \<open>Constraints kept\<close>

lemma RegisterDevice_keeps [keeps]: "db_ok d \<Longrightarrow> db_ok (snd (RegisterDevice v d))"
  unfolding RegisterDevice_def by (auto intro: insert_device_ok split: option.splits)

lemma insert_prekeys_ok: "insert_prekeys u v ps d = Some d' \<Longrightarrow> db_ok d \<Longrightarrow> db_ok d'"
  by (induction ps arbitrary: d) (auto intro: insert_prekey_ok split: option.splits)

lemma StorePrekeys_keeps [keeps]: "db_ok d \<Longrightarrow> db_ok (snd (StorePrekeys sq u v ps now d))"
  unfolding StorePrekeys_def
  by (auto simp: sql_simps dev_key_def intro!: db_ok_devices split: option.splits
      dest: insert_prekeys_ok)

lemma ConsumeOneAvailableOtpLocked_keeps [keeps]:
  "db_ok d \<Longrightarrow> db_ok (snd (ConsumeOneAvailableOtpLocked sq u v now d))"
  unfolding ConsumeOneAvailableOtpLocked_def Let_def
  by (auto simp: sql_simps pk_dev_def intro!: db_ok_prekeys split: option.splits)

lemma GetPrekeyBundle_keeps [keeps]: "db_ok d \<Longrightarrow> db_ok (snd (GetPrekeyBundle sq u v now d))"
  using ConsumeOneAvailableOtpLocked_keeps [of d sq u v now]
  by (auto simp: GetPrekeyBundle_def split: option.splits prod.splits)

lemma ConsumeOneTimePrekey_keeps [keeps]:
  "db_ok d \<Longrightarrow> db_ok (snd (ConsumeOneTimePrekey sq u v now d))"
  using ConsumeOneAvailableOtpLocked_keeps [of d sq u v now]
  by (auto simp: ConsumeOneTimePrekey_def split: option.splits prod.splits)

lemma UpdateSignedPrekey_keeps [keeps]:
  "db_ok d \<Longrightarrow> db_ok (snd (UpdateSignedPrekey u v k s now d))"
  unfolding UpdateSignedPrekey_def Let_def
  by (auto simp: sql_simps dev_key_def intro!: db_ok_devices)

lemma RevokeDevice_keeps [keeps]: "db_ok d \<Longrightarrow> db_ok (snd (RevokeDevice u v now d))"
proof -
  assume ok: "db_ok d"
  let ?d' = "d\<lparr>devices := sql_update (\<lambda>r. dev_key r = (u, v) \<and> d_revoked_at r = None)
      (\<lambda>v. v\<lparr>d_revoked_at := Some now\<rparr>) (devices d)\<rparr>"
  have "db_ok ?d'" using ok by (auto simp: sql_simps dev_key_def intro!: db_ok_devices)
  from db_ok_delete(1) [OF this] ok show ?thesis by (simp add: RevokeDevice_def Let_def)
qed

lemma UpdateLastSeen_keeps [keeps]: "db_ok d \<Longrightarrow> db_ok (snd (UpdateLastSeen u v now d))"
  unfolding UpdateLastSeen_def by (auto simp: sql_simps dev_key_def intro!: db_ok_devices)

section \<open>Lookups\<close>

lemma devices_distinct: "db_ok d \<Longrightarrow> distinct (map dev_key (devices d))"
  by (simp add: db_ok_def devices_ok_def)

lemma FindByUserAndDevice_Some:
  "FindByUserAndDevice u v d = Some r \<Longrightarrow> r \<in> set (devices d) \<and> d_user_id r = u \<and> d_device_id r = v"
  unfolding FindByUserAndDevice_def by (drule first_row_filter) (simp add: dev_key_def)

lemma FindByUserAndDevice_iff:
  "db_ok d \<Longrightarrow> FindByUserAndDevice u v d = Some r \<longleftrightarrow>
     r \<in> set (devices d) \<and> d_user_id r = u \<and> d_device_id r = v"
  using first_row_unique [OF devices_distinct, of d r "(u, v)"] FindByUserAndDevice_Some [of u v d r]
  unfolding FindByUserAndDevice_def dev_key_def by blast

lemma FindByUserAndDevice_None: "FindByUserAndDevice u v d = None \<longleftrightarrow> (u, v) \<notin> set (device_keys d)"
  by (simp add: FindByUserAndDevice_def sql_simps filter_empty_conv image_iff) metis

lemma set_GetDevicesForUser:
  "sqlite_ok sq \<Longrightarrow> set (GetDevicesForUser sq u d) = {v \<in> set (devices d). d_user_id v = u}"
  by (auto simp: GetDevicesForUser_def sql_simps set_scan)

section \<open>One-time prekeys\<close>

lemma prekeys_distinct: "db_ok d \<Longrightarrow> distinct (map pk_prekey_id (one_time_prekeys d))"
  by (simp add: db_ok_def prekeys_ok_def)

lemma ConsumeOneAvailableOtpLocked_cases:
  assumes ok: "db_ok d" and sq: "sqlite_ok sq"
  obtains (empty) "CountAvailableOneTimePrekeys u v d = 0"
      "ConsumeOneAvailableOtpLocked sq u v now d = (None, d)"
    | (key) row d' where "row \<in> set (one_time_prekeys d)" "available u v row"
      "d' = d\<lparr>one_time_prekeys := sql_update (\<lambda>p. pk_prekey_id p = pk_prekey_id row \<and>
         pk_consumed_at p = None) (\<lambda>p. p\<lparr>pk_consumed_at := Some now\<rparr>) (one_time_prekeys d)\<rparr>"
      "ConsumeOneAvailableOtpLocked sq u v now d =
         (Some \<lparr>pr_prekey_id = pk_prekey_id row, pr_device_id = v,
                pr_prekey_public = pk_prekey_public row, pr_consumed_at = Some now\<rparr>, d')"
      "Suc (CountAvailableOneTimePrekeys u v d') = CountAvailableOneTimePrekeys u v d"
proof (cases "first_row (scan_prekeys sq (filter (available u v) (one_time_prekeys d)))")
  case None
  then have "filter (available u v) (one_time_prekeys d) = []"
    by (simp add: sql_simps scan_nil [OF sq])
  then show thesis
    using None
    by (intro empty) (simp_all add: CountAvailableOneTimePrekeys_def sql_count_def
        ConsumeOneAvailableOtpLocked_def)
next
  case (Some row)
  then have "row \<in> set (scan_prekeys sq (filter (available u v) (one_time_prekeys d)))"
    by (rule first_row_Some)
  then have row: "row \<in> set (one_time_prekeys d)" "available u v row"
    by (simp_all add: set_scan [OF sq])
  let ?P = "\<lambda>p. pk_prekey_id p = pk_prekey_id row \<and> pk_consumed_at p = None"
  let ?f = "\<lambda>p. p\<lparr>pk_consumed_at := Some now\<rparr>"
  have only: "q \<in> set (one_time_prekeys d) \<Longrightarrow> ?P q \<longleftrightarrow> q = row" for q
    using key_eq [OF prekeys_distinct [OF ok] _ row(1)] row(2) by (auto simp: available_def)
  then have "sql_count ?P (one_time_prekeys d) \<noteq> 0" using row(1) by (auto simp: sql_count_0)
  moreover have "Suc (sql_count (available u v) (sql_update ?P ?f (one_time_prekeys d))) =
      sql_count (available u v) (one_time_prekeys d)"
    by (rule sql_count_update_one [OF prekeys_distinct [OF ok] row(1)])
      (use row(2) only in \<open>auto simp: available_def\<close>)
  ultimately show thesis
    using Some row
    by (intro key) (auto simp: ConsumeOneAvailableOtpLocked_def Let_def CountAvailableOneTimePrekeys_def)
qed

text \<open>
  What \<open>GetPrekeyBundle\<close> returns on every branch: an unknown device and a revoked one
  are errors that change nothing; otherwise the bundle carries the device's keys, and, when
  one-time prekeys are left, exactly one of the device's own unconsumed keys, which leaves one
  fewer available.
\<close>

theorem GetPrekeyBundle_correct:
  assumes "db_ok d" and "sqlite_ok sq"
  shows "case GetPrekeyBundle sq u v now d of
      (Inl e, d') \<Rightarrow> d' = d \<and>
        (case FindByUserAndDevice u v d of
           None \<Rightarrow> e = \<lparr>err_code = kNotFound, err_message = ''Device not found''\<rparr>
         | Some dev \<Rightarrow> d_revoked_at dev \<noteq> None \<and>
             e = \<lparr>err_code = kForbidden, err_message = ''Device revoked''\<rparr>)
    | (Inr b, d') \<Rightarrow>
        (\<exists>dev. FindByUserAndDevice u v d = Some dev \<and> d_revoked_at dev = None \<and>
           pb_identity_key_public b = d_identity_key_public dev \<and>
           pb_signed_prekey_public b = d_signed_prekey_public dev \<and>
           pb_signed_prekey_signature b = d_signed_prekey_signature dev) \<and>
        (if CountAvailableOneTimePrekeys u v d = 0
         then d' = d \<and> pb_one_time_prekey_id b = None \<and> pb_one_time_prekey_public b = None
         else Suc (CountAvailableOneTimePrekeys u v d') = CountAvailableOneTimePrekeys u v d \<and>
              (\<exists>p \<in> set (one_time_prekeys d). available u v p \<and>
                 pb_one_time_prekey_id b = Some (pk_prekey_id p) \<and>
                 pb_one_time_prekey_public b = Some (pk_prekey_public p)))"
proof (cases "FindByUserAndDevice u v d")
  case None
  then show ?thesis by (simp add: GetPrekeyBundle_def)
next
  case (Some dev)
  show ?thesis
  proof (cases "d_revoked_at dev = None")
    case True
    from assms show ?thesis
    proof (cases rule: ConsumeOneAvailableOtpLocked_cases [where u = u and v = v and now = now])
      case empty
      with Some True show ?thesis by (simp add: GetPrekeyBundle_def)
    next
      case (key row d')
      then have "CountAvailableOneTimePrekeys u v d \<noteq> 0" by simp
      with key Some True show ?thesis by (auto simp: GetPrekeyBundle_def)
    qed
  qed (use Some in \<open>simp add: GetPrekeyBundle_def\<close>)
qed

definition phone :: DeviceRecord where
  "phone = \<lparr>d_device_id = ''p'', d_user_id = ''u1'', d_identity_key_public = ''ik'',
     d_signed_prekey_public = ''sk'', d_signed_prekey_signature = ''sig'',
     d_last_prekey_refresh_at = None, d_client_protocol_version = 1, d_device_label = '''',
     d_created_at = 0, d_last_seen_at = 0, d_revoked_at = None\<rparr>"

definition otp_row :: "string \<Rightarrow> prekey_row" where
  "otp_row i = \<lparr>pk_prekey_id = i, pk_user_id = ''u1'', pk_device_id = ''p'',
     pk_prekey_public = ''pub'', pk_consumed_at = None\<rparr>"

definition one_phone :: db where
  "one_phone = two_users\<lparr>devices := [phone], one_time_prekeys := [otp_row ''k1'', otp_row ''k2'']\<rparr>"

lemma one_phone_ok [simp]: "db_ok one_phone"
  by code_simp

theorem GetPrekeyBundle_correct_witness:
  "case GetPrekeyBundle rowid_order ''u1'' ''p'' 7 one_phone of
      (Inl e, d') \<Rightarrow> False
    | (Inr b, d') \<Rightarrow> Suc (CountAvailableOneTimePrekeys ''u1'' ''p'' d') = 2 \<and>
        pb_identity_key_public b = ''ik''"
proof -
  have "FindByUserAndDevice ''u1'' ''p'' one_phone = Some phone" "d_revoked_at phone = None"
    "CountAvailableOneTimePrekeys ''u1'' ''p'' one_phone = 2" "d_identity_key_public phone = ''ik''"
    by code_simp+
  with GetPrekeyBundle_correct [OF one_phone_ok sqlite_ok_rowid_order, of "''u1''" "''p''" 7]
  show ?thesis by (auto split: prod.splits sum.splits)
qed

text \<open>
  The calls on prekeys, interleaved in any order: fetching a bundle, consuming a key, and
  uploading more keys. The ids of the keys handed out, in order.
\<close>

datatype prekey_call =
    Bundle UserId DeviceId Timestamp
  | Consume UserId DeviceId Timestamp
  | Store UserId DeviceId "PrekeyRecord list" Timestamp

fun prekey_step :: "sqlite \<Rightarrow> prekey_call \<Rightarrow> db \<Rightarrow> string option \<times> db" where
  "prekey_step sq (Bundle u v now) d =
     (case GetPrekeyBundle sq u v now d of
        (Inl _, d') \<Rightarrow> (None, d') | (Inr b, d') \<Rightarrow> (pb_one_time_prekey_id b, d'))"
| "prekey_step sq (Consume u v now) d =
     (case ConsumeOneTimePrekey sq u v now d of
        (Inl _, d') \<Rightarrow> (None, d') | (Inr p, d') \<Rightarrow> (Some (pr_prekey_id p), d'))"
| "prekey_step sq (Store u v ps now) d = (None, snd (StorePrekeys sq u v ps now d))"

fun handed_out :: "sqlite \<Rightarrow> prekey_call list \<Rightarrow> db \<Rightarrow> string list" where
  "handed_out sq [] d = []"
| "handed_out sq (c # cs) d =
     (case prekey_step sq c d of
        (None, d') \<Rightarrow> handed_out sq cs d' | (Some i, d') \<Rightarrow> i # handed_out sq cs d')"

definition consumed_ids :: "db \<Rightarrow> string set" where
  "consumed_ids d = pk_prekey_id ` {p \<in> set (one_time_prekeys d). pk_consumed_at p \<noteq> None}"

lemma consumed_ids_devices [simp]: "consumed_ids (d\<lparr>devices := t\<rparr>) = consumed_ids d"
  by (simp add: consumed_ids_def)

lemma consumed_ids_iff:
  "i \<in> consumed_ids d \<longleftrightarrow> (\<exists>p \<in> set (one_time_prekeys d). pk_prekey_id p = i \<and> pk_consumed_at p \<noteq> None)"
  by (auto simp: consumed_ids_def)

lemma insert_prekeys_consumed:
  "insert_prekeys u v ps d = Some d' \<Longrightarrow> consumed_ids d' = consumed_ids d"
proof (induction ps arbitrary: d)
  case (Cons p ps)
  then obtain d1 where d1: "insert_prekey \<lparr>pk_prekey_id = pr_prekey_id p, pk_user_id = u,
      pk_device_id = v, pk_prekey_public = pr_prekey_public p, pk_consumed_at = None\<rparr> d = Some d1"
      and "insert_prekeys u v ps d1 = Some d'"
    by (auto split: option.splits)
  with Cons.IH have "consumed_ids d' = consumed_ids d1" by simp
  also have "\<dots> = consumed_ids d"
    using d1 by (auto simp: insert_prekey_def consumed_ids_def split: if_splits)
  finally show ?case .
qed simp

lemma Consume_step:
  assumes "db_ok d" and "sqlite_ok sq" and "ConsumeOneAvailableOtpLocked sq u v now d = (r, d')"
  shows "case r of None \<Rightarrow> d' = d
    | Some p \<Rightarrow> pr_prekey_id p \<notin> consumed_ids d \<and> consumed_ids d' = insert (pr_prekey_id p) (consumed_ids d)"
  using assms(1,2)
proof (cases rule: ConsumeOneAvailableOtpLocked_cases [where u = u and v = v and now = now])
  case empty
  with assms(3) show ?thesis by simp
next
  case (key row d1)
  have only: "p = row" if "p \<in> set (one_time_prekeys d)" "pk_prekey_id p = pk_prekey_id row" for p
    using key_eq [OF prekeys_distinct [OF assms(1)] that(1) key(1) that(2)] .
  have "pk_consumed_at row = None" using key(2) by (simp add: available_def)
  then have "pk_prekey_id row \<notin> consumed_ids d" using only by (auto simp: consumed_ids_iff)
  moreover have "i \<in> consumed_ids d1 \<longleftrightarrow> i = pk_prekey_id row \<or> i \<in> consumed_ids d" for i
    unfolding consumed_ids_iff key(3)
    using key(1) only \<open>pk_consumed_at row = None\<close>
    by (auto simp: bex_sql_update)
  then have "consumed_ids d1 = insert (pk_prekey_id row) (consumed_ids d)" by blast
  ultimately show ?thesis using key(3,4) assms(3) by auto
qed

lemma prekey_step_consumed:
  assumes "db_ok d" and "sqlite_ok sq" and "prekey_step sq c d = (r, d')"
  shows "db_ok d' \<and> (case r of None \<Rightarrow> consumed_ids d' = consumed_ids d
    | Some i \<Rightarrow> i \<notin> consumed_ids d \<and> consumed_ids d' = insert i (consumed_ids d))"
proof (cases c)
  case (Bundle u v now)
  obtain r1 d1 where c: "ConsumeOneAvailableOtpLocked sq u v now d = (r1, d1)" by (rule prod.exhaust)
  have ok: "db_ok d1" using ConsumeOneAvailableOtpLocked_keeps [OF assms(1), of sq u v now] c by simp
  show ?thesis
  proof (cases "\<exists>dev. FindByUserAndDevice u v d = Some dev \<and> d_revoked_at dev = None")
    case True
    then obtain dev where "FindByUserAndDevice u v d = Some dev" "d_revoked_at dev = None" by blast
    then have "r = map_option pr_prekey_id r1 \<and> d' = d1"
      using Bundle assms(3) c by (simp add: GetPrekeyBundle_def)
    with Consume_step [OF assms(1,2) c] ok show ?thesis by (cases r1) simp_all
  next
    case False
    then have "r = None \<and> d' = d"
      using Bundle assms(3) by (simp add: GetPrekeyBundle_def unexpected_def split: option.splits)
    with assms(1) show ?thesis by simp
  qed
next
  case (Consume u v now)
  obtain r1 d1 where c: "ConsumeOneAvailableOtpLocked sq u v now d = (r1, d1)" by (rule prod.exhaust)
  have ok: "db_ok d1" using ConsumeOneAvailableOtpLocked_keeps [OF assms(1), of sq u v now] c by simp
  have "r = map_option pr_prekey_id r1 \<and> d' = d1"
    using Consume assms(3) c Consume_step [OF assms(1,2) c]
    by (cases r1) (simp_all add: ConsumeOneTimePrekey_def unexpected_def)
  with Consume_step [OF assms(1,2) c] ok show ?thesis by (cases r1) simp_all
next
  case (Store u v ps now)
  have eq: "r = None" "d' = snd (StorePrekeys sq u v ps now d)" using Store assms(3) by simp_all
  have "consumed_ids d' = consumed_ids d"
    unfolding eq(2) using insert_prekeys_consumed [of u v ps d]
    by (cases "insert_prekeys u v ps d") (simp_all add: StorePrekeys_def)
  with eq StorePrekeys_keeps [OF assms(1), of sq u v ps now] show ?thesis by simp
qed

lemma handed_out_fresh:
  assumes "db_ok d" and "sqlite_ok sq"
  shows "distinct (handed_out sq cs d) \<and> set (handed_out sq cs d) \<inter> consumed_ids d = {}"
  using assms(1)
proof (induction cs arbitrary: d)
  case (Cons c cs)
  obtain r d' where step: "prekey_step sq c d = (r, d')" by (rule prod.exhaust)
  from prekey_step_consumed [OF Cons.prems assms(2) step] Cons.IH [of d'] step
  show ?case by (cases r) auto
qed simp



end
