(* ===== verification/Pagination.thy ===== *)
theory Pagination
  imports Vox_Prelude
begin

text \<open>
  Keyset pagination, the contract behind the cursors of the server. A client asks for the
  first page with an empty cursor and for the next page with the cursor of the last one, as
  long as the server says that there is more. The locale states what one page returns in terms
  of a key that is unique among the rows; the lemma shows that a client that follows the
  cursors sees every row exactly once, in the order of the key, whatever page size it asks for.
\<close>

section \<open>Sorting rows with unique keys\<close>

lemma sort_key_mset:
  assumes "mset xs = mset ys" and "distinct (map k xs)"
  shows "sort_key k xs = sort_key k ys"
proof (rule sort_key_inj_key_eq)
  show "mset xs = mset (sort_key k ys)" using assms(1) by simp
  show "inj_on k (set xs)" using assms(2) by (simp add: distinct_map)
  show "sorted (map k (sort_key k ys))" by simp
qed

lemma filter_greater_sorted:
  assumes "sorted (map k xs)" and "distinct (map k xs)" and "0 < n" and "n \<le> length xs"
  shows "filter (\<lambda>r. k (xs ! (n - 1)) < k r) xs = drop n xs"
proof -
  have ij: "i < j \<Longrightarrow> j < length xs \<Longrightarrow> k (xs ! i) < k (xs ! j)" for i j
  proof -
    assume *: "i < j" "j < length xs"
    then have "k (xs ! i) \<le> k (xs ! j)" using assms(1) sorted_nth_mono [of "map k xs" i j] by simp
    moreover have "k (xs ! i) \<noteq> k (xs ! j)"
      using * nth_eq_iff_index_eq [OF assms(2), of i j] by simp
    ultimately show ?thesis by simp
  qed
  have "filter (\<lambda>r. k (xs ! (n - 1)) < k r) (take n xs) = []"
  proof -
    have "\<not> k (xs ! (n - 1)) < k (xs ! i)" if "i < n" for i
      using that assms(3,4) ij [of i "n - 1"] by (cases "i = n - 1") (auto simp: not_less less_imp_le)
    then show ?thesis using assms(4) by (auto simp: filter_empty_conv in_set_conv_nth)
  qed
  moreover have "filter (\<lambda>r. k (xs ! (n - 1)) < k r) (drop n xs) = drop n xs"
  proof -
    have "k (xs ! (n - 1)) < k (xs ! (n + i))" if "n + i < length xs" for i
      using that assms(3) by (intro ij) auto
    then show ?thesis using assms(4) by (auto simp: filter_id_conv in_set_conv_nth)
  qed
  ultimately show ?thesis by (metis append_take_drop_id filter_append self_append_conv2)
qed

section \<open>Following the cursors\<close>

text \<open>
  A page is its rows, the cursor for the next page and whether there is more. \<open>None\<close> means
  that the fuel did not suffice.
\<close>

fun walk :: "('c \<Rightarrow> 'r list \<times> 'c \<times> bool) \<Rightarrow> nat \<Rightarrow> 'c \<Rightarrow> 'r list option" where
  "walk page 0 cursor = None"
| "walk page (Suc fuel) cursor =
     (case page cursor of (rows, next_cursor, more) \<Rightarrow>
        if more then map_option ((@) rows) (walk page fuel next_cursor) else Some rows)"

lemma walk_more_fuel: "walk page n c = Some rs \<Longrightarrow> n \<le> m \<Longrightarrow> walk page m c = Some rs"
proof (induction page n c arbitrary: m rs rule: walk.induct)
  case (2 page fuel cursor)
  obtain rows nc more where p: "page cursor = (rows, nc, more)" by (cases "page cursor") auto
  obtain m' where m: "m = Suc m'" using 2(3) by (cases m) auto
  show ?case
  proof (cases more)
    case True
    then obtain rs' where "walk page fuel nc = Some rs'" "rs = rows @ rs'" using 2(2) p by auto
    with 2(1) [OF p [symmetric] refl True] 2(3) True p m show ?thesis by simp
  qed (use 2(2) p m in simp)
qed simp

locale keyset_pagination =
  fixes inv :: "'st \<Rightarrow> bool"
    and rows :: "'st \<Rightarrow> 'r list"
    and key :: "'r \<Rightarrow> 'k::linorder"
    and start :: 'c
    and cursor_of :: "'k \<Rightarrow> 'c"
    and page :: "'st \<Rightarrow> nat \<Rightarrow> 'c \<Rightarrow> 'r list \<times> 'c \<times> bool"
    and max_limit :: nat
  assumes unique: "inv st \<Longrightarrow> distinct (map key (rows st))"
    and first_page: "inv st \<Longrightarrow> 0 < n \<Longrightarrow> n < max_limit \<Longrightarrow>
        fst (page st n start) = take n (sort_key key (rows st))"
      "inv st \<Longrightarrow> 0 < n \<Longrightarrow> n < max_limit \<Longrightarrow>
        snd (snd (page st n start)) \<longleftrightarrow> n < length (rows st)"
    and next_page: "inv st \<Longrightarrow> 0 < n \<Longrightarrow> n < max_limit \<Longrightarrow> r \<in> set (rows st) \<Longrightarrow>
        fst (page st n (cursor_of (key r))) =
          take n (sort_key key (filter (\<lambda>s. key r < key s) (rows st)))"
      "inv st \<Longrightarrow> 0 < n \<Longrightarrow> n < max_limit \<Longrightarrow> r \<in> set (rows st) \<Longrightarrow>
        snd (snd (page st n (cursor_of (key r)))) \<longleftrightarrow>
          n < length (filter (\<lambda>s. key r < key s) (rows st))"
    and next_cursor: "fst (page st n c) \<noteq> [] \<Longrightarrow>
        fst (snd (page st n c)) = cursor_of (key (last (fst (page st n c))))"
begin

lemma page_from:
  assumes st: "inv st" "0 < n" "n < max_limit" and m: "0 < m" "m \<le> length (rows st)"
  defines "c \<equiv> cursor_of (key (sort_key key (rows st) ! (m - 1)))"
  shows "fst (page st n c) = take n (drop m (sort_key key (rows st)))"
    and "snd (snd (page st n c)) \<longleftrightarrow> n < length (rows st) - m"
proof -
  let ?s = "sort_key key (rows st)"
  have r: "?s ! (m - 1) \<in> set (rows st)" using m by (metis One_nat_def diff_less length_sort
        less_le_trans nth_mem set_sort zero_less_one)
  have d: "distinct (map key ?s)" using unique [OF st(1)] by (metis distinct_map distinct_sort set_sort)
  have *: "filter (\<lambda>s. key (?s ! (m - 1)) < key s) ?s = drop m ?s"
    using m by (intro filter_greater_sorted [OF _ d]) simp_all
  have "sort_key key (filter (\<lambda>s. key (?s ! (m - 1)) < key s) (rows st)) = drop m ?s"
    by (metis * filter_sort)
  then show "fst (page st n c) = take n (drop m ?s)"
    unfolding c_def next_page(1) [OF st r] by simp
  have "length (filter (\<lambda>s. key (?s ! (m - 1)) < key s) (rows st)) =
      length (filter (\<lambda>s. key (?s ! (m - 1)) < key s) ?s)"
    by (metis filter_sort length_sort)
  also have "\<dots> = length (rows st) - m" unfolding * by simp
  finally show "snd (snd (page st n c)) \<longleftrightarrow> n < length (rows st) - m"
    unfolding c_def next_page(2) [OF st r] by simp
qed

lemma walk_from:
  assumes st: "inv st" "0 < n" "n < max_limit"
    and "0 < m" and "m \<le> length (rows st)" and "length (rows st) - m < fuel"
  shows "walk (page st n) fuel (cursor_of (key (sort_key key (rows st) ! (m - 1)))) =
    Some (drop m (sort_key key (rows st)))"
  using assms(4-)
proof (induction fuel arbitrary: m)
  case (Suc fuel)
  let ?s = "sort_key key (rows st)" and ?c = "cursor_of (key (sort_key key (rows st) ! (m - 1)))"
  obtain rs nc more where p: "page st n ?c = (rs, nc, more)" by (cases "page st n ?c") auto
  have rs: "rs = take n (drop m ?s)" and more: "more \<longleftrightarrow> n < length (rows st) - m"
    using page_from [OF st Suc.prems(1,2)] p by simp_all
  show ?case
  proof (cases more)
    case False
    then have "take n (drop m ?s) = drop m ?s" using more by simp
    with p rs False show ?thesis by simp
  next
    case True
    then have lt: "n < length (rows st) - m" using more by simp
    then have "length rs = n" using rs by simp
    then have "rs \<noteq> []" using st(2) by auto
    then have "nc = cursor_of (key (last rs))" using next_cursor [of st n ?c] p by simp
    also have "last rs = ?s ! (m + n - 1)"
      using \<open>rs \<noteq> []\<close> lt st(2) by (simp add: rs last_conv_nth)
    finally have nc: "nc = cursor_of (key (?s ! (m + n - 1)))" .
    have "walk (page st n) fuel nc = Some (drop (m + n) ?s)"
      unfolding nc using lt st(2) Suc.prems by (intro Suc.IH) simp_all
    moreover have "take n (drop m ?s) @ drop (m + n) ?s = drop m ?s"
      using append_take_drop_id [of n "drop m ?s"] by (simp add: add.commute)
    ultimately show ?thesis using True p rs by simp
  qed
qed simp

lemma walk_complete:
  assumes st: "inv st" "0 < n" "n < max_limit"
  shows "walk (page st n) (Suc (length (rows st))) start = Some (sort_key key (rows st))"
proof -
  let ?s = "sort_key key (rows st)"
  obtain rs nc more where p: "page st n start = (rs, nc, more)" by (cases "page st n start") auto
  have rs: "rs = take n ?s" and more: "more \<longleftrightarrow> n < length (rows st)"
    using first_page [OF st] p by simp_all
  show ?thesis
  proof (cases more)
    case False
    then show ?thesis using p rs more by simp
  next
    case True
    then have lt: "n < length (rows st)" using more by simp
    then have "length rs = n" using rs by simp
    then have "rs \<noteq> []" using st(2) by auto
    then have "nc = cursor_of (key (last rs))" using next_cursor [of st n start] p by simp
    also have "last rs = ?s ! (n - 1)"
      using \<open>rs \<noteq> []\<close> lt st(2) by (simp add: rs last_conv_nth)
    finally have nc: "nc = cursor_of (key (?s ! (n - 1)))" .
    have "walk (page st n) (length (rows st)) nc = Some (drop n ?s)"
      unfolding nc using lt st by (intro walk_from) simp_all
    then show ?thesis using True p rs by simp
  qed
qed

end

end
