(* ===== verification/Envelope_Repository.thy ===== *)
theory Envelope_Repository
  imports Conversation_Repository Device_Repository Pagination
begin

text \<open>
  \<open>EnvelopeRepository\<close> (\<open>lib/vox_store/envelope_repository.cpp\<close>): encrypted envelopes, the
  delivery state of an envelope for each target device, and the paged queries with their
  textual cursors. The two paged queries satisfy the contract of \<open>Pagination\<close>, so a client
  that follows \<open>next_cursor\<close> sees every envelope exactly once.
\<close>

section \<open>Operations\<close>

record EnvelopePage =
  ep_envelopes :: "EnvelopeRecord list"
  ep_next_cursor :: string
  ep_has_more :: bool

definition MakeEnvCursor :: "Timestamp \<Rightarrow> EnvelopeId \<Rightarrow> string" where
  "MakeEnvCursor ts eid = show_int ts @ CHR ''|'' # eid"

definition ParseEnvCursor :: "string \<Rightarrow> (Timestamp \<times> EnvelopeId) option" where
  "ParseEnvCursor cursor =
     (if cursor = [] then Some (0, [])
      else case split_at_char (CHR ''|'') cursor of
             None \<Rightarrow> None
           | Some (ts, eid) \<Rightarrow>
               if ts = [] then None
               else case stoll ts of
                      None \<Rightarrow> None
                    | Some out_ts \<Rightarrow> if eid = [] then None else Some (out_ts, eid))"

definition StoreEnvelope :: "EnvelopeRecord \<Rightarrow> db \<Rightarrow> VoidResult \<times> db" where
  "StoreEnvelope envelope d =
     (case insert_envelope envelope d of
        None \<Rightarrow> (unexpected kDuplicate ''Envelope already exists'', d)
      | Some d' \<Rightarrow> (Inr (), d'))"

definition AddDeliveryState ::
    "sqlite \<Rightarrow> EnvelopeId \<Rightarrow> UserId \<Rightarrow> DeviceId \<Rightarrow> Timestamp \<Rightarrow> db \<Rightarrow> VoidResult \<times> db" where
  "AddDeliveryState sq envelope_id target_user_id target_device_id now d =
     (case insert_delivery \<lparr>ds_envelope_id = envelope_id, ds_target_user_id = target_user_id,
             ds_target_device_id = target_device_id, ds_queued_at = now, ds_delivered_at = None,
             ds_acked_at = None\<rparr> d of
        None \<Rightarrow> (unexpected kInternal (what sq), d)
      | Some d' \<Rightarrow> (Inr (), d'))"

definition pending_for :: "UserId \<Rightarrow> DeviceId \<Rightarrow> DeliveryStateRecord \<Rightarrow> bool" where
  "pending_for user_id device_id s \<longleftrightarrow> ds_dev s = (user_id, device_id) \<and>
     ds_delivered_at s = None \<and> ds_acked_at s = None"

text \<open>The rows of \<open>encrypted_envelopes e JOIN delivery_state d\<close> that are pending for a device.\<close>

definition pending_join :: "UserId \<Rightarrow> DeviceId \<Rightarrow> db \<Rightarrow> EnvelopeRecord list" where
  "pending_join user_id device_id d =
     concat (map (\<lambda>e. map (\<lambda>_. e) (filter (\<lambda>s. ds_envelope_id s = e_envelope_id e \<and>
        pending_for user_id device_id s) (delivery_state d))) (encrypted_envelopes d))"

definition GetPendingForDevice :: "sqlite \<Rightarrow> UserId \<Rightarrow> DeviceId \<Rightarrow> nat \<Rightarrow> db \<Rightarrow> EnvelopeRecord list" where
  "GetPendingForDevice sq user_id device_id limit d =
     sql_limit (size_to_i64 limit)
       (sql_order_by e_server_timestamp (scan_envelopes sq (pending_join user_id device_id d)))"

definition env_key :: "EnvelopeRecord \<Rightarrow> Timestamp \<times> EnvelopeId" where
  "env_key e = (e_server_timestamp e, e_envelope_id e)"

text \<open>
  The part that the two paged queries have in common: rows after the cursor in the order of
  time and id, one row more than the limit to see whether there is another page.
\<close>

definition after_cursor :: "string \<Rightarrow> Timestamp \<times> EnvelopeId \<Rightarrow> EnvelopeRecord \<Rightarrow> bool" where
  "after_cursor cursor k e \<longleftrightarrow> cursor = [] \<or> fst k < e_server_timestamp e \<or>
     (e_server_timestamp e = fst k \<and> snd k < e_envelope_id e)"

definition env_page :: "sqlite \<Rightarrow> EnvelopeRecord list \<Rightarrow> string \<Rightarrow> nat \<Rightarrow> EnvelopePage" where
  "env_page sq rows cursor limit =
     (case (if cursor = [] then Some (0, []) else ParseEnvCursor cursor) of
        None \<Rightarrow> \<lparr>ep_envelopes = [], ep_next_cursor = [], ep_has_more = False\<rparr>
      | Some k \<Rightarrow>
          let found = sql_limit (size_to_i64 (usize (limit + 1)))
                (sql_order_by env_key (scan_envelopes sq (filter (after_cursor cursor k) rows)));
              has_more = (length found > limit);
              envelopes = (if has_more then butlast found else found)
          in \<lparr>ep_envelopes = envelopes,
              ep_next_cursor = (if envelopes = [] then []
                else MakeEnvCursor (e_server_timestamp (last envelopes)) (e_envelope_id (last envelopes))),
              ep_has_more = has_more\<rparr>)"

definition GetPendingForDeviceCursored ::
    "sqlite \<Rightarrow> UserId \<Rightarrow> DeviceId \<Rightarrow> string \<Rightarrow> nat \<Rightarrow> db \<Rightarrow> EnvelopePage" where
  "GetPendingForDeviceCursored sq user_id device_id cursor limit d =
     env_page sq (pending_join user_id device_id d) cursor limit"

definition ListForConversation ::
    "sqlite \<Rightarrow> ConversationId \<Rightarrow> Timestamp \<Rightarrow> nat \<Rightarrow> db \<Rightarrow> EnvelopeRecord list" where
  "ListForConversation sq conversation_id since_exclusive limit d =
     sql_limit (size_to_i64 limit) (sql_order_by e_server_timestamp (scan_envelopes sq
       (filter (\<lambda>e. e_conversation_id e = conversation_id \<and> e_server_timestamp e > since_exclusive)
         (encrypted_envelopes d))))"

definition ListForConversationCursored ::
    "sqlite \<Rightarrow> ConversationId \<Rightarrow> string \<Rightarrow> nat \<Rightarrow> db \<Rightarrow> EnvelopePage" where
  "ListForConversationCursored sq conversation_id cursor limit d =
     env_page sq (filter (\<lambda>e. e_conversation_id e = conversation_id) (encrypted_envelopes d))
       cursor limit"

definition update_delivery ::
    "(DeliveryStateRecord \<Rightarrow> DeliveryStateRecord) \<Rightarrow> EnvelopeId \<Rightarrow> UserId \<Rightarrow> DeviceId \<Rightarrow> db \<Rightarrow>
     VoidResult \<times> db" where
  "update_delivery f envelope_id user_id device_id d =
     (let P = (\<lambda>s. ds_key s = (envelope_id, user_id, device_id));
          d' = d\<lparr>delivery_state := sql_update P f (delivery_state d)\<rparr>
      in if sql_count P (delivery_state d) = 0
         then (unexpected kNotFound ''Delivery state not found'', d') else (Inr (), d'))"

definition MarkDelivered :: "EnvelopeId \<Rightarrow> UserId \<Rightarrow> DeviceId \<Rightarrow> Timestamp \<Rightarrow> db \<Rightarrow> VoidResult \<times> db" where
  "MarkDelivered envelope_id user_id device_id now d =
     update_delivery (\<lambda>s. s\<lparr>ds_delivered_at := Some now\<rparr>) envelope_id user_id device_id d"

definition MarkAcked :: "EnvelopeId \<Rightarrow> UserId \<Rightarrow> DeviceId \<Rightarrow> Timestamp \<Rightarrow> db \<Rightarrow> VoidResult \<times> db" where
  "MarkAcked envelope_id user_id device_id now d =
     update_delivery (\<lambda>s. s\<lparr>ds_acked_at := Some now\<rparr>) envelope_id user_id device_id d"

definition DeletePendingDeliveryForUserInConversation ::
    "ConversationId \<Rightarrow> UserId \<Rightarrow> db \<Rightarrow> VoidResult \<times> db" where
  "DeletePendingDeliveryForUserInConversation conversation_id user_id d =
     (Inr (), d\<lparr>delivery_state := sql_delete (\<lambda>s. ds_target_user_id s = user_id \<and>
        ds_envelope_id s \<in> set (map e_envelope_id
          (filter (\<lambda>e. e_conversation_id e = conversation_id) (encrypted_envelopes d))))
        (delivery_state d)\<rparr>)"

definition env_expired :: "Timestamp \<Rightarrow> EnvelopeRecord \<Rightarrow> bool" where
  "env_expired now e \<longleftrightarrow> (case e_retention_until e of None \<Rightarrow> False | Some t \<Rightarrow> t < now)"

text \<open>\<open>DeleteExpired\<close> throws (\<open>None\<close>) where the second DELETE breaks a foreign key.\<close>

definition Env_DeleteExpired :: "Timestamp \<Rightarrow> db \<Rightarrow> (int \<times> db) option" where
  "Env_DeleteExpired now d =
     (let d1 = d\<lparr>delivery_state := sql_delete (\<lambda>s. ds_envelope_id s \<in> set (map e_envelope_id
               (filter (env_expired now) (encrypted_envelopes d)))) (delivery_state d)\<rparr>
      in map_option (\<lambda>d2. (int (sql_count (env_expired now) (encrypted_envelopes d)), d2))
           (delete_envelopes (env_expired now) d1))"

definition CheckDuplicate :: "EnvelopeId \<Rightarrow> db \<Rightarrow> bool" where
  "CheckDuplicate envelope_id d \<longleftrightarrow>
     filter (\<lambda>e. e_envelope_id e = envelope_id) (encrypted_envelopes d) \<noteq> []"

definition Env_FindById :: "EnvelopeId \<Rightarrow> db \<Rightarrow> EnvelopeRecord option" where
  "Env_FindById envelope_id d =
     first_row (filter (\<lambda>e. e_envelope_id e = envelope_id) (encrypted_envelopes d))"

definition CountPendingForDevice :: "UserId \<Rightarrow> DeviceId \<Rightarrow> db \<Rightarrow> nat" where
  "CountPendingForDevice user_id device_id d = sql_count (pending_for user_id device_id) (delivery_state d)"

section \<open>Constraints kept\<close>

lemma StoreEnvelope_keeps [keeps]: "db_ok d \<Longrightarrow> db_ok (snd (StoreEnvelope e d))"
  by (simp add: StoreEnvelope_def insert_envelope_ok split: option.split)

lemma AddDeliveryState_keeps [keeps]: "db_ok d \<Longrightarrow> db_ok (snd (AddDeliveryState sq e u v now d))"
  by (simp add: AddDeliveryState_def insert_delivery_ok split: option.split)

lemma update_delivery_keeps:
  "db_ok d \<Longrightarrow> (\<And>s. ds_key (f s) = ds_key s) \<Longrightarrow> db_ok (snd (update_delivery f e u v d))"
  by (simp add: update_delivery_def Let_def db_ok_delivery sql_simps)

lemma Mark_keeps [keeps]:
  "db_ok d \<Longrightarrow> db_ok (snd (MarkDelivered e u v now d))" "db_ok d \<Longrightarrow> db_ok (snd (MarkAcked e u v now d))"
  by (simp_all add: MarkDelivered_def MarkAcked_def update_delivery_keeps ds_key_def)

lemma DeletePendingDelivery_keeps [keeps]:
  "db_ok d \<Longrightarrow> db_ok (snd (DeletePendingDeliveryForUserInConversation c u d))"
  by (simp add: DeletePendingDeliveryForUserInConversation_def db_ok_delete)

text \<open>The delivery states go first, so the purge of expired envelopes never throws.\<close>

lemma Env_DeleteExpired_Some:
  assumes "db_ok d"
  obtains n d' where "Env_DeleteExpired now d = Some (n, d')" "db_ok d'"
    "encrypted_envelopes d' = filter (\<lambda>e. \<not> env_expired now e) (encrypted_envelopes d)"
    "set (delivery_state d') = {s \<in> set (delivery_state d). \<exists>e \<in> set (encrypted_envelopes d).
       e_envelope_id e = ds_envelope_id s \<and> \<not> env_expired now e}"
    "attachment_metadata d' = attachment_metadata d"
proof -
  define d1 where "d1 = d\<lparr>delivery_state := sql_delete (\<lambda>s. ds_envelope_id s \<in> set (map e_envelope_id
    (filter (env_expired now) (encrypted_envelopes d)))) (delivery_state d)\<rparr>"
  define d2 where "d2 = d1\<lparr>encrypted_envelopes := sql_delete (env_expired now) (encrypted_envelopes d1)\<rparr>"
  have ok1: "db_ok d1" unfolding d1_def using assms by (simp add: db_ok_delete)
  have keys: "distinct (envelope_keys d)" using assms by (simp add: db_ok_def envelopes_ok_def)
  have parent: "\<exists>e \<in> set (encrypted_envelopes d). e_envelope_id e = ds_envelope_id s"
    if "s \<in> set (delivery_state d)" for s
    using db_ok_fks(12) [OF assms that] by auto
  have in1: "s \<in> set (delivery_state d1) \<longleftrightarrow> s \<in> set (delivery_state d) \<and>
      (\<exists>e \<in> set (encrypted_envelopes d). e_envelope_id e = ds_envelope_id s \<and> \<not> env_expired now e)" for s
  proof (cases "s \<in> set (delivery_state d)")
    case True
    then obtain e where e: "e \<in> set (encrypted_envelopes d)" "e_envelope_id e = ds_envelope_id s"
      using parent by blast
    have u: "e' = e" if "e' \<in> set (encrypted_envelopes d)" "e_envelope_id e' = ds_envelope_id s" for e'
      using key_eq [OF keys that(1) e(1)] that(2) e(2) by simp
    have "s \<in> set (delivery_state d1) \<longleftrightarrow>
        \<not> (\<exists>e' \<in> set (encrypted_envelopes d). env_expired now e' \<and> e_envelope_id e' = ds_envelope_id s)"
      using True by (simp add: d1_def sql_simps image_iff) metis
    with True e u show ?thesis by blast
  qed (simp add: d1_def sql_simps)
  have "ds_envelope_id s \<in> set (envelope_keys d2)" if "s \<in> set (delivery_state d1)" for s
    using that unfolding in1 in_set_map by (auto simp: d2_def d1_def sql_simps)
  then have sub: "set (map ds_envelope_id (delivery_state d1)) \<subseteq> set (envelope_keys d2)" by auto
  then have del:
    "delete_envelopes (env_expired now) d1 = Some d2"
    by (simp add: delete_envelopes_def Let_def d2_def d1_def)
  have "set (delivery_state d2) = {s \<in> set (delivery_state d). \<exists>e \<in> set (encrypted_envelopes d).
      e_envelope_id e = ds_envelope_id s \<and> \<not> env_expired now e}"
    using in1 by (auto simp: d2_def)
  moreover have "encrypted_envelopes d2 = filter (\<lambda>e. \<not> env_expired now e) (encrypted_envelopes d)"
    by (simp add: d2_def d1_def sql_delete_def)
  moreover have "db_ok d2" using delete_envelopes_ok [OF del ok1] .
  moreover have "attachment_metadata d2 = attachment_metadata d" by (simp add: d2_def d1_def)
  ultimately show thesis
    using that del by (simp add: Env_DeleteExpired_def Let_def d1_def)
qed

section \<open>Cursors\<close>

text \<open>The cursor of a page reads back as the time and id of its last envelope.\<close>

lemma ParseEnvCursor_MakeEnvCursor:
  assumes "in_i64 ts" and "eid \<noteq> []"
  shows "ParseEnvCursor (MakeEnvCursor ts eid) = Some (ts, eid)"
  using assms by (simp add: ParseEnvCursor_def MakeEnvCursor_def)

lemma MakeEnvCursor_nonempty [simp]: "MakeEnvCursor ts eid \<noteq> []"
  by (simp add: MakeEnvCursor_def)

lemma after_cursor_key:
  "cursor \<noteq> [] \<Longrightarrow> after_cursor cursor k = (\<lambda>e. k < env_key e)"
  by (cases k) (auto simp: fun_eq_iff after_cursor_def env_key_def less_prod_def)

lemma after_cursor_Nil [simp]: "after_cursor [] k e"
  by (simp add: after_cursor_def)

section \<open>Pages\<close>

text \<open>
  \<open>readable\<close> are the envelopes whose cursor reads back: a time that fits 64 bits and an id.
\<close>

definition readable :: "EnvelopeRecord \<Rightarrow> bool" where
  "readable e \<longleftrightarrow> in_i64 (e_server_timestamp e) \<and> e_envelope_id e \<noteq> []"

definition page_view :: "EnvelopePage \<Rightarrow> EnvelopeRecord list \<times> string \<times> bool" where
  "page_view p = (ep_envelopes p, ep_next_cursor p, ep_has_more p)"

definition env_cursor :: "Timestamp \<times> EnvelopeId \<Rightarrow> string" where
  "env_cursor k = MakeEnvCursor (fst k) (snd k)"

definition max_page :: nat where
  "max_page = 2 ^ 63 - 1"

lemma env_page_rows:
  assumes sq: "sqlite_ok sq" and dist: "distinct (map env_key rows)" and n: "n < max_page"
    and k: "(if cursor = [] then Some (0, []) else ParseEnvCursor cursor) = Some k"
  defines "sel \<equiv> filter (after_cursor cursor k) rows"
  shows "ep_envelopes (env_page sq rows cursor n) = take n (sort_key env_key sel)"
    and "ep_has_more (env_page sq rows cursor n) \<longleftrightarrow> n < length sel"
proof -
  let ?s = "sort_key env_key sel"
  have "mset (scan_envelopes sq sel) = mset sel" using sq by (simp add: sqlite_ok_def)
  moreover have "distinct (map env_key sel)" using dist by (simp add: sel_def distinct_map_filter)
  ultimately have sort: "sql_order_by env_key (scan_envelopes sq sel) = ?s"
    unfolding sql_order_by_def by (metis sort_key_mset)
  have "Suc n < 2 ^ 63" using n by (simp add: max_page_def)
  then have lim: "size_to_i64 (usize (n + 1)) = int (Suc n)"
    by (simp add: size_to_i64_id usize_def)
  have found: "sql_limit (size_to_i64 (usize (n + 1))) ?s = take (Suc n) ?s"
    unfolding lim sql_limit_def nat_int by simp
  have more: "n < length (take (Suc n) ?s) \<longleftrightarrow> n < length sel" by auto
  have cut: "(if n < length sel then butlast (take (Suc n) ?s) else take (Suc n) ?s) = take n ?s"
    by (auto simp: butlast_take)
  have "env_page sq rows cursor n = \<lparr>ep_envelopes = take n ?s,
      ep_next_cursor = (if take n ?s = [] then []
        else MakeEnvCursor (e_server_timestamp (last (take n ?s))) (e_envelope_id (last (take n ?s)))),
      ep_has_more = (n < length sel)\<rparr>"
    unfolding env_page_def k option.case Let_def sel_def [symmetric] sort found more cut ..
  then show "ep_envelopes (env_page sq rows cursor n) = take n ?s"
    "ep_has_more (env_page sq rows cursor n) \<longleftrightarrow> n < length sel"
    by simp_all
qed

lemma env_page_next:
  "ep_envelopes (env_page sq rows cursor n) \<noteq> [] \<Longrightarrow>
     ep_next_cursor (env_page sq rows cursor n) = env_cursor (env_key (last (ep_envelopes (env_page sq rows cursor n))))"
proof (cases "if cursor = [] then Some (0, []) else ParseEnvCursor cursor")
  case None
  assume "ep_envelopes (env_page sq rows cursor n) \<noteq> []"
  then show ?thesis unfolding env_page_def None by simp
next
  case (Some k)
  assume "ep_envelopes (env_page sq rows cursor n) \<noteq> []"
  then show ?thesis
    unfolding env_page_def Some option.case Let_def EnvelopePage.select_convs env_cursor_def env_key_def
      fst_conv snd_conv by (simp only: if_False)
qed

lemma env_page_first:
  assumes "sqlite_ok sq" "distinct (map env_key rows)" "n < max_page"
  shows "ep_envelopes (env_page sq rows [] n) = take n (sort_key env_key rows)"
    and "ep_has_more (env_page sq rows [] n) \<longleftrightarrow> n < length rows"
  using env_page_rows [OF assms, of "[]" "(0, [])"] by simp_all

lemma env_page_later:
  assumes "sqlite_ok sq" "distinct (map env_key rows)" "n < max_page" "readable r"
  shows "ep_envelopes (env_page sq rows (env_cursor (env_key r)) n) =
      take n (sort_key env_key (filter (\<lambda>s. env_key r < env_key s) rows))"
    and "ep_has_more (env_page sq rows (env_cursor (env_key r)) n) \<longleftrightarrow>
      n < length (filter (\<lambda>s. env_key r < env_key s) rows)"
proof -
  have "ParseEnvCursor (env_cursor (env_key r)) = Some (env_key r)"
    using assms(4) by (simp add: env_cursor_def env_key_def readable_def ParseEnvCursor_MakeEnvCursor)
  moreover have "env_cursor (env_key r) \<noteq> []" by (simp add: env_cursor_def)
  ultimately show "ep_envelopes (env_page sq rows (env_cursor (env_key r)) n) =
      take n (sort_key env_key (filter (\<lambda>s. env_key r < env_key s) rows))"
    "ep_has_more (env_page sq rows (env_cursor (env_key r)) n) \<longleftrightarrow>
      n < length (filter (\<lambda>s. env_key r < env_key s) rows)"
    using env_page_rows [OF assms(1-3), of "env_cursor (env_key r)" "env_key r"]
    by (simp_all add: after_cursor_key)
qed

lemma envelopes_distinct: "db_ok d \<Longrightarrow> distinct (envelope_keys d)"
  by (simp add: db_ok_def envelopes_ok_def)

lemma distinct_env_key: "distinct (map e_envelope_id t) \<Longrightarrow> distinct (map env_key t)"
  by (auto simp: distinct_map inj_on_def env_key_def)

lemma concat_single:
  "(\<And>e. length (xs e) \<le> 1) \<Longrightarrow>
     concat (map (\<lambda>e. map (\<lambda>_. e) (xs e)) es) = filter (\<lambda>e. xs e \<noteq> []) es"
proof (induction es)
  case (Cons e es)
  then show ?case using Cons.prems [of e] by (cases "xs e") auto
qed simp

lemma pending_join_filter:
  assumes "db_ok d"
  shows "pending_join u v d = filter (\<lambda>e. \<exists>s \<in> set (delivery_state d).
    ds_envelope_id s = e_envelope_id e \<and> pending_for u v s) (encrypted_envelopes d)"
proof -
  let ?xs = "\<lambda>e. filter (\<lambda>s. ds_envelope_id s = e_envelope_id e \<and> pending_for u v s) (delivery_state d)"
  have keys: "distinct (map ds_key (delivery_state d))"
    using assms by (simp add: db_ok_def delivery_ok_def)
  have "length (?xs e) \<le> 1" for e
  proof (cases "?xs e")
    case (Cons s ss)
    then have "s \<in> set (?xs e)" by simp
    then have s: "s \<in> set (delivery_state d)" "ds_envelope_id s = e_envelope_id e" "pending_for u v s"
      by simp_all
    have "?xs e = [s]"
      using s by (intro filter_unique [OF keys s(1)]) (auto simp: pending_for_def ds_key_def ds_dev_def)
    then show ?thesis by simp
  qed simp
  then have "pending_join u v d = filter (\<lambda>e. ?xs e \<noteq> []) (encrypted_envelopes d)"
    unfolding pending_join_def by (rule concat_single)
  also have "\<dots> = filter (\<lambda>e. \<exists>s \<in> set (delivery_state d). ds_envelope_id s = e_envelope_id e \<and>
      pending_for u v s) (encrypted_envelopes d)"
    by (simp add: filter_empty_conv)
  finally show ?thesis .
qed

lemma pending_join_distinct: "db_ok d \<Longrightarrow> distinct (map env_key (pending_join u v d))"
  by (simp add: pending_join_filter distinct_map_filter distinct_env_key envelopes_distinct)

lemma set_pending_join: "set (pending_join u v d) \<subseteq> set (encrypted_envelopes d)"
  by (auto simp: pending_join_def)

definition pages_ok :: "sqlite \<Rightarrow> db \<Rightarrow> bool" where
  "pages_ok sq d \<longleftrightarrow> sqlite_ok sq \<and> db_ok d \<and> list_all readable (encrypted_envelopes d)"

interpretation pending: keyset_pagination "pages_ok sq" "pending_join u v" env_key "[]" env_cursor
  "\<lambda>d n c. page_view (GetPendingForDeviceCursored sq u v c n d)" max_page
proof
  fix st :: db and n :: nat and r :: EnvelopeRecord
  assume ok: "pages_ok sq st"
  then have sq: "sqlite_ok sq" and dist: "distinct (map env_key (pending_join u v st))"
    by (simp_all add: pages_ok_def pending_join_distinct)
  show "distinct (map env_key (pending_join u v st))" by (rule dist)
  assume n: "n < max_page"
  note first = env_page_first [OF sq dist n]
  show "fst (page_view (GetPendingForDeviceCursored sq u v [] n st)) =
      take n (sort_key env_key (pending_join u v st))"
    "snd (snd (page_view (GetPendingForDeviceCursored sq u v [] n st))) \<longleftrightarrow> n < length (pending_join u v st)"
    by (simp_all add: page_view_def GetPendingForDeviceCursored_def first)
  assume "r \<in> set (pending_join u v st)"
  then have "readable r" using ok set_pending_join [of u v st] by (auto simp: pages_ok_def list_all_iff)
  note later = env_page_later [OF sq dist n this]
  show "fst (page_view (GetPendingForDeviceCursored sq u v (env_cursor (env_key r)) n st)) =
      take n (sort_key env_key (filter (\<lambda>s. env_key r < env_key s) (pending_join u v st)))"
    "snd (snd (page_view (GetPendingForDeviceCursored sq u v (env_cursor (env_key r)) n st))) \<longleftrightarrow>
      n < length (filter (\<lambda>s. env_key r < env_key s) (pending_join u v st))"
    by (simp_all add: page_view_def GetPendingForDeviceCursored_def later)
qed (simp add: page_view_def GetPendingForDeviceCursored_def env_page_next)

abbreviation conversation_envelopes :: "ConversationId \<Rightarrow> db \<Rightarrow> EnvelopeRecord list" where
  "conversation_envelopes c d \<equiv> filter (\<lambda>e. e_conversation_id e = c) (encrypted_envelopes d)"

interpretation history: keyset_pagination "pages_ok sq" "conversation_envelopes c" env_key "[]" env_cursor
  "\<lambda>d n cur. page_view (ListForConversationCursored sq c cur n d)" max_page
proof
  fix st :: db and n :: nat and r :: EnvelopeRecord
  assume ok: "pages_ok sq st"
  then have sq: "sqlite_ok sq" and dist: "distinct (map env_key (conversation_envelopes c st))"
    by (simp_all add: pages_ok_def distinct_map_filter distinct_env_key envelopes_distinct)
  show "distinct (map env_key (conversation_envelopes c st))" by (rule dist)
  assume n: "n < max_page"
  note first = env_page_first [OF sq dist n]
  show "fst (page_view (ListForConversationCursored sq c [] n st)) =
      take n (sort_key env_key (conversation_envelopes c st))"
    "snd (snd (page_view (ListForConversationCursored sq c [] n st))) \<longleftrightarrow>
      n < length (conversation_envelopes c st)"
    by (simp_all add: page_view_def ListForConversationCursored_def first)
  assume "r \<in> set (conversation_envelopes c st)"
  then have "readable r" using ok by (simp add: pages_ok_def list_all_iff)
  note later = env_page_later [OF sq dist n this]
  show "fst (page_view (ListForConversationCursored sq c (env_cursor (env_key r)) n st)) =
      take n (sort_key env_key (filter (\<lambda>s. env_key r < env_key s) (conversation_envelopes c st)))"
    "snd (snd (page_view (ListForConversationCursored sq c (env_cursor (env_key r)) n st))) \<longleftrightarrow>
      n < length (filter (\<lambda>s. env_key r < env_key s) (conversation_envelopes c st))"
    by (simp_all add: page_view_def ListForConversationCursored_def later)
qed (simp add: page_view_def ListForConversationCursored_def env_page_next)

section \<open>What a client sees\<close>

text \<open>
  C11: A device that follows the cursors of its pending queue, with whatever page size, gets
  every envelope that is pending for it exactly once, in the order of time and then id, and
  the walk ends. (The list of pending envelopes bounds the number of pages.)
\<close>

theorem pending_pages_complete:
  assumes "db_ok d" and "sqlite_ok sq" and "list_all readable (encrypted_envelopes d)"
    and "0 < limit" and "limit < max_page"
  shows "\<exists>es. walk (\<lambda>c. page_view (GetPendingForDeviceCursored sq u v c limit d))
      (Suc (length (encrypted_envelopes d))) [] = Some es \<and>
    distinct es \<and> sorted (map env_key es) \<and>
    set es = {e \<in> set (encrypted_envelopes d). \<exists>s \<in> set (delivery_state d).
      ds_envelope_id s = e_envelope_id e \<and> pending_for u v s}"
proof -
  have ok: "pages_ok sq d" using assms(1-3) by (simp add: pages_ok_def)
  let ?rows = "pending_join u v d" and ?page = "\<lambda>c. page_view (GetPendingForDeviceCursored sq u v c limit d)"
  have w: "walk ?page (Suc (length ?rows)) [] = Some (sort_key env_key ?rows)"
    by (rule pending.walk_complete [OF ok assms(4,5)])
  have l: "Suc (length ?rows) \<le> Suc (length (encrypted_envelopes d))"
    by (simp add: pending_join_filter [OF assms(1)])
  have "walk ?page (Suc (length (encrypted_envelopes d))) [] = Some (sort_key env_key ?rows)"
    by (rule walk_more_fuel [OF w l])
  moreover have "distinct ?rows"
    using pending_join_distinct [OF assms(1)] by (simp add: distinct_map)
  ultimately show ?thesis
    by (intro exI [of _ "sort_key env_key ?rows"]) (simp add: pending_join_filter [OF assms(1)] del: walk.simps)
qed

text \<open>
  C31: A client that follows the cursors of a conversation's history gets every stored envelope
  of that conversation exactly once, in the order of time and then id, with whatever page size,
  and the walk ends.
\<close>

theorem history_pages_complete:
  assumes "db_ok d" and "sqlite_ok sq" and "list_all readable (encrypted_envelopes d)"
    and "0 < limit" and "limit < max_page"
  shows "\<exists>es. walk (\<lambda>cur. page_view (ListForConversationCursored sq c cur limit d))
      (Suc (length (encrypted_envelopes d))) [] = Some es \<and>
    distinct es \<and> sorted (map env_key es) \<and>
    set es = {e \<in> set (encrypted_envelopes d). e_conversation_id e = c}"
proof -
  have ok: "pages_ok sq d" using assms(1-3) by (simp add: pages_ok_def)
  let ?rows = "conversation_envelopes c d"
  let ?page = "\<lambda>cur. page_view (ListForConversationCursored sq c cur limit d)"
  have w: "walk ?page (Suc (length ?rows)) [] = Some (sort_key env_key ?rows)"
    by (rule history.walk_complete [OF ok assms(4,5)])
  have l: "Suc (length ?rows) \<le> Suc (length (encrypted_envelopes d))" by simp
  have "walk ?page (Suc (length (encrypted_envelopes d))) [] = Some (sort_key env_key ?rows)"
    by (rule walk_more_fuel [OF w l])
  moreover have "distinct ?rows"
    using envelopes_distinct [OF assms(1)] by (simp add: distinct_map)
  ultimately show ?thesis by (intro exI [of _ "sort_key env_key ?rows"]) (simp del: walk.simps)
qed

text \<open>
  The cursor that a page hands out reads back as the time and id it was made from, for
  every 64-bit time, negative ones included, and every non-empty id, even one that contains
  the separator.
\<close>

theorem env_cursor_roundtrip:
  assumes "in_i64 ts" and "eid \<noteq> []"
  shows "ParseEnvCursor (MakeEnvCursor ts eid) = Some (ts, eid)"
  using assms by (rule ParseEnvCursor_MakeEnvCursor)

theorem env_cursor_roundtrip_witness:
  "ParseEnvCursor (MakeEnvCursor (- 42) ''a|b'') = Some (- 42, ''a|b'')"
  by (rule env_cursor_roundtrip) (simp_all add: in_i64_def)

definition laptop :: DeviceRecord where
  "laptop = phone\<lparr>d_user_id := ''u2'', d_device_id := ''l''\<rparr>"

definition mail :: "EnvelopeId \<Rightarrow> Timestamp \<Rightarrow> Timestamp option \<Rightarrow> EnvelopeRecord" where
  "mail i t ret = \<lparr>e_envelope_id = i, e_conversation_id = ''g'', e_sender_user_id = ''u1'',
     e_sender_device_id = ''p'', e_ciphertext = ''c'', e_server_timestamp = t, e_envelope_type = 0,
     e_retention_until = ret, e_ordering_epoch = None\<rparr>"

definition to_laptop :: "EnvelopeId \<Rightarrow> DeliveryStateRecord" where
  "to_laptop i = \<lparr>ds_envelope_id = i, ds_target_user_id = ''u2'', ds_target_device_id = ''l'',
     ds_queued_at = 0, ds_delivered_at = None, ds_acked_at = None\<rparr>"

definition mail_db :: db where
  "mail_db = one_group\<lparr>devices := [phone, laptop],
     encrypted_envelopes := [mail ''e1'' 7 (Some 10), mail ''e2'' 7 None, mail ''e3'' 3 None],
     delivery_state := [to_laptop ''e1'', to_laptop ''e2'']\<rparr>"

lemma mail_db_ok [simp]: "db_ok mail_db" "list_all readable (encrypted_envelopes mail_db)"
  by code_simp+

theorem pending_pages_complete_witness:
  "\<exists>es. walk (\<lambda>c. page_view (GetPendingForDeviceCursored rowid_order ''u2'' ''l'' c 1 mail_db)) 4 [] =
     Some es \<and> mail ''e1'' 7 (Some 10) \<in> set es"
proof -
  have "mail ''e1'' 7 (Some 10) \<in> {e \<in> set (encrypted_envelopes mail_db).
      \<exists>s \<in> set (delivery_state mail_db). ds_envelope_id s = e_envelope_id e \<and> pending_for ''u2'' ''l'' s}"
    "Suc (length (encrypted_envelopes mail_db)) = 4"
    by code_simp+
  with pending_pages_complete [OF mail_db_ok(1) sqlite_ok_rowid_order mail_db_ok(2), of 1 "''u2''" "''l''"]
  show ?thesis by (auto simp: max_page_def simp del: walk.simps)
qed

theorem history_pages_complete_witness:
  "\<exists>es. walk (\<lambda>cur. page_view (ListForConversationCursored rowid_order ''g'' cur 2 mail_db)) 4 [] =
     Some es \<and> mail ''e3'' 3 None \<in> set es"
proof -
  have "mail ''e3'' 3 None \<in> {e \<in> set (encrypted_envelopes mail_db). e_conversation_id e = ''g''}"
    "Suc (length (encrypted_envelopes mail_db)) = 4"
    by code_simp+
  with history_pages_complete [OF mail_db_ok(1) sqlite_ok_rowid_order mail_db_ok(2), of 2 "''g''"]
  show ?thesis by (auto simp: max_page_def simp del: walk.simps)
qed

end
