(* ===== verification/Shard_Map.thy ===== *)
theory Shard_Map
  imports Vox_Prelude "HOL-Library.AList"
begin

text \<open>
  Hash tables. A \<open>std::unordered_map\<close> is an association list without duplicate keys, whose order
  stands for the unspecified iteration order. \<open>ShardMap\<close> of \<open>lib/vox_common/shard_map.hpp\<close> is an
  array of 16 of them, and \<open>std::hash\<close>, which picks the shard, is a parameter. The locale
  \<open>table\<close> is what a client of such a table relies on; it is interpreted for the plain table, which
  the rate limiter and the push registry use, and for the sharded one of the delivery manager.
\<close>

section \<open>The interface of a table\<close>

locale table =
  fixes valid :: "'m \<Rightarrow> bool"
    and find :: "'k \<Rightarrow> 'm \<Rightarrow> 'v option"
    and store :: "'k \<Rightarrow> 'v \<Rightarrow> 'm \<Rightarrow> 'm"
    and erase :: "'k \<Rightarrow> 'm \<Rightarrow> bool \<times> 'm"
  assumes find_store: "valid m \<Longrightarrow> find k' (store k v m) = (if k' = k then Some v else find k' m)"
    and valid_store: "valid m \<Longrightarrow> valid (store k v m)"
    and find_erase: "valid m \<Longrightarrow> find k' (snd (erase k m)) = (if k' = k then None else find k' m)"
    and valid_erase: "valid m \<Longrightarrow> valid (snd (erase k m))"
    and fst_erase: "valid m \<Longrightarrow> fst (erase k m) \<longleftrightarrow> find k m \<noteq> None"
begin

text \<open>A client that updates the entry of a key, with a default for an absent one.\<close>

lemma find_modify:
  assumes "valid m"
  shows "find k' (store k (f (case find k m of None \<Rightarrow> v | Some x \<Rightarrow> x)) m) =
    (if k' = k then Some (f (case find k m of None \<Rightarrow> v | Some x \<Rightarrow> x)) else find k' m)"
  using assms by (simp add: find_store)

lemma valid_stores: "valid m \<Longrightarrow> valid (fold (\<lambda>k. store k (f k)) ks m)"
  by (induction ks arbitrary: m) (simp_all add: valid_store)

lemma find_stores:
  assumes "valid m"
  shows "find k (fold (\<lambda>k. store k (f k)) ks m) = (if k \<in> set ks then Some (f k) else find k m)"
  using assms
proof (induction ks arbitrary: m)
  case (Cons k' ks)
  then show ?case by (auto simp: find_store valid_store)
qed simp

lemma erase_store: "valid m \<Longrightarrow> find k m = None \<Longrightarrow> find k' (snd (erase k (store k v m))) = find k' m"
  by (simp add: find_store find_erase valid_store)

end

section \<open>A hash table\<close>

type_synonym ('k, 'v) unordered_map = "('k \<times> 'v) list"

definition umap_ok :: "('k, 'v) unordered_map \<Rightarrow> bool" where
  "umap_ok m \<longleftrightarrow> distinct (map fst m)"

definition umap_find :: "'k \<Rightarrow> ('k, 'v) unordered_map \<Rightarrow> 'v option" where
  "umap_find k m = map_of m k"

definition umap_store :: "'k \<Rightarrow> 'v \<Rightarrow> ('k, 'v) unordered_map \<Rightarrow> ('k, 'v) unordered_map" where
  "umap_store k v m = AList.update k v m"

definition umap_erase :: "'k \<Rightarrow> ('k, 'v) unordered_map \<Rightarrow> bool \<times> ('k, 'v) unordered_map" where
  "umap_erase k m = (map_of m k \<noteq> None, AList.delete k m)"

lemmas umap_defs = umap_ok_def umap_find_def umap_store_def umap_erase_def

interpretation umap: table umap_ok umap_find umap_store umap_erase
  by unfold_locales (simp_all add: umap_defs update_conv' delete_conv' distinct_update distinct_delete)

lemma umap_store_new: "umap_find k m = None \<Longrightarrow> umap_store k v m = m @ [(k, v)]"
  by (induction m) (auto simp: umap_defs split: if_splits)

section \<open>The sharded table\<close>

type_synonym ('k, 'v) ShardMap = "('k, 'v) unordered_map list"

definition ShardCount :: nat where
  "ShardCount = 16"

definition ShardMap_new :: "('k, 'v) ShardMap" where
  "ShardMap_new = replicate ShardCount []"

definition GetShard :: "('k \<Rightarrow> nat) \<Rightarrow> 'k \<Rightarrow> nat" where
  "GetShard hash key = hash key mod ShardCount"

definition WithShard ::
    "('k \<Rightarrow> nat) \<Rightarrow> 'k \<Rightarrow> (('k, 'v) unordered_map \<Rightarrow> 'r \<times> ('k, 'v) unordered_map) \<Rightarrow>
     ('k, 'v) ShardMap \<Rightarrow> 'r \<times> ('k, 'v) ShardMap" where
  "WithShard hash key fn m =
     (let i = GetShard hash key; (r, shard) = fn (m ! i) in (r, m[i := shard]))"

definition Shard_Insert :: "('k \<Rightarrow> nat) \<Rightarrow> 'k \<Rightarrow> 'v \<Rightarrow> ('k, 'v) ShardMap \<Rightarrow> ('k, 'v) ShardMap" where
  "Shard_Insert hash key value m = (let i = GetShard hash key in m[i := umap_store key value (m ! i)])"

definition Shard_Erase :: "('k \<Rightarrow> nat) \<Rightarrow> 'k \<Rightarrow> ('k, 'v) ShardMap \<Rightarrow> bool \<times> ('k, 'v) ShardMap" where
  "Shard_Erase hash key m =
     (let i = GetShard hash key; (erased, shard) = umap_erase key (m ! i) in (erased, m[i := shard]))"

definition Shard_Find :: "('k \<Rightarrow> nat) \<Rightarrow> 'k \<Rightarrow> ('k, 'v) ShardMap \<Rightarrow> 'v option" where
  "Shard_Find hash key m = umap_find key (m ! GetShard hash key)"

definition Shard_Contains :: "('k \<Rightarrow> nat) \<Rightarrow> 'k \<Rightarrow> ('k, 'v) ShardMap \<Rightarrow> bool" where
  "Shard_Contains hash key m \<longleftrightarrow> umap_find key (m ! GetShard hash key) \<noteq> None"

definition Shard_ForEach :: "('k \<Rightarrow> 'v \<Rightarrow> 's \<Rightarrow> 's) \<Rightarrow> ('k, 'v) ShardMap \<Rightarrow> 's \<Rightarrow> 's" where
  "Shard_ForEach fn m = fold (\<lambda>shard. fold (\<lambda>(k, v). fn k v) shard) m"

definition Shard_Size :: "('k, 'v) ShardMap \<Rightarrow> nat" where
  "Shard_Size m = fold (\<lambda>shard total. total + length shard) m 0"

text \<open>Every shard is a table, and holds only keys that hash to it.\<close>

definition shard_ok :: "('k \<Rightarrow> nat) \<Rightarrow> ('k, 'v) ShardMap \<Rightarrow> bool" where
  "shard_ok hash m \<longleftrightarrow> length m = ShardCount \<and>
     (\<forall>i < ShardCount. umap_ok (m ! i) \<and> (\<forall>k \<in> fst ` set (m ! i). GetShard hash k = i))"

lemma GetShard_less [simp]: "GetShard hash k < ShardCount"
  by (simp add: GetShard_def ShardCount_def)

lemma set_delete: "fst ` set (AList.delete k m) = fst ` set m - {k}"
  using arg_cong [OF delete_keys [of k m], of set] by simp

lemma shard_ok_new [simp]: "shard_ok hash ShardMap_new"
  by (simp add: shard_ok_def ShardMap_new_def umap_ok_def)

lemma Shard_Find_new [simp]: "Shard_Find hash k ShardMap_new = None"
  by (simp add: Shard_Find_def ShardMap_new_def umap_find_def)

lemma shard_ok_update:
  assumes "shard_ok hash m" and "i < ShardCount" and "umap_ok s" and "fst ` set s \<subseteq> {k. GetShard hash k = i}"
  shows "shard_ok hash (m[i := s])"
  unfolding shard_ok_def
proof (intro conjI allI impI ballI)
  show "length (m[i := s]) = ShardCount" using assms(1) by (simp add: shard_ok_def)
next
  fix j assume "j < ShardCount"
  then show "umap_ok (m[i := s] ! j)" using assms by (cases "j = i") (simp_all add: shard_ok_def)
next
  fix j k assume "j < ShardCount" "k \<in> fst ` set (m[i := s] ! j)"
  then show "GetShard hash k = j" using assms by (cases "j = i") (auto simp: shard_ok_def)
qed

lemma shard_keys: "shard_ok hash m \<Longrightarrow> i < ShardCount \<Longrightarrow> fst ` set (m ! i) \<subseteq> {k. GetShard hash k = i}"
  by (auto simp: shard_ok_def)

interpretation shard: table "shard_ok hash" "Shard_Find hash" "Shard_Insert hash" "Shard_Erase hash"
proof
  fix m :: "('a, 'b) ShardMap" and k k' v
  assume m: "shard_ok hash m"
  then have len: "GetShard hash x < length m" for x by (simp add: shard_ok_def)
  have u: "umap_ok (m ! GetShard hash x)" for x using m by (simp add: shard_ok_def)
  show "Shard_Find hash k' (Shard_Insert hash k v m) = (if k' = k then Some v else Shard_Find hash k' m)"
    by (simp add: Shard_Find_def Shard_Insert_def Let_def nth_list_update len umap.find_store u)
  show "Shard_Find hash k' (snd (Shard_Erase hash k m)) = (if k' = k then None else Shard_Find hash k' m)"
    by (auto simp: Shard_Find_def Shard_Erase_def Let_def nth_list_update len umap_defs delete_conv')
  show "fst (Shard_Erase hash k m) = (Shard_Find hash k m \<noteq> None)"
    by (simp add: Shard_Find_def Shard_Erase_def Let_def umap_defs)
  show "shard_ok hash (Shard_Insert hash k v m)"
    unfolding Shard_Insert_def Let_def
    by (rule shard_ok_update [OF m GetShard_less umap.valid_store [OF u]])
       (use shard_keys [OF m GetShard_less [of hash k]] in \<open>simp add: umap_store_def dom_update\<close>)
  show "shard_ok hash (snd (Shard_Erase hash k m))"
    using shard_ok_update [OF m GetShard_less [of hash k] umap.valid_erase [OF u, of k]]
      shard_keys [OF m GetShard_less [of hash k]]
    by (auto simp: Shard_Erase_def Let_def umap_erase_def set_delete)
qed

text \<open>\<open>Size\<close> counts the keys of all shards, and \<open>ForEach\<close> visits each of them once.\<close>

lemma fold_sum: "fold (\<lambda>shard total. total + length shard) m n = n + length (concat m)"
  by (induction m arbitrary: n) simp_all

lemma distinct_concat_shards:
  assumes "shard_ok hash m"
  shows "distinct (map fst (concat m))"
proof -
  have keys: "distinct (concat (map (map fst) (map (nth m) is)))"
    if "distinct is" "set is \<subseteq> {..<ShardCount}" for "is"
    using that
  proof (induction "is")
    case (Cons i "is")
    have "set (map fst (m ! i)) \<inter> set (concat (map (map fst) (map (nth m) is))) = {}"
    proof (rule ccontr)
      assume "\<not> ?thesis"
      then obtain k j where "k \<in> fst ` set (m ! i)" "j \<in> set is" "k \<in> fst ` set (m ! j)" by auto
      moreover have "i < ShardCount" "j < ShardCount" using Cons.prems(2) calculation(2) by auto
      ultimately have "GetShard hash k = i" "GetShard hash k = j" "j \<in> set is"
        using shard_keys [OF assms, of i] shard_keys [OF assms, of j] by auto
      then show False using Cons.prems(1) by simp
    qed
    then show ?case using Cons assms by (simp add: shard_ok_def umap_ok_def)
  qed simp
  have "length m = ShardCount" using assms by (simp add: shard_ok_def)
  then have "map (nth m) [0..<ShardCount] = m" by (metis map_nth)
  then show ?thesis using keys [of "[0..<ShardCount]"] by (simp add: map_concat lessThan_atLeast0)
qed

lemma Shard_Find_in:
  assumes "shard_ok hash m"
  shows "Shard_Find hash k m = Some v \<longleftrightarrow> (k, v) \<in> set (concat m)"
proof
  assume "Shard_Find hash k m = Some v"
  then have "(k, v) \<in> set (m ! GetShard hash k)" by (simp add: Shard_Find_def umap_find_def map_of_SomeD)
  then show "(k, v) \<in> set (concat m)"
    using assms GetShard_less [of hash k] by (force simp: shard_ok_def simp del: GetShard_less)
next
  assume "(k, v) \<in> set (concat m)"
  then obtain i where i: "i < ShardCount" "(k, v) \<in> set (m ! i)"
    using assms by (auto simp: in_set_conv_nth [of _ m] shard_ok_def)
  then have "GetShard hash k = i" using shard_keys [OF assms i(1)] by force
  then show "Shard_Find hash k m = Some v"
    using i assms by (simp add: Shard_Find_def umap_find_def shard_ok_def umap_ok_def)
qed

section \<open>The sharded table implements a finite map\<close>

definition contents :: "('k \<Rightarrow> nat) \<Rightarrow> ('k, 'v) ShardMap \<Rightarrow> 'k \<rightharpoonup> 'v" where
  "contents hash m = (\<lambda>k. Shard_Find hash k m)"

definition visited :: "('k, 'v) ShardMap \<Rightarrow> ('k \<times> 'v) list" where
  "visited m = Shard_ForEach (\<lambda>k v acc. acc @ [(k, v)]) m []"

lemma visited_concat: "visited m = concat m"
proof -
  have inner: "fold (\<lambda>(k, v) acc. acc @ [(k, v)]) s acc = acc @ s" for s acc :: "('a \<times> 'b) list"
    by (induction s arbitrary: acc) auto
  have "fold (\<lambda>shard. fold (\<lambda>(k, v) acc. acc @ [(k, v)]) shard) m acc = acc @ concat m" for acc
    by (induction m arbitrary: acc) (simp_all add: inner)
  then show ?thesis by (simp add: visited_def Shard_ForEach_def)
qed

lemma contents_map_of:
  assumes "shard_ok hash m"
  shows "contents hash m = map_of (concat m)"
proof (rule ext)
  fix k
  show "contents hash m k = map_of (concat m) k"
    using map_of_eq_Some_iff [OF distinct_concat_shards [OF assms], of k] Shard_Find_in [OF assms, of k]
    by (cases "contents hash m k"; cases "map_of (concat m) k") (auto simp: contents_def)
qed

lemma Size_contents:
  assumes "shard_ok hash m"
  shows "Shard_Size m = card (dom (contents hash m))"
proof -
  have "dom (contents hash m) = set (map fst (concat m))"
    unfolding contents_map_of [OF assms] dom_map_of_conv_image_fst by (simp only: set_map)
  then have "card (dom (contents hash m)) = length (map fst (concat m))"
    using distinct_card [OF distinct_concat_shards [OF assms]] by simp
  then show ?thesis by (simp add: Shard_Size_def fold_sum)
qed

text \<open>
  C20: Whatever the hash function, a \<open>ShardMap\<close> behaves as one finite map: \<open>Insert\<close> and \<open>Erase\<close>
  change the map at their key and nowhere else, \<open>Find\<close> and \<open>Contains\<close> read it, \<open>Size\<close> is the
  number of its keys, and \<open>ForEach\<close> visits each of its entries exactly once. Every operation
  keeps each key in the shard of its hash.
\<close>

theorem ShardMap_refines_map:
  assumes "shard_ok hash m"
  shows "contents hash (Shard_Insert hash k v m) = (contents hash m)(k \<mapsto> v) \<and>
    shard_ok hash (Shard_Insert hash k v m) \<and>
    contents hash (snd (Shard_Erase hash k m)) = (contents hash m)(k := None) \<and>
    shard_ok hash (snd (Shard_Erase hash k m)) \<and>
    (fst (Shard_Erase hash k m) \<longleftrightarrow> k \<in> dom (contents hash m)) \<and>
    (Shard_Contains hash k m \<longleftrightarrow> k \<in> dom (contents hash m)) \<and>
    Shard_Size m = card (dom (contents hash m)) \<and>
    distinct (map fst (visited m)) \<and> map_of (visited m) = contents hash m"
proof (intro conjI)
  note laws = shard.find_store [OF assms] shard.find_erase [OF assms] shard.fst_erase [OF assms]
  show "contents hash (Shard_Insert hash k v m) = (contents hash m)(k \<mapsto> v)"
    by (auto simp: contents_def laws)
  show "contents hash (snd (Shard_Erase hash k m)) = (contents hash m)(k := None)"
    by (auto simp: contents_def laws)
  show "fst (Shard_Erase hash k m) \<longleftrightarrow> k \<in> dom (contents hash m)"
    by (simp add: contents_def laws domIff)
  show "Shard_Contains hash k m \<longleftrightarrow> k \<in> dom (contents hash m)"
    by (simp add: contents_def Shard_Contains_def Shard_Find_def domIff)
  show "Shard_Size m = card (dom (contents hash m))" by (rule Size_contents [OF assms])
  show "distinct (map fst (visited m))"
    using distinct_concat_shards [OF assms] by (simp add: visited_concat)
  show "map_of (visited m) = contents hash m"
    by (simp add: contents_map_of [OF assms] visited_concat)
qed (rule shard.valid_store [OF assms] shard.valid_erase [OF assms])+

theorem ShardMap_refines_map_witness:
  "contents (\<lambda>n. n) (Shard_Insert (\<lambda>n. n) 17 True ShardMap_new) = [17 \<mapsto> True] \<and>
   Shard_Size (Shard_Insert (\<lambda>n. n) 17 True ShardMap_new) = 1"
proof -
  have e: "contents (\<lambda>n::nat. n) ShardMap_new = (Map.empty :: nat \<rightharpoonup> bool)"
    by (simp add: contents_def Shard_Find_def ShardMap_new_def umap_find_def)
  note a = ShardMap_refines_map [OF shard_ok_new [of "\<lambda>n. n"], of 17 True]
  then have "shard_ok (\<lambda>n. n) (Shard_Insert (\<lambda>n. n) 17 True ShardMap_new)" by blast
  from ShardMap_refines_map [OF this, of 17 True] show ?thesis using a by (simp add: e)
qed

end
