(* ===== verification/Delivery_Manager.thy ===== *)
theory Delivery_Manager
  imports Envelope_Repository Shard_Map
begin

text \<open>
  \<open>DeliveryManager\<close> (\<open>lib/vox_relay/delivery_manager.cpp\<close>): a bounded in-memory queue per device
  in a \<open>ShardMap\<close> under the key of \<open>DeviceScopeKey\<close>, with the database as the fallback. The
  entry of a key is a shared pointer that is created once and never replaced, so the queue it
  points to is kept in the table itself and a change through the pointer is a store at the key.
  The calls of the enqueue hook, which pushes to a WebSocket, are recorded in the order they are
  made. The lemmas reduce the manager to a function from devices to queues.
\<close>

section \<open>The manager\<close>

record QueuedEnvelope =
  q_envelope_id :: EnvelopeId
  q_conversation_id :: ConversationId
  q_sender_user_id :: UserId
  q_sender_device_id :: DeviceId
  q_ciphertext :: string
  q_server_timestamp :: Timestamp
  q_envelope_type :: int
  q_ordering_epoch :: "int option"

record DeliveryManager =
  dm_max_queue_per_device :: nat
  dm_hash :: "string \<Rightarrow> nat"
  dm_queues :: "(string, QueuedEnvelope list) ShardMap"
  dm_enqueue_hook :: bool
  dm_hook_calls :: "(string \<times> QueuedEnvelope) list"

definition DeliveryManager_new :: "(string \<Rightarrow> nat) \<Rightarrow> nat \<Rightarrow> DeliveryManager" where
  "DeliveryManager_new hash max_queue_per_device =
     \<lparr>dm_max_queue_per_device = max_queue_per_device, dm_hash = hash, dm_queues = ShardMap_new,
      dm_enqueue_hook = False, dm_hook_calls = []\<rparr>"

definition SetEnqueueHook :: "DeliveryManager \<Rightarrow> DeliveryManager" where
  "SetEnqueueHook dm = dm\<lparr>dm_enqueue_hook := True\<rparr>"

definition GetOrCreateQueue :: "UserId \<Rightarrow> DeviceId \<Rightarrow> DeliveryManager \<Rightarrow> QueuedEnvelope list \<times> DeliveryManager" where
  "GetOrCreateQueue user_id device_id dm =
     (let key = DeviceScopeKey user_id device_id;
          (pending, m) = WithShard (dm_hash dm) key (\<lambda>shard.
            case umap_find key shard of
              None \<Rightarrow> ([], umap_store key [] shard)
            | Some q \<Rightarrow> (q, shard)) (dm_queues dm)
      in (pending, dm\<lparr>dm_queues := m\<rparr>))"

text \<open>The queue behind the pointer of a key, overwritten.\<close>

definition set_pending :: "string \<Rightarrow> QueuedEnvelope list \<Rightarrow> DeliveryManager \<Rightarrow> DeliveryManager" where
  "set_pending key pending dm = dm\<lparr>dm_queues := Shard_Insert (dm_hash dm) key pending (dm_queues dm)\<rparr>"

definition Enqueue :: "UserId \<Rightarrow> DeviceId \<Rightarrow> QueuedEnvelope \<Rightarrow> DeliveryManager \<Rightarrow> VoidResult \<times> DeliveryManager" where
  "Enqueue user_id device_id envelope dm =
     (let key = DeviceScopeKey user_id device_id;
          (pending, dm1) = GetOrCreateQueue user_id device_id dm
      in if length pending \<ge> dm_max_queue_per_device dm1
         then (unexpected kQueueFull ''Device queue full, use offline delivery'', dm1)
         else let dm2 = set_pending key (pending @ [envelope]) dm1
              in (Inr (), if dm_enqueue_hook dm2
                          then dm2\<lparr>dm_hook_calls := dm_hook_calls dm2 @ [(key, envelope)]\<rparr> else dm2))"

fun pop_front_loop :: "nat \<Rightarrow> QueuedEnvelope list \<Rightarrow> QueuedEnvelope list \<Rightarrow> QueuedEnvelope list \<times> QueuedEnvelope list" where
  "pop_front_loop 0 res pending = (res, pending)"
| "pop_front_loop (Suc n) res pending = pop_front_loop n (res @ [hd pending]) (tl pending)"

definition Dequeue :: "UserId \<Rightarrow> DeviceId \<Rightarrow> nat \<Rightarrow> DeliveryManager \<Rightarrow> QueuedEnvelope list \<times> DeliveryManager" where
  "Dequeue user_id device_id max_count dm =
     (let key = DeviceScopeKey user_id device_id
      in case Shard_Find (dm_hash dm) key (dm_queues dm) of
           None \<Rightarrow> ([], dm)
         | Some pending \<Rightarrow>
             let (res, rest) = pop_front_loop (min max_count (length pending)) [] pending
             in (res, set_pending key rest dm))"

definition Acknowledge :: "UserId \<Rightarrow> DeviceId \<Rightarrow> EnvelopeId \<Rightarrow> Timestamp \<Rightarrow> db \<Rightarrow> VoidResult \<times> db" where
  "Acknowledge user_id device_id envelope_id now d = MarkAcked envelope_id user_id device_id now d"

text \<open>A row that cannot be added is logged and skipped.\<close>

definition SwitchToOffline ::
    "sqlite \<Rightarrow> UserId \<Rightarrow> DeviceId \<Rightarrow> Timestamp \<Rightarrow> DeliveryManager \<times> db \<Rightarrow> DeliveryManager \<times> db" where
  "SwitchToOffline sq user_id device_id now = (\<lambda>(dm, d).
     let key = DeviceScopeKey user_id device_id
     in case Shard_Find (dm_hash dm) key (dm_queues dm) of
          None \<Rightarrow> (dm, d)
        | Some pending \<Rightarrow>
            (set_pending key [] dm,
             fold (\<lambda>env d. snd (AddDeliveryState sq (q_envelope_id env) user_id device_id now d)) pending d))"

definition QueueSize :: "UserId \<Rightarrow> DeviceId \<Rightarrow> DeliveryManager \<Rightarrow> nat" where
  "QueueSize user_id device_id dm =
     (case Shard_Find (dm_hash dm) (DeviceScopeKey user_id device_id) (dm_queues dm) of
        None \<Rightarrow> 0 | Some pending \<Rightarrow> length pending)"

text \<open>\<open>std::stable_partition\<close> followed by the erasure of the second part.\<close>

definition PurgeConversationFromDeviceQueue ::
    "ConversationId \<Rightarrow> UserId \<Rightarrow> DeviceId \<Rightarrow> DeliveryManager \<Rightarrow> DeliveryManager" where
  "PurgeConversationFromDeviceQueue conversation_id user_id device_id dm =
     (let key = DeviceScopeKey user_id device_id
      in case Shard_Find (dm_hash dm) key (dm_queues dm) of
           None \<Rightarrow> dm
         | Some pending \<Rightarrow>
             let (kept, purged) = partition (\<lambda>q. q_conversation_id q \<noteq> conversation_id) pending
             in set_pending key kept dm)"

section \<open>The manager as queues by key\<close>

definition dm_ok :: "DeliveryManager \<Rightarrow> bool" where
  "dm_ok dm \<longleftrightarrow> shard_ok (dm_hash dm) (dm_queues dm)"

text \<open>The queue of a key; a key without a queue has an empty one.\<close>

definition queue_at :: "DeliveryManager \<Rightarrow> string \<Rightarrow> QueuedEnvelope list" where
  "queue_at dm key = (case Shard_Find (dm_hash dm) key (dm_queues dm) of None \<Rightarrow> [] | Some q \<Rightarrow> q)"

lemma pop_front_loop_take:
  "n \<le> length pending \<Longrightarrow> pop_front_loop n res pending = (res @ take n pending, drop n pending)"
  by (induction n res pending rule: pop_front_loop.induct) (auto simp: take_Suc drop_Suc Suc_le_length_iff)

lemma set_pending_same [simp]:
  "dm_hash (set_pending key q dm) = dm_hash dm"
  "dm_max_queue_per_device (set_pending key q dm) = dm_max_queue_per_device dm"
  "dm_enqueue_hook (set_pending key q dm) = dm_enqueue_hook dm"
  "dm_hook_calls (set_pending key q dm) = dm_hook_calls dm"
  by (simp_all add: set_pending_def)

lemma set_pending_ok [simp]: "dm_ok dm \<Longrightarrow> dm_ok (set_pending key q dm)"
  by (simp add: dm_ok_def set_pending_def shard.valid_store)

lemma queue_at_set_pending [simp]: "dm_ok dm \<Longrightarrow> queue_at (set_pending key q dm) = (queue_at dm)(key := q)"
  by (rule ext) (simp add: dm_ok_def queue_at_def set_pending_def shard.find_store)

lemma queue_at_hook [simp]: "queue_at (dm\<lparr>dm_hook_calls := h\<rparr>) = queue_at dm"
  by (rule ext) (simp add: queue_at_def)

lemma dm_ok_hook [simp]: "dm_ok (dm\<lparr>dm_hook_calls := h\<rparr>) = dm_ok dm"
  by (simp add: dm_ok_def)

lemma DeliveryManager_new_ok [simp]:
  "dm_ok (DeliveryManager_new hash n)" "queue_at (DeliveryManager_new hash n) key = []"
  by (simp_all add: dm_ok_def DeliveryManager_new_def queue_at_def)

text \<open>\<open>GetOrCreateQueue\<close> returns the queue and leaves every queue as it is.\<close>

lemma GetOrCreateQueue_as_store:
  "GetOrCreateQueue u v dm = (queue_at dm (DeviceScopeKey u v),
     if Shard_Find (dm_hash dm) (DeviceScopeKey u v) (dm_queues dm) = None
     then set_pending (DeviceScopeKey u v) [] dm else dm)"
  by (simp add: GetOrCreateQueue_def Let_def WithShard_def queue_at_def Shard_Find_def set_pending_def
      Shard_Insert_def split: option.split)

lemma queue_at_None: "Shard_Find (dm_hash dm) key (dm_queues dm) = None \<Longrightarrow> queue_at dm key = []"
  by (simp add: queue_at_def)

lemma GetOrCreateQueue_correct:
  assumes "dm_ok dm"
  shows "fst (GetOrCreateQueue u v dm) = queue_at dm (DeviceScopeKey u v)"
    "dm_ok (snd (GetOrCreateQueue u v dm))" "queue_at (snd (GetOrCreateQueue u v dm)) = queue_at dm"
    "dm_max_queue_per_device (snd (GetOrCreateQueue u v dm)) = dm_max_queue_per_device dm"
    "dm_enqueue_hook (snd (GetOrCreateQueue u v dm)) = dm_enqueue_hook dm"
    "dm_hook_calls (snd (GetOrCreateQueue u v dm)) = dm_hook_calls dm"
  using assms by (auto simp: GetOrCreateQueue_as_store queue_at_None fun_upd_idem)

lemma Enqueue_full:
  assumes "dm_ok dm" and "dm_max_queue_per_device dm \<le> length (queue_at dm (DeviceScopeKey u v))"
  shows "fst (Enqueue u v e dm) = unexpected kQueueFull ''Device queue full, use offline delivery''"
    "queue_at (snd (Enqueue u v e dm)) = queue_at dm"
    "dm_hook_calls (snd (Enqueue u v e dm)) = dm_hook_calls dm"
  using assms GetOrCreateQueue_correct [OF assms(1), of u v]
  by (simp_all add: Enqueue_def Let_def split_beta)

lemma Enqueue_room:
  assumes "dm_ok dm" and "length (queue_at dm (DeviceScopeKey u v)) < dm_max_queue_per_device dm"
  shows "fst (Enqueue u v e dm) = Inr ()"
    "queue_at (snd (Enqueue u v e dm)) =
       (queue_at dm)(DeviceScopeKey u v := queue_at dm (DeviceScopeKey u v) @ [e])"
    "dm_hook_calls (snd (Enqueue u v e dm)) =
       dm_hook_calls dm @ (if dm_enqueue_hook dm then [(DeviceScopeKey u v, e)] else [])"
  using assms GetOrCreateQueue_correct [OF assms(1), of u v]
  by (simp_all add: Enqueue_def Let_def split_beta)

lemma Enqueue_same:
  assumes "dm_ok dm"
  shows "dm_ok (snd (Enqueue u v e dm))"
    "dm_max_queue_per_device (snd (Enqueue u v e dm)) = dm_max_queue_per_device dm"
    "dm_enqueue_hook (snd (Enqueue u v e dm)) = dm_enqueue_hook dm"
  using GetOrCreateQueue_correct [OF assms, of u v] by (simp_all add: Enqueue_def Let_def split_beta)

lemma Dequeue_correct:
  assumes "dm_ok dm"
  shows "fst (Dequeue u v n dm) = take n (queue_at dm (DeviceScopeKey u v))"
    "queue_at (snd (Dequeue u v n dm)) =
       (queue_at dm)(DeviceScopeKey u v := drop n (queue_at dm (DeviceScopeKey u v)))"
    "dm_ok (snd (Dequeue u v n dm))"
  using assms
  by (simp_all add: Dequeue_def Let_def pop_front_loop_take queue_at_None fun_upd_idem min_def split: option.split)
     (simp_all add: queue_at_def)

lemma Purge_correct:
  assumes "dm_ok dm"
  shows "queue_at (PurgeConversationFromDeviceQueue c u v dm) = (queue_at dm)(DeviceScopeKey u v :=
      filter (\<lambda>q. q_conversation_id q \<noteq> c) (queue_at dm (DeviceScopeKey u v)))"
    "dm_ok (PurgeConversationFromDeviceQueue c u v dm)"
    "dm_max_queue_per_device (PurgeConversationFromDeviceQueue c u v dm) = dm_max_queue_per_device dm"
  using assms
  by (simp_all add: PurgeConversationFromDeviceQueue_def Let_def queue_at_None fun_upd_idem split: option.split)
     (simp_all add: queue_at_def o_def)

lemma QueueSize_correct: "QueueSize u v dm = length (queue_at dm (DeviceScopeKey u v))"
  by (simp add: QueueSize_def queue_at_def split: option.split)

lemma SwitchToOffline_correct:
  assumes "dm_ok dm"
  shows "queue_at (fst (SwitchToOffline sq u v now (dm, d))) = (queue_at dm)(DeviceScopeKey u v := [])"
    "dm_ok (fst (SwitchToOffline sq u v now (dm, d)))"
    "snd (SwitchToOffline sq u v now (dm, d)) =
       fold (\<lambda>env d. snd (AddDeliveryState sq (q_envelope_id env) u v now d)) (queue_at dm (DeviceScopeKey u v)) d"
  using assms
  by (simp_all add: SwitchToOffline_def Let_def queue_at_None fun_upd_idem split: option.split)
     (simp_all add: queue_at_def)

section \<open>The queues of the devices\<close>

definition device_queue :: "DeliveryManager \<Rightarrow> UserId \<Rightarrow> DeviceId \<Rightarrow> QueuedEnvelope list" where
  "device_queue dm u v = queue_at dm (DeviceScopeKey u v)"

text \<open>The separator of \<open>DeviceScopeKey\<close>, which does not occur in a user id (a UUID).\<close>

definition no_separator :: "UserId \<Rightarrow> bool" where
  "no_separator u \<longleftrightarrow> CHR 0x1F \<notin> set u"

lemma scope_key_eq:
  "no_separator u \<Longrightarrow> no_separator u' \<Longrightarrow> DeviceScopeKey u v = DeviceScopeKey u' v' \<longleftrightarrow> (u, v) = (u', v')"
  by (simp add: no_separator_def DeviceScopeKey_inj)

lemma Enqueue_queue:
  assumes "dm_ok dm" and "no_separator u" and "no_separator u'"
  shows "device_queue (snd (Enqueue u v e dm)) u' v' =
    (if (u', v') = (u, v) \<and> length (device_queue dm u v) < dm_max_queue_per_device dm
     then device_queue dm u v @ [e] else device_queue dm u' v')"
proof (cases "length (device_queue dm u v) < dm_max_queue_per_device dm")
  case True
  then show ?thesis
    using assms Enqueue_room(2) [OF assms(1), of u v e] scope_key_eq [of u u' v v']
    by (auto simp: device_queue_def)
next
  case False
  then show ?thesis using Enqueue_full(2) [OF assms(1), of u v e] by (simp add: device_queue_def)
qed

lemma Enqueue_ok_iff:
  assumes "dm_ok dm"
  shows "ok (fst (Enqueue u v e dm)) \<longleftrightarrow> length (device_queue dm u v) < dm_max_queue_per_device dm"
  using Enqueue_room(1) [OF assms, of u v e] Enqueue_full(1) [OF assms, of u v e]
  by (cases "length (device_queue dm u v) < dm_max_queue_per_device dm") (simp_all add: device_queue_def)

text \<open>
  C21: Each device has its own bounded first-in-first-out queue. \<open>Enqueue\<close> succeeds exactly when
  the queue of the device is below the configured maximum and then appends; \<open>Dequeue\<close> hands out
  the oldest envelopes and removes them; the purge of a conversation drops its envelopes and
  keeps the order of the others; no operation touches the queue of another device (user ids do
  not contain the separator of the key), and no queue grows past the maximum.
\<close>

theorem DeliveryManager_device_queues:
  assumes "dm_ok dm" and "no_separator u" and "no_separator u'"
    and "length (device_queue dm u v) \<le> dm_max_queue_per_device dm"
  shows "(ok (fst (Enqueue u v e dm)) \<longleftrightarrow> length (device_queue dm u v) < dm_max_queue_per_device dm) \<and>
    device_queue (snd (Enqueue u v e dm)) u' v' =
      (if (u', v') = (u, v) \<and> ok (fst (Enqueue u v e dm)) then device_queue dm u v @ [e]
       else device_queue dm u' v') \<and>
    fst (Dequeue u v n dm) = take n (device_queue dm u v) \<and>
    device_queue (snd (Dequeue u v n dm)) u' v' =
      (if (u', v') = (u, v) then drop n (device_queue dm u v) else device_queue dm u' v') \<and>
    device_queue (PurgeConversationFromDeviceQueue c u v dm) u' v' =
      (if (u', v') = (u, v) then filter (\<lambda>q. q_conversation_id q \<noteq> c) (device_queue dm u v)
       else device_queue dm u' v') \<and>
    QueueSize u v (snd (Enqueue u v e dm)) \<le> dm_max_queue_per_device dm"
proof (intro conjI)
  note room = Enqueue_ok_iff [OF assms(1), of u v e]
  note k = scope_key_eq [OF assms(2,3), of v v']
  show "ok (fst (Enqueue u v e dm)) \<longleftrightarrow> length (device_queue dm u v) < dm_max_queue_per_device dm"
    by (rule room)
  show "device_queue (snd (Enqueue u v e dm)) u' v' =
      (if (u', v') = (u, v) \<and> ok (fst (Enqueue u v e dm)) then device_queue dm u v @ [e]
       else device_queue dm u' v')"
    using Enqueue_queue [OF assms(1-3)] room by simp
  show "fst (Dequeue u v n dm) = take n (device_queue dm u v)"
    by (simp add: Dequeue_correct [OF assms(1)] device_queue_def)
  show "device_queue (snd (Dequeue u v n dm)) u' v' =
      (if (u', v') = (u, v) then drop n (device_queue dm u v) else device_queue dm u' v')"
    using k by (auto simp: Dequeue_correct [OF assms(1)] device_queue_def)
  show "device_queue (PurgeConversationFromDeviceQueue c u v dm) u' v' =
      (if (u', v') = (u, v) then filter (\<lambda>q. q_conversation_id q \<noteq> c) (device_queue dm u v)
       else device_queue dm u' v')"
    using k by (auto simp: Purge_correct [OF assms(1)] device_queue_def)
  show "QueueSize u v (snd (Enqueue u v e dm)) \<le> dm_max_queue_per_device dm"
    using Enqueue_queue [OF assms(1,2,2), of v e v] assms(4)
    by (simp add: QueueSize_correct device_queue_def)
qed

definition letter :: "EnvelopeId \<Rightarrow> ConversationId \<Rightarrow> QueuedEnvelope" where
  "letter eid c = \<lparr>q_envelope_id = eid, q_conversation_id = c, q_sender_user_id = ''u1'',
     q_sender_device_id = ''phone'', q_ciphertext = ''x'', q_server_timestamp = 1, q_envelope_type = 0,
     q_ordering_epoch = None\<rparr>"

theorem DeliveryManager_device_queues_witness:
  "let dm = snd (Enqueue ''u1'' ''phone'' (letter ''e1'' ''c1'') (DeliveryManager_new length 1))
   in device_queue dm ''u1'' ''phone'' = [letter ''e1'' ''c1''] \<and>
      \<not> ok (fst (Enqueue ''u1'' ''phone'' (letter ''e2'' ''c1'') dm)) \<and>
      fst (Dequeue ''u1'' ''phone'' 5 dm) = [letter ''e1'' ''c1'']"
proof -
  define dm0 where "dm0 = DeliveryManager_new length 1"
  define dm where "dm = snd (Enqueue ''u1'' ''phone'' (letter ''e1'' ''c1'') dm0)"
  have s: "no_separator ''u1''" by (simp add: no_separator_def)
  have 0: "dm_ok dm0" "device_queue dm0 ''u1'' ''phone'' = []" "dm_max_queue_per_device dm0 = 1"
    by (simp_all add: dm0_def device_queue_def) (simp add: DeliveryManager_new_def)
  note a = DeliveryManager_device_queues [OF 0(1) s s, of "''phone''" "letter ''e1'' ''c1''" "''phone''", unfolded 0]
  have 1: "dm_ok dm" "dm_max_queue_per_device dm = 1"
    unfolding dm_def by (simp_all add: Enqueue_same [OF 0(1)] 0)
  have 2: "device_queue dm ''u1'' ''phone'' = [letter ''e1'' ''c1'']" using a by (simp add: dm_def)
  show ?thesis
    using 2 DeliveryManager_device_queues [OF 1(1) s s, of "''phone''" "letter ''e2'' ''c1''" "''phone''", unfolded 1 2]
    unfolding Let_def dm_def [symmetric] dm0_def [symmetric] by simp
qed

end
