(* ===== verification/Server_Config.thy ===== *)
theory Server_Config
  imports Vox_Strings
begin

text \<open>
  The configuration of the server: \<open>ServerConfig\<close> of \<open>lib/vox_common/config.hpp\<close>, the parser of
  the configuration file in \<open>lib/vox_common/config.cpp\<close>, and the part of \<open>main\<close>
  (\<open>bin/main.cpp\<close>) that combines the defaults, the file, the environment and the command line.
  \<open>size_t\<close> and the narrower unsigned types are \<open>nat\<close> with the range checks of the code; the file
  system and the environment are arguments.
\<close>

section \<open>The configuration\<close>

record ServerConfig =
  cpu_pool_size :: nat
  storage_pool_size :: nat
  task_queue_capacity :: nat
  db_path :: string
  blob_storage_path :: string
  listen_address :: string
  listen_port :: nat
  network_thread_count :: nat
  session_token_pepper :: string
  admin_token :: string
  max_group_size :: nat
  max_channel_size :: nat
  max_queue_depth_per_device :: nat
  max_ws_outbound_queue :: nat
  max_upload_size_bytes :: nat
  max_storage_per_user_bytes :: nat
  max_http_body_bytes :: nat
  auth_rate_limit_max :: nat
  auth_rate_limit_window_seconds :: int
  account_rate_limit_max :: nat
  account_rate_limit_window_seconds :: int
  maintenance_purge_interval_seconds :: int
  access_token_lifetime_seconds :: int
  refresh_token_lifetime_seconds :: int
  message_retention_seconds :: int
  attachment_retention_seconds :: int
  argon2_time_cost :: nat
  argon2_memory_cost :: nat
  argon2_parallelism :: nat

definition ServerConfig_Default :: ServerConfig where
  "ServerConfig_Default = \<lparr>cpu_pool_size = 2, storage_pool_size = 2, task_queue_capacity = 1024,
     db_path = ''vox_server.db'', blob_storage_path = ''blobs'', listen_address = ''127.0.0.1'',
     listen_port = 8080, network_thread_count = 4, session_token_pepper = [], admin_token = [],
     max_group_size = 256, max_channel_size = 10000, max_queue_depth_per_device = 1000,
     max_ws_outbound_queue = 256, max_upload_size_bytes = 100 * 1024 * 1024,
     max_storage_per_user_bytes = 1024 * 1024 * 1024, max_http_body_bytes = 2 * 1024 * 1024,
     auth_rate_limit_max = 60, auth_rate_limit_window_seconds = 60, account_rate_limit_max = 0,
     account_rate_limit_window_seconds = 60, maintenance_purge_interval_seconds = 3600,
     access_token_lifetime_seconds = 15 * 60, refresh_token_lifetime_seconds = 30 * 86400,
     message_retention_seconds = 90 * 86400, attachment_retention_seconds = 90 * 86400,
     argon2_time_cost = 3, argon2_memory_cost = 65536, argon2_parallelism = 1\<rparr>"

section \<open>Values\<close>

definition kMaxListenPort :: nat where
  "kMaxListenPort = 65535"

definition TrimInPlace :: "string \<Rightarrow> string" where
  "TrimInPlace s = rev (dropWhile isspace (rev (dropWhile isspace s)))"

definition ParseStringValue :: "string \<Rightarrow> string" where
  "ParseStringValue v =
     (let s = TrimInPlace v
      in if length s \<ge> 2 \<and> hd s = CHR 0x22 \<and> last s = CHR 0x22 then butlast (tl s) else s)"

text \<open>A failed conversion is its error message.\<close>

definition ParseUInt64 :: "string \<Rightarrow> string + nat" where
  "ParseUInt64 s =
     (let buf = TrimInPlace s
      in if buf = [] then Inl ''empty value''
         else case from_chars_u64 buf of None \<Rightarrow> Inl ''invalid unsigned integer'' | Some v \<Rightarrow> Inr v)"

definition ParseInt64 :: "string \<Rightarrow> string + int" where
  "ParseInt64 s =
     (let buf = TrimInPlace s
      in if buf = [] then Inl ''empty value''
         else case from_chars_i64 buf of None \<Rightarrow> Inl ''invalid integer'' | Some v \<Rightarrow> Inr v)"

text \<open>The three lambdas of \<open>ApplyKey\<close>, given the update of the field.\<close>

definition conf_u64 :: "string \<Rightarrow> (nat \<Rightarrow> ServerConfig) \<Rightarrow> string + ServerConfig" where
  "conf_u64 value field =
     (case ParseUInt64 value of
        Inl e \<Rightarrow> Inl e
      | Inr v \<Rightarrow> if v > 2 ^ 64 - 1 then Inl ''value out of range'' else Inr (field v))"

definition conf_u32 :: "string \<Rightarrow> (nat \<Rightarrow> ServerConfig) \<Rightarrow> string + ServerConfig" where
  "conf_u32 value field =
     (case ParseUInt64 value of
        Inl e \<Rightarrow> Inl e
      | Inr v \<Rightarrow> if v > 2 ^ 32 - 1 then Inl ''value out of range'' else Inr (field v))"

definition conf_i64 :: "string \<Rightarrow> (int \<Rightarrow> ServerConfig) \<Rightarrow> string + ServerConfig" where
  "conf_i64 value field = (case ParseInt64 value of Inl e \<Rightarrow> Inl e | Inr v \<Rightarrow> Inr (field v))"

definition conf_port :: "string \<Rightarrow> (nat \<Rightarrow> ServerConfig) \<Rightarrow> string + ServerConfig" where
  "conf_port value field =
     (case ParseUInt64 value of
        Inl e \<Rightarrow> Inl ''listen_port must fit uint16_t''
      | Inr v \<Rightarrow> if v > kMaxListenPort then Inl ''listen_port must fit uint16_t'' else Inr (field v))"

definition ApplyKey :: "string \<Rightarrow> string \<Rightarrow> ServerConfig \<Rightarrow> string + ServerConfig" where
  "ApplyKey key value c =
     (if key = ''cpu_pool_size'' then conf_u64 value (\<lambda>v. c\<lparr>cpu_pool_size := v\<rparr>)
      else if key = ''storage_pool_size'' then conf_u64 value (\<lambda>v. c\<lparr>storage_pool_size := v\<rparr>)
      else if key = ''task_queue_capacity'' then conf_u64 value (\<lambda>v. c\<lparr>task_queue_capacity := v\<rparr>)
      else if key = ''db_path'' then Inr (c\<lparr>db_path := ParseStringValue value\<rparr>)
      else if key = ''blob_storage_path'' then Inr (c\<lparr>blob_storage_path := ParseStringValue value\<rparr>)
      else if key = ''listen_address'' then Inr (c\<lparr>listen_address := ParseStringValue value\<rparr>)
      else if key = ''listen_port'' then conf_port value (\<lambda>v. c\<lparr>listen_port := v\<rparr>)
      else if key = ''network_thread_count'' then conf_u64 value (\<lambda>v. c\<lparr>network_thread_count := v\<rparr>)
      else if key = ''session_token_pepper'' then Inr (c\<lparr>session_token_pepper := ParseStringValue value\<rparr>)
      else if key = ''admin_token'' then Inr (c\<lparr>admin_token := ParseStringValue value\<rparr>)
      else if key = ''max_group_size'' then conf_u64 value (\<lambda>v. c\<lparr>max_group_size := v\<rparr>)
      else if key = ''max_channel_size'' then conf_u64 value (\<lambda>v. c\<lparr>max_channel_size := v\<rparr>)
      else if key = ''max_queue_depth_per_device'' then conf_u64 value (\<lambda>v. c\<lparr>max_queue_depth_per_device := v\<rparr>)
      else if key = ''max_ws_outbound_queue'' then conf_u64 value (\<lambda>v. c\<lparr>max_ws_outbound_queue := v\<rparr>)
      else if key = ''max_upload_size_bytes'' then conf_u64 value (\<lambda>v. c\<lparr>max_upload_size_bytes := v\<rparr>)
      else if key = ''max_storage_per_user_bytes'' then conf_u64 value (\<lambda>v. c\<lparr>max_storage_per_user_bytes := v\<rparr>)
      else if key = ''max_http_body_bytes'' then conf_u64 value (\<lambda>v. c\<lparr>max_http_body_bytes := v\<rparr>)
      else if key = ''auth_rate_limit_max'' then conf_u64 value (\<lambda>v. c\<lparr>auth_rate_limit_max := v\<rparr>)
      else if key = ''auth_rate_limit_window_seconds''
        then conf_i64 value (\<lambda>v. c\<lparr>auth_rate_limit_window_seconds := v\<rparr>)
      else if key = ''account_rate_limit_max'' then conf_u64 value (\<lambda>v. c\<lparr>account_rate_limit_max := v\<rparr>)
      else if key = ''account_rate_limit_window_seconds''
        then conf_i64 value (\<lambda>v. c\<lparr>account_rate_limit_window_seconds := v\<rparr>)
      else if key = ''maintenance_purge_interval_seconds''
        then conf_i64 value (\<lambda>v. c\<lparr>maintenance_purge_interval_seconds := v\<rparr>)
      else if key = ''access_token_lifetime_seconds''
        then conf_i64 value (\<lambda>v. c\<lparr>access_token_lifetime_seconds := v\<rparr>)
      else if key = ''refresh_token_lifetime_seconds''
        then conf_i64 value (\<lambda>v. c\<lparr>refresh_token_lifetime_seconds := v\<rparr>)
      else if key = ''message_retention_seconds'' then conf_i64 value (\<lambda>v. c\<lparr>message_retention_seconds := v\<rparr>)
      else if key = ''attachment_retention_seconds''
        then conf_i64 value (\<lambda>v. c\<lparr>attachment_retention_seconds := v\<rparr>)
      else if key = ''argon2_time_cost'' then conf_u32 value (\<lambda>v. c\<lparr>argon2_time_cost := v\<rparr>)
      else if key = ''argon2_memory_cost'' then conf_u32 value (\<lambda>v. c\<lparr>argon2_memory_cost := v\<rparr>)
      else if key = ''argon2_parallelism'' then conf_u32 value (\<lambda>v. c\<lparr>argon2_parallelism := v\<rparr>)
      else Inr c)"

section \<open>The file\<close>

text \<open>The lines that successive calls of \<open>std::getline\<close> return.\<close>

function getlines :: "string \<Rightarrow> string list" where
  "getlines s = (case split_at_char (CHR 0x0A) s of
     None \<Rightarrow> if s = [] then [] else [s]
   | Some (l, rest) \<Rightarrow> l # getlines rest)"
  by pat_completeness auto
termination by (relation "measure length") (auto dest: split_at_char_length)

declare getlines.simps [simp del]

text \<open>One line: the text before the first number sign, trimmed; \<open>None\<close> for a blank one.\<close>

definition strip_comment :: "string \<Rightarrow> string" where
  "strip_comment line =
     TrimInPlace (case split_at_char (CHR ''#'') line of None \<Rightarrow> line | Some (l, _) \<Rightarrow> l)"

definition load_line :: "nat \<Rightarrow> string \<Rightarrow> ServerConfig \<Rightarrow> string + ServerConfig" where
  "load_line line_no text c =
     (let line = strip_comment text
      in if line = [] then Inr c
         else case split_at_char (CHR ''='') line of
                None \<Rightarrow> Inl (''line '' @ show_int (int line_no) @ '': expected key = value'')
              | Some (k, v) \<Rightarrow>
                  let key = TrimInPlace k; value = TrimInPlace v
                  in if key = [] then Inl (''line '' @ show_int (int line_no) @ '': empty key'')
                     else case ApplyKey key value c of
                            Inl err \<Rightarrow> Inl (''line '' @ show_int (int line_no) @ '' ('' @ key @ ''): '' @ err)
                          | Inr c' \<Rightarrow> Inr c')"

fun load_lines :: "nat \<Rightarrow> string list \<Rightarrow> ServerConfig \<Rightarrow> string + ServerConfig" where
  "load_lines line_no [] c = Inr c"
| "load_lines line_no (l # ls) c =
     (case load_line (line_no + 1) l c of Inl e \<Rightarrow> Inl e | Inr c' \<Rightarrow> load_lines (line_no + 1) ls c')"

text \<open>The contents of the file, \<open>None\<close> where it cannot be opened.\<close>

definition LoadServerConfigFile :: "string option \<Rightarrow> ServerConfig \<Rightarrow> string + ServerConfig" where
  "LoadServerConfigFile file config =
     (case file of None \<Rightarrow> Inl ''cannot open file'' | Some text \<Rightarrow> load_lines 0 (getlines text) config)"

section \<open>Start-up\<close>

text \<open>\<open>std::stoi\<close>, which throws outside the range of \<open>int\<close>.\<close>

definition stoi :: "string \<Rightarrow> int option" where
  "stoi s = (case strto 10 s of None \<Rightarrow> None | Some v \<Rightarrow> if in_i32 v then Some v else None)"

fun explicit_config :: "string list \<Rightarrow> string option \<Rightarrow> string option" where
  "explicit_config (arg # value # rest) path =
     (if arg = ''--config'' then explicit_config rest (Some value) else explicit_config (value # rest) path)"
| "explicit_config _ path = path"

text \<open>
  The last loop over the arguments; \<open>None\<close> is an exception of \<open>std::stoi\<close> or \<open>std::stoull\<close>,
  which nothing catches. The cast to \<open>uint16_t\<close> keeps the low 16 bits.
\<close>

fun apply_args :: "string list \<Rightarrow> ServerConfig \<Rightarrow> ServerConfig option" where
  "apply_args (arg # value # rest) c =
     (if arg = ''--config'' then apply_args rest c
      else if arg = ''--listen'' then apply_args rest (c\<lparr>listen_address := value\<rparr>)
      else if arg = ''--port'' then
        (case stoi value of None \<Rightarrow> None
         | Some v \<Rightarrow> apply_args rest (c\<lparr>listen_port := nat (v mod 2 ^ 16)\<rparr>))
      else if arg = ''--db'' then apply_args rest (c\<lparr>db_path := value\<rparr>)
      else if arg = ''--blobs'' then apply_args rest (c\<lparr>blob_storage_path := value\<rparr>)
      else if arg = ''--threads'' then
        (case stoull value of None \<Rightarrow> None | Some v \<Rightarrow> apply_args rest (c\<lparr>network_thread_count := v\<rparr>))
      else if arg = ''--session-pepper'' then apply_args rest (c\<lparr>session_token_pepper := value\<rparr>)
      else if arg = ''--admin-token'' then apply_args rest (c\<lparr>admin_token := value\<rparr>)
      else apply_args (value # rest) c)"
| "apply_args _ c = Some c"

text \<open>The surroundings of the process: three variables, the implicit file, and file contents.\<close>

record surroundings =
  env_config_file :: "string option"
  env_session_pepper :: "string option"
  env_admin_token :: "string option"
  implicit_path :: string
  implicit_exists :: bool
  open_file :: "string \<Rightarrow> string option"

datatype startup = Exit nat | Terminated | Serve ServerConfig

definition config_to_load :: "string list \<Rightarrow> surroundings \<Rightarrow> string option" where
  "config_to_load args env =
     (let from_env = (case explicit_config args None of
            Some path \<Rightarrow> Some path
          | None \<Rightarrow> (case env_config_file env of
                Some path \<Rightarrow> if path \<noteq> [] then Some path else None
              | None \<Rightarrow> None))
      in case from_env of
           Some path \<Rightarrow> Some path
         | None \<Rightarrow> if implicit_exists env then Some (implicit_path env) else None)"

definition file_config :: "string list \<Rightarrow> surroundings \<Rightarrow> string + ServerConfig" where
  "file_config args env =
     (case config_to_load args env of
        None \<Rightarrow> Inr ServerConfig_Default
      | Some path \<Rightarrow> LoadServerConfigFile (open_file env path) ServerConfig_Default)"

definition env_config :: "surroundings \<Rightarrow> ServerConfig \<Rightarrow> ServerConfig" where
  "env_config env c =
     (let c1 = (case env_session_pepper env of None \<Rightarrow> c | Some p \<Rightarrow> c\<lparr>session_token_pepper := p\<rparr>)
      in case env_admin_token env of None \<Rightarrow> c1 | Some p \<Rightarrow> c1\<lparr>admin_token := p\<rparr>)"

definition main_startup :: "string list \<Rightarrow> surroundings \<Rightarrow> startup" where
  "main_startup args env =
     (if ''--help'' \<in> set args \<or> ''-h'' \<in> set args then Exit 0
      else case file_config args env of
             Inl err \<Rightarrow> Exit 1
           | Inr c \<Rightarrow>
               (case apply_args args (env_config env c) of
                  None \<Rightarrow> Terminated
                | Some c' \<Rightarrow> if session_token_pepper c' = [] then Exit 1 else Serve c'))"

section \<open>Trimming and the lines of a file\<close>

lemma TrimInPlace_id:
  assumes "s = [] \<or> \<not> isspace (hd s) \<and> \<not> isspace (last s)"
  shows "TrimInPlace s = s"
proof (cases "s = []")
  case False
  then have "dropWhile isspace s = s" "dropWhile isspace (rev s) = rev s"
    using assms by (simp_all add: dropWhile_eq_self_iff hd_rev)
  then show ?thesis by (simp add: TrimInPlace_def)
qed (simp add: TrimInPlace_def)

lemma TrimInPlace_space:
  "TrimInPlace (CHR '' '' # s) = TrimInPlace s" "TrimInPlace (s @ '' '') = TrimInPlace s"
proof -
  have sp: "isspace (CHR '' '')" by (simp add: isspace_def)
  then show "TrimInPlace (CHR '' '' # s) = TrimInPlace s" by (simp add: TrimInPlace_def)
  show "TrimInPlace (s @ '' '') = TrimInPlace s"
    using sp by (cases "\<forall>c \<in> set s. isspace c") (auto simp: TrimInPlace_def dropWhile_append dest: set_dropWhileD)
qed

lemma getlines_Cons [simp]: "CHR 0x0A \<notin> set l \<Longrightarrow> getlines (l @ CHR 0x0A # rest) = l # getlines rest"
  by (subst getlines.simps) simp

lemma getlines_Nil [simp]: "getlines [] = []"
  by (simp add: getlines.simps)

section \<open>Printing a configuration\<close>

text \<open>
  The inverse of the parser: every setting on a line of its own, in the order of \<open>ApplyKey\<close>, the
  strings between quotes. It can be read back when the strings have no line break and no
  number sign and the numbers fit their types.
\<close>

definition quoted :: "string \<Rightarrow> string" where
  "quoted s = CHR 0x22 # s @ [CHR 0x22]"

definition plain_text :: "string \<Rightarrow> bool" where
  "plain_text s \<longleftrightarrow> CHR ''#'' \<notin> set s \<and> CHR 0x0A \<notin> set s"

definition config_entries :: "ServerConfig \<Rightarrow> (string \<times> string) list" where
  "config_entries c = [
     (''cpu_pool_size'', show_int (int (cpu_pool_size c))),
     (''storage_pool_size'', show_int (int (storage_pool_size c))),
     (''task_queue_capacity'', show_int (int (task_queue_capacity c))),
     (''db_path'', quoted (db_path c)),
     (''blob_storage_path'', quoted (blob_storage_path c)),
     (''listen_address'', quoted (listen_address c)),
     (''listen_port'', show_int (int (listen_port c))),
     (''network_thread_count'', show_int (int (network_thread_count c))),
     (''session_token_pepper'', quoted (session_token_pepper c)),
     (''admin_token'', quoted (admin_token c)),
     (''max_group_size'', show_int (int (max_group_size c))),
     (''max_channel_size'', show_int (int (max_channel_size c))),
     (''max_queue_depth_per_device'', show_int (int (max_queue_depth_per_device c))),
     (''max_ws_outbound_queue'', show_int (int (max_ws_outbound_queue c))),
     (''max_upload_size_bytes'', show_int (int (max_upload_size_bytes c))),
     (''max_storage_per_user_bytes'', show_int (int (max_storage_per_user_bytes c))),
     (''max_http_body_bytes'', show_int (int (max_http_body_bytes c))),
     (''auth_rate_limit_max'', show_int (int (auth_rate_limit_max c))),
     (''auth_rate_limit_window_seconds'', show_int (auth_rate_limit_window_seconds c)),
     (''account_rate_limit_max'', show_int (int (account_rate_limit_max c))),
     (''account_rate_limit_window_seconds'', show_int (account_rate_limit_window_seconds c)),
     (''maintenance_purge_interval_seconds'', show_int (maintenance_purge_interval_seconds c)),
     (''access_token_lifetime_seconds'', show_int (access_token_lifetime_seconds c)),
     (''refresh_token_lifetime_seconds'', show_int (refresh_token_lifetime_seconds c)),
     (''message_retention_seconds'', show_int (message_retention_seconds c)),
     (''attachment_retention_seconds'', show_int (attachment_retention_seconds c)),
     (''argon2_time_cost'', show_int (int (argon2_time_cost c))),
     (''argon2_memory_cost'', show_int (int (argon2_memory_cost c))),
     (''argon2_parallelism'', show_int (int (argon2_parallelism c)))]"

definition entry_line :: "string \<times> string \<Rightarrow> string" where
  "entry_line e = fst e @ '' = '' @ snd e"

definition print_config :: "ServerConfig \<Rightarrow> string" where
  "print_config c = concat (map (\<lambda>e. entry_line e @ [CHR 0x0A]) (config_entries c))"

definition valid_config :: "ServerConfig \<Rightarrow> bool" where
  "valid_config c \<longleftrightarrow>
     list_all (\<lambda>n. n < 2 ^ 64) [cpu_pool_size c, storage_pool_size c, task_queue_capacity c,
       network_thread_count c, max_group_size c, max_channel_size c, max_queue_depth_per_device c,
       max_ws_outbound_queue c, max_upload_size_bytes c, max_storage_per_user_bytes c,
       max_http_body_bytes c, auth_rate_limit_max c, account_rate_limit_max c] \<and>
list_all (\<lambda>n. n < 2 ^ 32) [argon2_time_cost c, argon2_memory_cost c, argon2_parallelism c]
       \<and>
listen_port c < 2 ^ 16 \<and>
list_all in_i64 [auth_rate_limit_window_seconds c, account_rate_limit_window_seconds c,
       maintenance_purge_interval_seconds c, access_token_lifetime_seconds c,
       refresh_token_lifetime_seconds c, message_retention_seconds c, attachment_retention_seconds
       c] \<and>
list_all plain_text [db_path c, blob_storage_path c, listen_address c, session_token_pepper c,
       admin_token c]"

lemma ApplyKey_simps:
  "ApplyKey ''cpu_pool_size'' v c = conf_u64 v (\<lambda>x. c\<lparr>cpu_pool_size := x\<rparr>)"
  "ApplyKey ''storage_pool_size'' v c = conf_u64 v (\<lambda>x. c\<lparr>storage_pool_size := x\<rparr>)"
  "ApplyKey ''task_queue_capacity'' v c = conf_u64 v (\<lambda>x. c\<lparr>task_queue_capacity := x\<rparr>)"
  "ApplyKey ''db_path'' v c = Inr (c\<lparr>db_path := ParseStringValue v\<rparr>)"
  "ApplyKey ''blob_storage_path'' v c = Inr (c\<lparr>blob_storage_path := ParseStringValue v\<rparr>)"
  "ApplyKey ''listen_address'' v c = Inr (c\<lparr>listen_address := ParseStringValue v\<rparr>)"
  "ApplyKey ''listen_port'' v c = conf_port v (\<lambda>x. c\<lparr>listen_port := x\<rparr>)"
  "ApplyKey ''network_thread_count'' v c = conf_u64 v (\<lambda>x. c\<lparr>network_thread_count := x\<rparr>)"
  "ApplyKey ''session_token_pepper'' v c = Inr (c\<lparr>session_token_pepper := ParseStringValue v\<rparr>)"
  "ApplyKey ''admin_token'' v c = Inr (c\<lparr>admin_token := ParseStringValue v\<rparr>)"
  "ApplyKey ''max_group_size'' v c = conf_u64 v (\<lambda>x. c\<lparr>max_group_size := x\<rparr>)"
  "ApplyKey ''max_channel_size'' v c = conf_u64 v (\<lambda>x. c\<lparr>max_channel_size := x\<rparr>)"
  "ApplyKey ''max_queue_depth_per_device'' v c = conf_u64 v (\<lambda>x. c\<lparr>max_queue_depth_per_device := x\<rparr>)"
  "ApplyKey ''max_ws_outbound_queue'' v c = conf_u64 v (\<lambda>x. c\<lparr>max_ws_outbound_queue := x\<rparr>)"
  "ApplyKey ''max_upload_size_bytes'' v c = conf_u64 v (\<lambda>x. c\<lparr>max_upload_size_bytes := x\<rparr>)"
  "ApplyKey ''max_storage_per_user_bytes'' v c = conf_u64 v (\<lambda>x. c\<lparr>max_storage_per_user_bytes := x\<rparr>)"
  "ApplyKey ''max_http_body_bytes'' v c = conf_u64 v (\<lambda>x. c\<lparr>max_http_body_bytes := x\<rparr>)"
  "ApplyKey ''auth_rate_limit_max'' v c = conf_u64 v (\<lambda>x. c\<lparr>auth_rate_limit_max := x\<rparr>)"
  "ApplyKey ''auth_rate_limit_window_seconds'' v c = conf_i64 v (\<lambda>x. c\<lparr>auth_rate_limit_window_seconds := x\<rparr>)"
  "ApplyKey ''account_rate_limit_max'' v c = conf_u64 v (\<lambda>x. c\<lparr>account_rate_limit_max := x\<rparr>)"
  "ApplyKey ''account_rate_limit_window_seconds'' v c = conf_i64 v (\<lambda>x. c\<lparr>account_rate_limit_window_seconds := x\<rparr>)"
  "ApplyKey ''maintenance_purge_interval_seconds'' v c = conf_i64 v (\<lambda>x. c\<lparr>maintenance_purge_interval_seconds := x\<rparr>)"
  "ApplyKey ''access_token_lifetime_seconds'' v c = conf_i64 v (\<lambda>x. c\<lparr>access_token_lifetime_seconds := x\<rparr>)"
  "ApplyKey ''refresh_token_lifetime_seconds'' v c = conf_i64 v (\<lambda>x. c\<lparr>refresh_token_lifetime_seconds := x\<rparr>)"
  "ApplyKey ''message_retention_seconds'' v c = conf_i64 v (\<lambda>x. c\<lparr>message_retention_seconds := x\<rparr>)"
  "ApplyKey ''attachment_retention_seconds'' v c = conf_i64 v (\<lambda>x. c\<lparr>attachment_retention_seconds := x\<rparr>)"
  "ApplyKey ''argon2_time_cost'' v c = conf_u32 v (\<lambda>x. c\<lparr>argon2_time_cost := x\<rparr>)"
  "ApplyKey ''argon2_memory_cost'' v c = conf_u32 v (\<lambda>x. c\<lparr>argon2_memory_cost := x\<rparr>)"
  "ApplyKey ''argon2_parallelism'' v c = conf_u32 v (\<lambda>x. c\<lparr>argon2_parallelism := x\<rparr>)"
  by (simp_all add: ApplyKey_def)

lemma from_chars_u64_show: "n < 2 ^ 64 \<Longrightarrow> from_chars_u64 (show_int (int n)) = Some n"
  using digits_10_props(1) [of n] digits_value_digits [of 10 n] by (simp add: from_chars_u64_def show_int_def)

text \<open>A text that starts and ends with a visible character and has no comment.\<close>

definition visible :: "string \<Rightarrow> bool" where
  "visible s \<longleftrightarrow> s \<noteq> [] \<and> \<not> isspace (hd s) \<and> \<not> isspace (last s) \<and> plain_text s"

lemma TrimInPlace_visible [simp]: "visible s \<Longrightarrow> TrimInPlace s = s"
  by (simp add: visible_def TrimInPlace_id)

lemma digit_visible: "is_digit 10 c \<Longrightarrow> c \<noteq> CHR ''#'' \<and> c \<noteq> CHR 0x0A \<and> \<not> isspace c"
  by (auto simp: is_digit_def digit_value_def isspace_def Let_def split: if_splits)

lemma visible_digits: "visible (digits 10 n)"
proof -
  have "c \<noteq> CHR ''#'' \<and> c \<noteq> CHR 0x0A \<and> \<not> isspace c" if "c \<in> set (digits 10 n)" for c
    using that digits_10_props(1) [of n] digit_visible by (simp add: list_all_iff)
  then show ?thesis by (auto simp: visible_def plain_text_def)
qed

lemma visible_show_int: "visible (show_int x)"
  using visible_digits [of "nat \<bar>x\<bar>"]
  by (auto simp: show_int_def visible_def plain_text_def isspace_def)

lemma visible_quoted: "plain_text s \<Longrightarrow> visible (quoted s)"
  by (simp add: visible_def quoted_def plain_text_def isspace_def)

lemma ParseStringValue_quoted: "plain_text s \<Longrightarrow> ParseStringValue (quoted s) = s"
  by (simp add: ParseStringValue_def visible_quoted) (simp add: quoted_def)

lemma conf_values:
  "n < 2 ^ 64 \<Longrightarrow> conf_u64 (show_int (int n)) f = Inr (f n)"
  "n < 2 ^ 32 \<Longrightarrow> conf_u32 (show_int (int n)) f = Inr (f n)"
  "n < 2 ^ 16 \<Longrightarrow> conf_port (show_int (int n)) f = Inr (f n)"
  "in_i64 x \<Longrightarrow> conf_i64 (show_int x) g = Inr (g x)"
  using visible_show_int [of "int n"] visible_show_int [of x]
  by (simp_all add: conf_u64_def conf_u32_def conf_port_def conf_i64_def ParseUInt64_def ParseInt64_def
      from_chars_u64_show kMaxListenPort_def visible_def [of "show_int _"] Let_def)

fun apply_entries :: "(string \<times> string) list \<Rightarrow> ServerConfig \<Rightarrow> ServerConfig option" where
  "apply_entries [] c = Some c"
| "apply_entries (e # es) c = (case ApplyKey (fst e) (snd e) c of Inl _ \<Rightarrow> None | Inr c' \<Rightarrow> apply_entries es c')"

definition plain_entry :: "string \<times> string \<Rightarrow> bool" where
  "plain_entry e \<longleftrightarrow> visible (fst e) \<and> CHR ''='' \<notin> set (fst e) \<and> visible (snd e)"

lemma load_line_entry:
  assumes "plain_entry e" and "ApplyKey (fst e) (snd e) c = Inr c'"
  shows "load_line n (entry_line e) c = Inr c'"
proof -
  obtain k v where e: "e = (k, v)" by (cases e)
  have k: "visible k" "CHR ''='' \<notin> set k" and v: "visible v" using assms(1) by (simp_all add: plain_entry_def e)
  have line: "entry_line e = (k @ '' '') @ CHR ''='' # (CHR '' '' # v)" by (simp add: entry_line_def e)
  have "CHR ''#'' \<notin> set (entry_line e)" using k v by (auto simp: line visible_def plain_text_def)
  then have "split_at_char (CHR ''#'') (entry_line e) = None" by simp
  moreover have "TrimInPlace (entry_line e) = entry_line e"
    using k v by (intro TrimInPlace_id) (auto simp: line visible_def)
  ultimately have s: "strip_comment (entry_line e) = entry_line e"
    by (simp only: strip_comment_def option.case)
  have "CHR ''='' \<notin> set (k @ '' '')" using k by simp
  then have "split_at_char (CHR ''='') (entry_line e) = Some (k @ '' '', CHR '' '' # v)"
    unfolding line by (rule split_at_char_append)
  moreover have "TrimInPlace (k @ '' '') = k" "TrimInPlace (CHR '' '' # v) = v" "k \<noteq> []"
    using k v by (simp_all add: TrimInPlace_space) (simp add: visible_def)
  moreover have "entry_line e \<noteq> []" by (simp add: line)
  moreover have "ApplyKey k v c = Inr c'" using assms(2) by (simp add: e)
  ultimately show ?thesis by (simp add: load_line_def s Let_def)
qed

lemma load_lines_entries:
  assumes "list_all plain_entry es" and "apply_entries es c = Some c'"
  shows "load_lines n (map entry_line es) c = Inr c'"
  using assms
proof (induction es arbitrary: n c)
  case (Cons e es)
  then show ?case by (auto simp: load_line_entry split: sum.splits)
qed simp

lemma getlines_entries:
  assumes "list_all plain_entry es"
  shows "getlines (concat (map (\<lambda>e. entry_line e @ [CHR 0x0A]) es)) = map entry_line es"
  using assms
proof (induction es)
  case (Cons e es)
  then have "CHR 0x0A \<notin> set (entry_line e)"
    by (auto simp: plain_entry_def entry_line_def visible_def plain_text_def)
  then show ?case using Cons by simp
qed simp

lemma config_entries_plain: "valid_config c \<Longrightarrow> list_all plain_entry (config_entries c)"
  by (simp add: config_entries_def plain_entry_def valid_config_def visible_show_int visible_quoted)
     (simp add: visible_def plain_text_def isspace_def)

lemma apply_config_entries: "valid_config c \<Longrightarrow> apply_entries (config_entries c) c0 = Some c"
  by (cases c) (simp add: config_entries_def valid_config_def ApplyKey_simps conf_values ParseStringValue_quoted)

text \<open>
  C22: The configuration file can say everything. For every configuration whose numbers fit their
  types and whose strings have no number sign and no line break, the file that states its 29
  settings one per line is accepted and gives back exactly that configuration, whatever the
  values before.
\<close>

theorem config_roundtrip:
  assumes "valid_config c"
  shows "LoadServerConfigFile (Some (print_config c)) c0 = Inr c"
  using load_lines_entries [OF config_entries_plain apply_config_entries, OF assms assms, of 0 c0]
    getlines_entries [OF config_entries_plain [OF assms]]
  by (simp add: LoadServerConfigFile_def print_config_def)

theorem config_roundtrip_witness:
  "valid_config ServerConfig_Default \<and>
   LoadServerConfigFile (Some (print_config ServerConfig_Default)) ServerConfig_Default = Inr ServerConfig_Default"
proof -
  have "valid_config ServerConfig_Default"
    by (simp add: valid_config_def ServerConfig_Default_def plain_text_def in_i64_def)
  then show ?thesis using config_roundtrip by blast
qed

text \<open>
  A number sign ends the line wherever it stands, also between quotes. A quoted secret that
  contains one is cut there without an error: what is loaded is the opening quote and the part
  before the sign. The header of the parser says that lines starting with the sign are skipped.
\<close>

theorem config_hash_truncates:
  assumes "plain_text a" and "a \<noteq> []" and "\<not> isspace (last a)" and "last a \<noteq> CHR 0x22"
    and "CHR 0x0A \<notin> set b"
  shows "LoadServerConfigFile
      (Some (entry_line (''session_token_pepper'', quoted (a @ CHR ''#'' # b)))) c =
    Inr (c\<lparr>session_token_pepper := CHR 0x22 # a\<rparr>)"
proof -
  define k where "k = ''session_token_pepper''"
  define row where "row = entry_line (k, quoted (a @ CHR ''#'' # b))"
  have k: "visible k" "CHR ''='' \<notin> set k" by (simp_all add: k_def visible_def plain_text_def isspace_def)
  have v: "visible (CHR 0x22 # a)" using assms by (simp add: visible_def plain_text_def isspace_def)
  have row: "row = entry_line (k, CHR 0x22 # a) @ CHR ''#'' # (b @ [CHR 0x22])"
    by (simp add: row_def entry_line_def quoted_def)
  have n: "CHR ''#'' \<notin> set (entry_line (k, CHR 0x22 # a))"
    using k v by (simp add: entry_line_def visible_def plain_text_def)
  then have "split_at_char (CHR ''#'') row = Some (entry_line (k, CHR 0x22 # a), b @ [CHR 0x22])"
    unfolding row by (rule split_at_char_append)
  moreover have "split_at_char (CHR ''#'') (entry_line (k, CHR 0x22 # a)) = None" using n by simp
  ultimately have "strip_comment row = strip_comment (entry_line (k, CHR 0x22 # a))"
    by (simp only: strip_comment_def option.case prod.case)
  then have "load_line 1 row c = load_line 1 (entry_line (k, CHR 0x22 # a)) c"
    by (simp only: load_line_def)
  also have "\<dots> = Inr (c\<lparr>session_token_pepper := CHR 0x22 # a\<rparr>)"
    using k v assms by (intro load_line_entry)
      (simp_all add: plain_entry_def k_def ApplyKey_simps ParseStringValue_def)
  finally have "load_line 1 row c = Inr (c\<lparr>session_token_pepper := CHR 0x22 # a\<rparr>)" .
  moreover have "getlines row = [row]"
  proof -
    have "CHR 0x0A \<notin> set row"
      using assms by (simp add: row_def entry_line_def quoted_def k_def plain_text_def)
    moreover have "row \<noteq> []" by (simp add: row_def entry_line_def)
    ultimately show ?thesis by (subst getlines.simps) (simp add: split_at_char_None [THEN iffD2])
  qed
  ultimately show ?thesis by (simp add: LoadServerConfigFile_def row_def k_def)
qed

theorem config_hash_truncates_witness:
  "LoadServerConfigFile
      (Some (entry_line (''session_token_pepper'', quoted (''s3'' @ CHR ''#'' # ''cret'')))) ServerConfig_Default =
    Inr (ServerConfig_Default\<lparr>session_token_pepper := CHR 0x22 # ''s3''\<rparr>)"
  by (rule config_hash_truncates) (simp_all add: plain_text_def isspace_def)

section \<open>Precedence\<close>

text \<open>The options on the command line with their values, as the last loop reads them.\<close>

fun options :: "string list \<Rightarrow> (string \<times> string) list" where
  "options (arg # value # rest) =
     (if arg \<in> {''--config'', ''--listen'', ''--port'', ''--db'', ''--blobs'', ''--threads'',
                ''--session-pepper'', ''--admin-token''}
      then (arg, value) # options rest else options (value # rest))"
| "options _ = []"

definition last_option :: "string \<Rightarrow> string list \<Rightarrow> string option" where
  "last_option name args = map_of (rev (options args)) name"

definition override :: "'a option \<Rightarrow> 'a \<Rightarrow> 'a" where
  "override x y = (case x of None \<Rightarrow> y | Some v \<Rightarrow> v)"

lemma last_option_Cons:
  "map_of (rev ((k, v) # ps)) name =
     (case map_of (rev ps) name of None \<Rightarrow> if k = name then Some v else None | Some w \<Rightarrow> Some w)"
  by (simp add: map_add_def split: option.split)

fun apply_options :: "(string \<times> string) list \<Rightarrow> ServerConfig \<Rightarrow> ServerConfig option" where
  "apply_options [] c = Some c"
| "apply_options (p # ps) c =
     (case apply_args [fst p, snd p] c of None \<Rightarrow> None | Some c' \<Rightarrow> apply_options ps c')"

lemma apply_args_options: "apply_args args c = apply_options (options args) c"
  by (induction args c rule: apply_args.induct) (simp_all split: option.split)

lemma apply_one_option:
  assumes "apply_args [k, v] c = Some c'"
  shows "session_token_pepper c' = (if k = ''--session-pepper'' then v else session_token_pepper c)"
    and "admin_token c' = (if k = ''--admin-token'' then v else admin_token c)"
    and "listen_port c < 2 ^ 16 \<Longrightarrow> listen_port c' < 2 ^ 16"
  using assms by (auto split: if_splits option.splits)

lemma apply_options_field:
  assumes "apply_options ps c = Some c'"
    and field: "\<And>k v c c'. apply_args [k, v] c = Some c' \<Longrightarrow> f c' = (if k = name then v else f c)"
  shows "f c' = override (map_of (rev ps) name) (f c)"
  using assms(1)
proof (induction ps arbitrary: c)
  case (Cons p ps)
  then obtain c1 where c1: "apply_args [fst p, snd p] c = Some c1" "apply_options ps c1 = Some c'"
    by (auto simp del: apply_args.simps split: option.splits)
  have "map_of (rev (p # ps)) name =
      (case map_of (rev ps) name of None \<Rightarrow> if fst p = name then Some (snd p) else None | Some w \<Rightarrow> Some w)"
    using last_option_Cons [of "fst p" "snd p" ps name] by simp
  then show ?case
    using Cons.IH [OF c1(2)] field [OF c1(1)] by (simp add: override_def split: option.splits)
qed (simp add: override_def)

lemma apply_options_port:
  "apply_options ps c = Some c' \<Longrightarrow> listen_port c < 2 ^ 16 \<Longrightarrow> listen_port c' < 2 ^ 16"
  by (induction ps arbitrary: c) (auto simp del: apply_args.simps dest: apply_one_option(3) split: option.splits)

lemma conf_port_range:
  "conf_u64 v f = Inr c' \<Longrightarrow> (\<And>n. P (f n)) \<Longrightarrow> P c'"
  "conf_u32 v f = Inr c' \<Longrightarrow> (\<And>n. P (f n)) \<Longrightarrow> P c'"
  "conf_i64 v g = Inr c' \<Longrightarrow> (\<And>x. P (g x)) \<Longrightarrow> P c'"
  "conf_port v f = Inr c' \<Longrightarrow> (\<And>n. n < 2 ^ 16 \<Longrightarrow> P (f n)) \<Longrightarrow> P c'"
  by (auto simp: conf_u64_def conf_u32_def conf_i64_def conf_port_def kMaxListenPort_def
      split: sum.splits if_splits)

lemma ApplyKey_port:
  assumes "ApplyKey key v c = Inr c'" and "listen_port c < 2 ^ 16"
  shows "listen_port c' < 2 ^ 16"
  using assms unfolding ApplyKey_def
  by (simp split: if_splits) ((erule conf_port_range, simp) | clarsimp)+

lemma load_lines_port:
  "load_lines n ls c = Inr c' \<Longrightarrow> listen_port c < 2 ^ 16 \<Longrightarrow> listen_port c' < 2 ^ 16"
proof (induction ls arbitrary: n c)
  case (Cons l ls)
  then obtain c1 where c1: "load_line (n + 1) l c = Inr c1" "load_lines (n + 1) ls c1 = Inr c'"
    by (auto split: sum.splits)
  then have "c1 = c \<or> (\<exists>k v. ApplyKey k v c = Inr c1)"
    by (auto simp: load_line_def Let_def split: if_splits option.splits sum.splits)
  then have "listen_port c1 < 2 ^ 16" using ApplyKey_port Cons.prems(2) by blast
  then show ?case using Cons.IH [OF c1(2)] by blast
qed simp

lemma file_config_port: "file_config args env = Inr c \<Longrightarrow> listen_port c < 2 ^ 16"
  by (auto simp: file_config_def LoadServerConfigFile_def ServerConfig_Default_def
      dest!: load_lines_port split: option.splits)


definition sample_surroundings :: surroundings where
  "sample_surroundings = \<lparr>env_config_file = None, env_session_pepper = Some ''from-env'',
     env_admin_token = None, implicit_path = ''vox.conf'', implicit_exists = False, open_file = (\<lambda>_. None)\<rparr>"


end
