(* ===== verification/Relay_Service.thy ===== *)
theory Relay_Service
  imports Delivery_Manager Server_Config
begin

text \<open>
  \<open>RelayService\<close> (\<open>lib/vox_relay/relay_service.cpp\<close>): a message is checked, stored once, and
  fanned out to the devices of the members (or of the subscribers of a channel), to the in-memory
  queue of a device where there is room and to the database where there is not. The state is the
  delivery manager and the database; the clock and the UUID are arguments.
\<close>

section \<open>The service\<close>

record SendMessageRequest =
  sm_sender_user_id :: UserId
  sm_sender_device_id :: DeviceId
  sm_conversation_id :: ConversationId
  sm_ciphertext :: string
  sm_envelope_id :: string
  sm_envelope_type :: int
  sm_ordering_epoch :: "int option"

record SendMessageResponse =
  smr_envelope_id :: EnvelopeId
  smr_server_timestamp :: Timestamp
  smr_delivered_to_count :: nat

type_synonym relay_state = "DeliveryManager \<times> db"

definition everyone_policy :: string where
  "everyone_policy = CHR 0x22 # ''channel_post_policy'' @ CHR 0x22 # CHR '':'' # CHR 0x22 # ''everyone'' @ [CHR 0x22]"

definition is_manager :: "MemberRole \<Rightarrow> bool" where
  "is_manager role \<longleftrightarrow> role = kOwner \<or> role = kAdmin"

text \<open>The checks of \<open>SendEnvelope\<close> up to the id, in the order of the code.\<close>

definition send_checks :: "SendMessageRequest \<Rightarrow> db \<Rightarrow> conversation_row Result" where
  "send_checks request d =
     (if sm_ciphertext request = [] then unexpected kInvalidArgument ''Ciphertext is required''
      else case FindByUserAndDevice (sm_sender_user_id request) (sm_sender_device_id request) d of
        None \<Rightarrow> unexpected kUnauthorized ''Sender device not found''
      | Some sender_device \<Rightarrow>
          (case Conv_FindById (sm_conversation_id request) d of
             None \<Rightarrow> unexpected kNotFound ''Conversation not found''
           | Some conv \<Rightarrow>
               if \<not> IsUserInConversation (sm_conversation_id request) (d_user_id sender_device) d
               then unexpected kForbidden ''Sender is not a member of this conversation''
               else if c_type conv = kChannel \<and>
                       \<not> IsUserInConversation (sm_conversation_id request) (d_user_id sender_device) d
               then unexpected kForbidden ''Not subscribed to channel''
               else if c_type conv = kChannel \<and> \<not> contains_text everyone_policy (c_policy_blob conv) \<and>
                       \<not> (case GetMember (sm_conversation_id request) (d_user_id sender_device) d of
                            None \<Rightarrow> False | Some member \<Rightarrow> is_manager (m_role member))
               then unexpected kForbidden ''Only admins/owners can publish to this channel''
               else Inr conv))"

definition sent_envelope :: "ServerConfig \<Rightarrow> SendMessageRequest \<Rightarrow> EnvelopeId \<Rightarrow> Timestamp \<Rightarrow> EnvelopeRecord" where
  "sent_envelope config request envelope_id now =
     \<lparr>e_envelope_id = envelope_id, e_conversation_id = sm_conversation_id request,
      e_sender_user_id = sm_sender_user_id request, e_sender_device_id = sm_sender_device_id request,
      e_ciphertext = sm_ciphertext request, e_server_timestamp = now,
      e_envelope_type = sm_envelope_type request,
      e_retention_until = (if message_retention_seconds config > 0
         then Some (i64 (now + message_retention_seconds config)) else None),
      e_ordering_epoch = sm_ordering_epoch request\<rparr>"

definition queued_envelope :: "SendMessageRequest \<Rightarrow> EnvelopeId \<Rightarrow> Timestamp \<Rightarrow> QueuedEnvelope" where
  "queued_envelope request envelope_id now =
     \<lparr>q_envelope_id = envelope_id, q_conversation_id = sm_conversation_id request,
      q_sender_user_id = sm_sender_user_id request, q_sender_device_id = sm_sender_device_id request,
      q_ciphertext = sm_ciphertext request, q_server_timestamp = now,
      q_envelope_type = sm_envelope_type request, q_ordering_epoch = sm_ordering_epoch request\<rparr>"

definition target_users :: "sqlite \<Rightarrow> conversation_row \<Rightarrow> ConversationId \<Rightarrow> db \<Rightarrow> UserId list" where
  "target_users sq conv conversation_id d =
     (if c_type conv = kChannel then GetSubscribers sq conversation_id d
      else map m_user_id (GetMembers sq conversation_id d))"

text \<open>The body of the inner loop.\<close>

definition deliver_to ::
    "sqlite \<Rightarrow> SendMessageRequest \<Rightarrow> QueuedEnvelope \<Rightarrow> Timestamp \<Rightarrow> UserId \<Rightarrow> DeviceRecord \<Rightarrow>
     nat \<times> relay_state \<Rightarrow> nat \<times> relay_state" where
  "deliver_to sq request queued now uid dev = (\<lambda>(delivered_count, dm, d).
     if d_revoked_at dev \<noteq> None then (delivered_count, dm, d)
     else if d_user_id dev = sm_sender_user_id request \<and> d_device_id dev = sm_sender_device_id request
     then (delivered_count, dm, d)
     else (case Enqueue uid (d_device_id dev) queued dm of
             (Inr _, dm') \<Rightarrow> (delivered_count + 1, dm', d)
           | (Inl _, dm') \<Rightarrow> (delivered_count, dm',
               snd (AddDeliveryState sq (q_envelope_id queued) uid (d_device_id dev) now d))))"

definition deliver_user ::
    "sqlite \<Rightarrow> SendMessageRequest \<Rightarrow> QueuedEnvelope \<Rightarrow> Timestamp \<Rightarrow> UserId \<Rightarrow> nat \<times> relay_state \<Rightarrow> nat \<times> relay_state" where
  "deliver_user sq request queued now uid st =
     fold (deliver_to sq request queued now uid) (GetDevicesForUser sq uid (snd (snd st))) st"

definition SendEnvelope ::
    "sqlite \<Rightarrow> ServerConfig \<Rightarrow> uuid_draw \<Rightarrow> Timestamp \<Rightarrow> SendMessageRequest \<Rightarrow> relay_state \<Rightarrow>
     SendMessageResponse Result \<times> relay_state" where
  "SendEnvelope sq config r now request st =
     (let (dm, d) = st in
      case send_checks request d of
        Inl e \<Rightarrow> (Inl e, st)
      | Inr conv \<Rightarrow>
          let envelope_id = (if sm_envelope_id request = [] then uuid r else sm_envelope_id request)
          in if CheckDuplicate envelope_id d then (unexpected kDuplicate ''Duplicate envelope'', st)
             else case StoreEnvelope (sent_envelope config request envelope_id now) d of
                    (Inl e, d1) \<Rightarrow> (Inl e, (dm, d1))
                  | (Inr _, d1) \<Rightarrow>
                      let (delivered_count, st') =
                            fold (deliver_user sq request (queued_envelope request envelope_id now) now)
                              (target_users sq conv (sm_conversation_id request) d1) (0, dm, d1)
                      in (Inr \<lparr>smr_envelope_id = envelope_id, smr_server_timestamp = now,
                               smr_delivered_to_count = delivered_count\<rparr>, st'))"

definition SyncOffline :: "sqlite \<Rightarrow> UserId \<Rightarrow> DeviceId \<Rightarrow> nat \<Rightarrow> db \<Rightarrow> EnvelopeRecord list" where
  "SyncOffline sq user_id device_id limit d = GetPendingForDevice sq user_id device_id limit d"

definition AcknowledgeEnvelope :: "UserId \<Rightarrow> DeviceId \<Rightarrow> EnvelopeId \<Rightarrow> Timestamp \<Rightarrow> db \<Rightarrow> VoidResult \<times> db" where
  "AcknowledgeEnvelope user_id device_id envelope_id now d = Acknowledge user_id device_id envelope_id now d"

section \<open>The fan-out\<close>

text \<open>
  The two loops are one walk over the devices that are meant: those of the target users that are
  not revoked and are not the device of the sender.
\<close>

definition meant :: "SendMessageRequest \<Rightarrow> DeviceRecord \<Rightarrow> bool" where
  "meant request dev \<longleftrightarrow> d_revoked_at dev = None \<and>
     dev_key dev \<noteq> (sm_sender_user_id request, sm_sender_device_id request)"

definition targets :: "sqlite \<Rightarrow> SendMessageRequest \<Rightarrow> UserId list \<Rightarrow> db \<Rightarrow> DeviceRecord list" where
  "targets sq request uids d =
     concat (map (\<lambda>uid. filter (meant request) (GetDevicesForUser sq uid d)) uids)"

definition deliver_one ::
    "sqlite \<Rightarrow> QueuedEnvelope \<Rightarrow> Timestamp \<Rightarrow> DeviceRecord \<Rightarrow> nat \<times> relay_state \<Rightarrow> nat \<times> relay_state" where
  "deliver_one sq queued now dev = (\<lambda>(n, dm, d).
     case Enqueue (d_user_id dev) (d_device_id dev) queued dm of
       (Inr _, dm') \<Rightarrow> (n + 1, dm', d)
     | (Inl _, dm') \<Rightarrow> (n, dm',
         snd (AddDeliveryState sq (q_envelope_id queued) (d_user_id dev) (d_device_id dev) now d)))"

lemma GetDevicesForUser_user: "sqlite_ok sq \<Longrightarrow> dev \<in> set (GetDevicesForUser sq uid d) \<Longrightarrow> d_user_id dev = uid"
  by (simp add: GetDevicesForUser_def sql_simps set_scan)

lemma deliver_to_one:
  assumes "d_user_id dev = uid"
  shows "deliver_to sq request queued now uid dev st =
    (if meant request dev then deliver_one sq queued now dev st else st)"
  unfolding assms [symmetric]
  by (cases st) (auto simp: deliver_to_def deliver_one_def meant_def dev_key_def)

lemma deliver_one_devices: "devices (snd (snd (deliver_one sq queued now dev st))) = devices (snd (snd st))"
  by (cases st) (simp add: deliver_one_def AddDeliveryState_def insert_delivery_def
      split: prod.split sum.split option.split)

lemma fold_deliver_devices:
  "devices (snd (snd (fold (deliver_one sq queued now) devs st))) = devices (snd (snd st))"
  by (induction devs arbitrary: st) (simp_all add: deliver_one_devices)

lemma deliver_user_fold:
  assumes "sqlite_ok sq"
  shows "deliver_user sq request queued now uid st =
    fold (deliver_one sq queued now) (filter (meant request) (GetDevicesForUser sq uid (snd (snd st)))) st"
proof -
  have "fold (deliver_to sq request queued now uid) devs st =
      fold (deliver_one sq queued now) (filter (meant request) devs) st"
    if "\<forall>dev \<in> set devs. d_user_id dev = uid" for devs st
    using that by (induction devs arbitrary: st) (simp_all add: deliver_to_one)
  then show ?thesis using GetDevicesForUser_user [OF assms] by (simp add: deliver_user_def)
qed

lemma deliver_users_fold:
  assumes "sqlite_ok sq"
  shows "fold (deliver_user sq request queued now) uids st =
    fold (deliver_one sq queued now) (targets sq request uids (snd (snd st))) st"
proof (induction uids arbitrary: st)
  case (Cons uid uids)
  define st1 where "st1 = deliver_user sq request queued now uid st"
  have "devices (snd (snd st1)) = devices (snd (snd st))"
    by (simp add: st1_def deliver_user_fold [OF assms] fold_deliver_devices)
  then have "targets sq request uids (snd (snd st1)) = targets sq request uids (snd (snd st))"
    by (simp add: targets_def GetDevicesForUser_def)
  then show ?case
    using Cons [of st1] by (simp add: st1_def deliver_user_fold [OF assms] targets_def)
qed (simp add: targets_def)

definition has_room :: "DeliveryManager \<Rightarrow> DeviceRecord \<Rightarrow> bool" where
  "has_room dm dev \<longleftrightarrow>
     length (device_queue dm (d_user_id dev) (d_device_id dev)) < dm_max_queue_per_device dm"

definition offline_row :: "EnvelopeId \<Rightarrow> Timestamp \<Rightarrow> DeviceRecord \<Rightarrow> DeliveryStateRecord" where
  "offline_row eid now dev = \<lparr>ds_envelope_id = eid, ds_target_user_id = d_user_id dev,
     ds_target_device_id = d_device_id dev, ds_queued_at = now, ds_delivered_at = None, ds_acked_at = None\<rparr>"

definition add_rows :: "DeliveryStateRecord list \<Rightarrow> db \<Rightarrow> db" where
  "add_rows rows d = d\<lparr>delivery_state := delivery_state d @ rows\<rparr>"

lemma add_rows_simps [simp]:
  "add_rows [] d = d" "add_rows rows (add_rows rows' d) = add_rows (rows' @ rows) d"
  "delivery_state (add_rows rows d) = delivery_state d @ rows" "devices (add_rows rows d) = devices d"
  "encrypted_envelopes (add_rows rows d) = encrypted_envelopes d"
  by (simp_all add: add_rows_def)

lemma offline_row_key: "ds_key (offline_row eid now dev) = (eid, dev_key dev)"
  by (simp add: offline_row_def ds_key_def dev_key_def)

lemma deliver_one_cases:
  assumes "dm_ok dm" and "(q_envelope_id queued, dev_key dev) \<notin> set (map ds_key (delivery_state d))"
    and "q_envelope_id queued \<in> set (envelope_keys d)" and "dev_key dev \<in> set (device_keys d)"
  shows "deliver_one sq queued now dev (n, dm, d) =
    (if has_room dm dev then n + 1 else n, snd (Enqueue (d_user_id dev) (d_device_id dev) queued dm),
     if has_room dm dev then d else add_rows [offline_row (q_envelope_id queued) now dev] d)"
proof -
  define r where "r = Enqueue (d_user_id dev) (d_device_id dev) queued dm"
  have ok: "ok (fst r) \<longleftrightarrow> has_room dm dev"
    using Enqueue_ok_iff [OF assms(1)] by (simp add: r_def has_room_def)
  have add: "snd (AddDeliveryState sq (q_envelope_id queued) (d_user_id dev) (d_device_id dev) now d) =
      add_rows [offline_row (q_envelope_id queued) now dev] d"
    using assms(2-4)
    by (simp add: AddDeliveryState_def insert_delivery_def add_rows_def offline_row_def ds_key_def
        ds_dev_def dev_key_def)
  show ?thesis
    using ok add by (cases r; cases "fst r") (simp_all add: deliver_one_def r_def [symmetric])
qed

text \<open>One enqueue, seen from every device.\<close>

lemma Enqueue_dev:
  assumes "dm_ok dm" and "no_separator (d_user_id dev)" and "no_separator u"
  shows "device_queue (snd (Enqueue (d_user_id dev) (d_device_id dev) queued dm)) u v =
    device_queue dm u v @ (if (u, v) = dev_key dev \<and> has_room dm dev then [queued] else [])"
  using Enqueue_queue [OF assms, of "d_device_id dev" queued v] by (simp add: has_room_def dev_key_def)

lemma has_room_other:
  assumes "dm_ok dm" and "no_separator (d_user_id dev)" and "no_separator (d_user_id x)" and "dev_key x \<noteq> dev_key dev"
  shows "has_room (snd (Enqueue (d_user_id dev) (d_device_id dev) queued dm)) x = has_room dm x"
  using Enqueue_dev [OF assms(1-3), of queued "d_device_id x"] assms(4)
  by (auto simp: has_room_def [of _ x] Enqueue_same [OF assms(1)] dev_key_def [of x])

definition reaches :: "QueuedEnvelope \<Rightarrow> DeviceRecord list \<Rightarrow> DeliveryManager \<Rightarrow> DeliveryManager \<Rightarrow> bool" where
  "reaches queued devs dm dm' \<longleftrightarrow> dm_ok dm' \<and> dm_max_queue_per_device dm' = dm_max_queue_per_device dm \<and>
     (\<forall>u v. no_separator u \<longrightarrow> device_queue dm' u v = device_queue dm u v @
       (if (u, v) \<in> dev_key ` set (filter (has_room dm) devs) then [queued] else []))"

definition fresh_for :: "EnvelopeId \<Rightarrow> db \<Rightarrow> DeviceRecord \<Rightarrow> bool" where
  "fresh_for eid d dev \<longleftrightarrow> no_separator (d_user_id dev) \<and> dev_key dev \<in> set (device_keys d) \<and>
     (eid, dev_key dev) \<notin> set (map ds_key (delivery_state d))"

lemma fan_out:
  assumes "dm_ok dm" and "distinct (map dev_key devs)" and "\<forall>dev \<in> set devs. fresh_for (q_envelope_id queued) d dev"
    and "q_envelope_id queued \<in> set (envelope_keys d)"
  shows "\<exists>dm'. fold (deliver_one sq queued now) devs (n, dm, d) =
      (n + length (filter (has_room dm) devs), dm',
       add_rows (map (offline_row (q_envelope_id queued) now) (filter (\<lambda>v. \<not> has_room dm v) devs)) d) \<and>
    reaches queued devs dm dm'"
  using assms
proof (induction devs arbitrary: n dm d)
  case Nil
  then show ?case by (simp add: reaches_def)
next
  case (Cons dev devs)
  define dm1 where "dm1 = snd (Enqueue (d_user_id dev) (d_device_id dev) queued dm)"
  define d1 where "d1 = (if has_room dm dev then d else add_rows [offline_row (q_envelope_id queued) now dev] d)"
  define n1 where "n1 = (if has_room dm dev then n + 1 else n)"
  have sep: "no_separator (d_user_id dev)" using Cons.prems(3) by (simp add: fresh_for_def)
  have new: "dev_key x \<noteq> dev_key dev" if "x \<in> set devs" for x
    using that Cons.prems(2) by (metis distinct.simps(2) image_eqI list.simps(9) list.set_map)
  have step: "deliver_one sq queued now dev (n, dm, d) = (n1, dm1, d1)"
    using deliver_one_cases [of dm queued dev d sq now n] Cons.prems
    by (simp add: dm1_def d1_def n1_def fresh_for_def)
  have dm1: "dm_ok dm1" "dm_max_queue_per_device dm1 = dm_max_queue_per_device dm"
    by (simp_all add: dm1_def Enqueue_same [OF Cons.prems(1)])
  have room: "has_room dm1 x = has_room dm x" if "x \<in> set devs" for x
    using has_room_other [OF Cons.prems(1) sep _ new [OF that]] Cons.prems(3) that
    by (simp add: dm1_def fresh_for_def)
  have "\<forall>x \<in> set devs. fresh_for (q_envelope_id queued) d1 x"
    using Cons.prems(3) new by (simp add: fresh_for_def d1_def offline_row_key)
  then obtain dm' where f: "fold (deliver_one sq queued now) devs (n1, dm1, d1) =
      (n1 + length (filter (has_room dm1) devs), dm',
       add_rows (map (offline_row (q_envelope_id queued) now) (filter (\<lambda>v. \<not> has_room dm1 v) devs)) d1)"
    and dm': "reaches queued devs dm1 dm'"
    using Cons.IH [of dm1 d1 n1] dm1(1) Cons.prems(2,4) by (auto simp: d1_def)
  have same: "filter (has_room dm1) devs = filter (has_room dm) devs"
    "filter (\<lambda>v. \<not> has_room dm1 v) devs = filter (\<lambda>v. \<not> has_room dm v) devs"
    using room by (simp_all cong: filter_cong)
  have "reaches queued (dev # devs) dm dm'"
  proof -
    have "dev_key dev \<notin> dev_key ` {x \<in> set devs. has_room dm x}" using new by force
    then show ?thesis
      using dm' dm1(2) Enqueue_dev [OF Cons.prems(1) sep, of _ queued]
      by (simp add: reaches_def same dm1_def [symmetric])
  qed
  then show ?case using f by (intro exI [of _ dm']) (simp add: step same n1_def d1_def)
qed

section \<open>Who is meant\<close>

lemma set_target_users:
  assumes "sqlite_ok sq" and "Conv_FindById c d = Some conv"
  shows "set (target_users sq conv c d) = {u. IsUserInConversation c u d}"
  using assms
  by (auto simp: target_users_def IsUserInConversation_def GetSubscribers_def GetMembers_def set_scan
      filter_empty_conv active_subscription_def active_member_def cs_key_def m_key_def image_iff)

lemma distinct_map_of_pair:
  assumes "distinct (map (\<lambda>r. (f r, g r)) t)"
  shows "distinct (map g (filter (\<lambda>r. f r = c \<and> P r) t))"
  using assms by (induction t) (auto simp: image_iff)

lemma distinct_target_users:
  assumes "sqlite_ok sq" and "db_ok d"
  shows "distinct (target_users sq conv c d)"
proof -
  have "distinct (map m_key (conversation_members d))" "distinct (map cs_key (channel_subscriptions d))"
    using assms(2) by (simp_all add: db_ok_def members_ok_def subscriptions_ok_def)
  then have "distinct (map m_user_id (filter (\<lambda>m. m_conversation_id m = c \<and> m_removed_at m = None) (conversation_members d)))"
    "distinct (map cs_user_id (filter (\<lambda>s. cs_conversation_id s = c \<and> cs_unsubscribed_at s = None) (channel_subscriptions d)))"
    by (auto intro!: distinct_map_of_pair simp: m_key_def [abs_def] cs_key_def [abs_def])
  then show ?thesis
    by (simp add: target_users_def GetSubscribers_def GetMembers_def distinct_scan [OF assms(1)])
qed

lemma distinct_GetDevicesForUser:
  assumes "sqlite_ok sq" and "db_ok d"
  shows "distinct (map dev_key (GetDevicesForUser sq u d))"
proof -
  have "distinct (map dev_key (filter (\<lambda>v. d_user_id v = u) (devices d)))"
    using assms(2) by (simp add: db_ok_def devices_ok_def distinct_map_filter)
  moreover have "mset (GetDevicesForUser sq u d) = mset (filter (\<lambda>v. d_user_id v = u) (devices d))"
    using assms(1) by (simp add: GetDevicesForUser_def sql_order_by_def sqlite_ok_def)
  ultimately show ?thesis using distinct_map_mset by blast
qed

lemma set_targets:
  assumes "sqlite_ok sq"
  shows "set (targets sq request uids d) = {v \<in> set (devices d). meant request v \<and> d_user_id v \<in> set uids}"
  using assms by (auto simp: targets_def set_GetDevicesForUser)

lemma distinct_targets:
  assumes "sqlite_ok sq" and "db_ok d" and "distinct uids"
  shows "distinct (map dev_key (targets sq request uids d))"
  using assms(3)
proof (induction uids)
  case (Cons u uids)
  have "dev_key ` set (filter (meant request) (GetDevicesForUser sq u d)) \<inter>
      dev_key ` set (targets sq request uids d) = {}"
    using Cons.prems set_targets [OF assms(1)] set_GetDevicesForUser [OF assms(1)]
    by (auto simp: dev_key_def)
  then show ?case
    using Cons distinct_GetDevicesForUser [OF assms(1,2), of u]
    by (simp add: targets_def distinct_map_filter)
qed (simp add: targets_def)

section \<open>Sending\<close>

lemma send_checks_Inr:
  assumes "send_checks request d = Inr conv"
  shows "Conv_FindById (sm_conversation_id request) d = Some conv"
    and "\<exists>v. FindByUserAndDevice (sm_sender_user_id request) (sm_sender_device_id request) d = Some v"
    and "IsUserInConversation (sm_conversation_id request) (sm_sender_user_id request) d"
    and "c_type conv = kChannel \<Longrightarrow> contains_text everyone_policy (c_policy_blob conv) \<or>
       (\<exists>m. GetMember (sm_conversation_id request) (sm_sender_user_id request) d = Some m \<and> is_manager (m_role m))"
proof -
  obtain v where v: "FindByUserAndDevice (sm_sender_user_id request) (sm_sender_device_id request) d = Some v"
    using assms by (auto simp: send_checks_def split: if_splits option.splits)
  then have "d_user_id v = sm_sender_user_id request"
    unfolding FindByUserAndDevice_def by (auto dest: first_row_filter simp: dev_key_def)
  with v assms show "Conv_FindById (sm_conversation_id request) d = Some conv"
    "\<exists>v. FindByUserAndDevice (sm_sender_user_id request) (sm_sender_device_id request) d = Some v"
    "IsUserInConversation (sm_conversation_id request) (sm_sender_user_id request) d"
    "c_type conv = kChannel \<Longrightarrow> contains_text everyone_policy (c_policy_blob conv) \<or>
       (\<exists>m. GetMember (sm_conversation_id request) (sm_sender_user_id request) d = Some m \<and> is_manager (m_role m))"
    by (auto simp: send_checks_def split: if_splits option.splits)
qed

definition stored :: "ServerConfig \<Rightarrow> SendMessageRequest \<Rightarrow> EnvelopeId \<Rightarrow> Timestamp \<Rightarrow> db \<Rightarrow> db" where
  "stored config request eid now d =
     d\<lparr>encrypted_envelopes := encrypted_envelopes d @ [sent_envelope config request eid now]\<rparr>"

lemma StoreEnvelope_stored:
  "StoreEnvelope (sent_envelope config request eid now) d = (Inr x, d1) \<Longrightarrow>
     d1 = stored config request eid now d \<and> eid \<notin> set (envelope_keys d)"
  by (auto simp: StoreEnvelope_def insert_envelope_def stored_def sent_envelope_def split: option.splits if_splits)

text \<open>What a successful \<open>SendEnvelope\<close> went through.\<close>

lemma SendEnvelope_Inr:
  assumes "fst (SendEnvelope sq config r now request (dm, d)) = Inr resp"
  obtains conv where "send_checks request d = Inr conv" "smr_envelope_id resp \<notin> set (envelope_keys d)"
    "smr_server_timestamp resp = now"
    "StoreEnvelope (sent_envelope config request (smr_envelope_id resp) now) d =
       (Inr (), stored config request (smr_envelope_id resp) now d)"
    "fold (deliver_user sq request (queued_envelope request (smr_envelope_id resp) now) now)
       (target_users sq conv (sm_conversation_id request) (stored config request (smr_envelope_id resp) now d))
       (0, dm, stored config request (smr_envelope_id resp) now d) =
     (smr_delivered_to_count resp, snd (SendEnvelope sq config r now request (dm, d)))"
proof -
  define eid where "eid = (if sm_envelope_id request = [] then uuid r else sm_envelope_id request)"
  from assms obtain conv where conv: "send_checks request d = Inr conv"
    by (auto simp: SendEnvelope_def split: sum.splits)
  from assms conv have dup: "\<not> CheckDuplicate eid d"
    by (auto simp: SendEnvelope_def Let_def eid_def [symmetric])
  obtain s d1 where s: "StoreEnvelope (sent_envelope config request eid now) d = (s, d1)" by (rule prod.exhaust)
  with assms conv dup have "s = Inr ()"
    by (cases s) (simp_all add: SendEnvelope_def Let_def eid_def [symmetric])
  with s have s: "StoreEnvelope (sent_envelope config request eid now) d = (Inr (), d1)"
    and d1: "d1 = stored config request eid now d" "eid \<notin> set (envelope_keys d)"
    using StoreEnvelope_stored by blast+
  obtain n st where f: "fold (deliver_user sq request (queued_envelope request eid now) now)
      (target_users sq conv (sm_conversation_id request) d1) (0, dm, d1) = (n, st)" by (rule prod.exhaust)
  have "SendEnvelope sq config r now request (dm, d) =
      (Inr \<lparr>smr_envelope_id = eid, smr_server_timestamp = now, smr_delivered_to_count = n\<rparr>, st)"
    using conv dup s f by (simp add: SendEnvelope_def Let_def eid_def [symmetric])
  then show thesis using that [OF conv] assms s d1 f by auto
qed

lemma SendEnvelope_error:
  assumes "fst (SendEnvelope sq config r now request st) = Inl e"
  shows "snd (SendEnvelope sq config r now request st) = st"
  using assms
  by (cases st) (auto simp: SendEnvelope_def StoreEnvelope_def Let_def split_beta split: sum.splits if_splits option.splits)

text \<open>
  The devices a message is for: those of the participants that are not revoked, the sender's own
  other devices included. User ids are UUIDs, without the separator of the queue keys.
\<close>

definition recipients :: "SendMessageRequest \<Rightarrow> db \<Rightarrow> DeviceRecord set" where
  "recipients request d = {v \<in> set (devices d). meant request v \<and>
     IsUserInConversation (sm_conversation_id request) (d_user_id v) d}"

definition plain_users :: "db \<Rightarrow> bool" where
  "plain_users d \<longleftrightarrow> (\<forall>u \<in> set (user_keys d). no_separator u)"

lemma stored_same [simp]:
  "devices (stored config request eid now d) = devices d" "users (stored config request eid now d) = users d"
  "delivery_state (stored config request eid now d) = delivery_state d"
  "encrypted_envelopes (stored config request eid now d) =
     encrypted_envelopes d @ [sent_envelope config request eid now]"
  "IsUserInConversation c u (stored config request eid now d) = IsUserInConversation c u d"
  "Conv_FindById c (stored config request eid now d) = Conv_FindById c d"
  by (simp_all add: stored_def IsUserInConversation_def Conv_FindById_def split: option.split)

lemma no_delivery_of_new:
  assumes "db_ok d" and "eid \<notin> set (envelope_keys d)"
  shows "(eid, k) \<notin> set (map ds_key (delivery_state d))"
  using assms db_ok_fks(12) [OF assms(1)] by (auto simp: ds_key_def)

lemma plain_users_dev: "db_ok d \<Longrightarrow> plain_users d \<Longrightarrow> v \<in> set (devices d) \<Longrightarrow> no_separator (d_user_id v)"
  unfolding plain_users_def using db_ok_fks(1) by blast

lemma SendEnvelope_fan_out:
  assumes "sqlite_ok sq" "db_ok d" "dm_ok dm" "plain_users d"
    and "fst (SendEnvelope sq config r now request (dm, d)) = Inr resp"
  obtains dm' devs where "set devs = recipients request d" "distinct (map dev_key devs)"
    "snd (SendEnvelope sq config r now request (dm, d)) =
       (dm', add_rows (map (offline_row (smr_envelope_id resp) now) (filter (\<lambda>v. \<not> has_room dm v) devs))
          (stored config request (smr_envelope_id resp) now d))"
    "reaches (queued_envelope request (smr_envelope_id resp) now) devs dm dm'"
    "smr_delivered_to_count resp = length (filter (has_room dm) devs)"
proof -
  let ?eid = "smr_envelope_id resp" and ?q = "queued_envelope request (smr_envelope_id resp) now"
  from assms(5) obtain conv where conv: "send_checks request d = Inr conv" and new: "?eid \<notin> set (envelope_keys d)"
    and store: "StoreEnvelope (sent_envelope config request ?eid now) d = (Inr (), stored config request ?eid now d)"
    and f: "fold (deliver_user sq request ?q now)
       (target_users sq conv (sm_conversation_id request) (stored config request ?eid now d))
       (0, dm, stored config request ?eid now d) =
     (smr_delivered_to_count resp, snd (SendEnvelope sq config r now request (dm, d)))"
    by (rule SendEnvelope_Inr)
  let ?d1 = "stored config request ?eid now d"
  have ok: "db_ok ?d1" using StoreEnvelope_keeps [OF assms(2)] store by (metis snd_conv)
  define devs where "devs = targets sq request (target_users sq conv (sm_conversation_id request) ?d1) ?d1"
  have users: "set (target_users sq conv (sm_conversation_id request) ?d1) =
      {u. IsUserInConversation (sm_conversation_id request) u d}"
    using set_target_users [OF assms(1), of "sm_conversation_id request" ?d1 conv] send_checks_Inr(1) [OF conv] by simp
  then have devs: "set devs = recipients request d"
    by (simp add: devs_def set_targets [OF assms(1)] recipients_def)
  have dist: "distinct (map dev_key devs)"
    unfolding devs_def by (intro distinct_targets distinct_target_users assms ok)
  have fresh: "\<forall>v \<in> set devs. fresh_for (q_envelope_id ?q) ?d1 v"
    using plain_users_dev [OF assms(2,4)] no_delivery_of_new [OF assms(2) new]
    by (simp add: devs recipients_def fresh_for_def queued_envelope_def)
  have "q_envelope_id ?q \<in> set (envelope_keys ?d1)" by (simp add: queued_envelope_def sent_envelope_def)
  from fan_out [OF assms(3) dist fresh this, of sq now 0] f
  show thesis
    using that [of devs, OF devs dist] by (auto simp: deliver_users_fold [OF assms(1)] devs_def queued_envelope_def)
qed

lemma recipients_keys:
  assumes "db_ok d" and "v \<in> set (devices d)"
  shows "dev_key v \<in> dev_key ` {w \<in> recipients request d. P w} \<longleftrightarrow> v \<in> recipients request d \<and> P v"
proof -
  have "dev_key v = dev_key w \<longleftrightarrow> v = w" if "w \<in> recipients request d" for w
    using that assms key_eq [of dev_key "devices d" v w] by (auto simp: db_ok_def devices_ok_def recipients_def)
  then show ?thesis by (auto simp: image_iff)
qed

lemma card_filter_keys:
  "distinct (map k xs) \<Longrightarrow> card {x \<in> set xs. P x} = length (filter P xs)"
  using distinct_card [of "filter P xs"] by (simp add: distinct_map)

text \<open>
  C12: A message that is accepted reaches every recipient exactly once. It is stored once; each
  device of a participant that is not revoked, the sending device apart, gets it at the end of its
  queue in memory when the queue has room and as one row of the delivery state otherwise, and the
  count of the answer is the number of the former; no other device gets it, and the earlier
  contents of the queues and of the delivery state stay.
\<close>

theorem SendEnvelope_delivers:
  assumes "sqlite_ok sq" "db_ok d" "dm_ok dm" "plain_users d"
    and "fst (SendEnvelope sq config r now request (dm, d)) = Inr resp"
  shows "case snd (SendEnvelope sq config r now request (dm, d)) of (dm', d') \<Rightarrow>
    encrypted_envelopes d' = encrypted_envelopes d @ [sent_envelope config request (smr_envelope_id resp) now] \<and>
    (\<forall>v \<in> set (devices d).
       device_queue dm' (d_user_id v) (d_device_id v) = device_queue dm (d_user_id v) (d_device_id v) @
         (if v \<in> recipients request d \<and> has_room dm v
          then [queued_envelope request (smr_envelope_id resp) now] else []) \<and>
       ((smr_envelope_id resp, dev_key v) \<in> set (map ds_key (delivery_state d')) \<longleftrightarrow>
          v \<in> recipients request d \<and> \<not> has_room dm v)) \<and>
    take (length (delivery_state d)) (delivery_state d') = delivery_state d \<and>
    smr_delivered_to_count resp = card {v \<in> recipients request d. has_room dm v}"
proof -
  let ?eid = "smr_envelope_id resp"
  from assms obtain dm' devs where devs: "set devs = recipients request d" "distinct (map dev_key devs)"
    and st: "snd (SendEnvelope sq config r now request (dm, d)) =
       (dm', add_rows (map (offline_row ?eid now) (filter (\<lambda>v. \<not> has_room dm v) devs)) (stored config request ?eid now d))"
    and reach: "reaches (queued_envelope request ?eid now) devs dm dm'"
    and n: "smr_delivered_to_count resp = length (filter (has_room dm) devs)"
    by (rule SendEnvelope_fan_out)
  from assms(5) have new: "?eid \<notin> set (envelope_keys d)" by (rule SendEnvelope_Inr)
  have "device_queue dm' (d_user_id v) (d_device_id v) = device_queue dm (d_user_id v) (d_device_id v) @
      (if v \<in> recipients request d \<and> has_room dm v then [queued_envelope request ?eid now] else [])"
    if "v \<in> set (devices d)" for v
    using reach plain_users_dev [OF assms(2,4) that] recipients_keys [OF assms(2) that, of request "has_room dm"]
    by (simp add: reaches_def dev_key_def [of v] devs(1))
  moreover have "(?eid, dev_key v) \<in> set (map ds_key (delivery_state (snd (dm', add_rows
      (map (offline_row ?eid now) (filter (\<lambda>v. \<not> has_room dm v) devs)) (stored config request ?eid now d))))) \<longleftrightarrow>
      v \<in> recipients request d \<and> \<not> has_room dm v" if "v \<in> set (devices d)" for v
    using recipients_keys [OF assms(2) that, of request "\<lambda>v. \<not> has_room dm v"]
      no_delivery_of_new [OF assms(2) new, of "dev_key v"]
    by (auto simp: image_image offline_row_key image_iff devs(1))
  ultimately show ?thesis
    using card_filter_keys [OF devs(2), of "has_room dm"] by (simp add: st n devs(1) image_Un image_image)
qed

definition chat_db :: db where
  "chat_db = mail_db\<lparr>conversation_members := conversation_members mail_db @
     [\<lparr>m_conversation_id = ''g'', m_user_id = ''u2'', m_role = kMember, m_added_at = 6, m_removed_at = None\<rparr>]\<rparr>"

lemma chat_db_ok [simp]: "db_ok chat_db" "plain_users chat_db"
  by code_simp+

definition hello :: SendMessageRequest where
  "hello = \<lparr>sm_sender_user_id = ''u1'', sm_sender_device_id = ''p'', sm_conversation_id = ''g'',
     sm_ciphertext = ''hi'', sm_envelope_id = ''e9'', sm_envelope_type = 0, sm_ordering_epoch = None\<rparr>"

lemma hello_sent: "\<exists>resp. fst (SendEnvelope rowid_order config r 8 hello (dm, chat_db)) = Inr resp \<and> smr_envelope_id resp = ''e9''"
proof -
  have "send_checks hello chat_db = Inr group_row" "\<not> CheckDuplicate ''e9'' chat_db" "sm_envelope_id hello = ''e9''"
    by code_simp+
  moreover have "\<exists>d1. StoreEnvelope (sent_envelope config hello ''e9'' 8) chat_db = (Inr (), d1)"
  proof -
    have "''e9'' \<notin> set (envelope_keys chat_db)" "''g'' \<in> set (conversation_keys chat_db)"
      "(''u1'', ''p'') \<in> set (device_keys chat_db)"
      by code_simp+
    then show ?thesis
      by (simp add: StoreEnvelope_def insert_envelope_def sent_envelope_def hello_def e_dev_def)
  qed
  ultimately show ?thesis by (auto simp: SendEnvelope_def Let_def split_beta)
qed

theorem SendEnvelope_delivers_witness:
  "\<exists>resp dm' d'. SendEnvelope rowid_order ServerConfig_Default ((0, 0)) 8 hello (DeliveryManager_new length 1, chat_db) =
     (Inr resp, dm', d') \<and> smr_delivered_to_count resp = 1 \<and>
     device_queue dm' ''u2'' ''l'' = [queued_envelope hello ''e9'' 8]"
proof -
  let ?dm = "DeliveryManager_new length 1"
  let ?send = "SendEnvelope rowid_order ServerConfig_Default (0, 0) 8 hello (?dm, chat_db)"
  obtain resp where resp: "fst ?send = Inr resp" "smr_envelope_id resp = ''e9''" using hello_sent by blast
  obtain dm' d' where st: "snd ?send = (dm', d')" by (rule prod.exhaust)
  have "{v \<in> recipients hello chat_db. has_room ?dm v} = {laptop}" "laptop \<in> set (devices chat_db)"
    "d_user_id laptop = ''u2''" "d_device_id laptop = ''l''"
  proof -
    have "filter (\<lambda>v. meant hello v \<and> IsUserInConversation (sm_conversation_id hello) (d_user_id v) chat_db)
        (devices chat_db) = [laptop]" by code_simp
    then have "recipients hello chat_db = {laptop}"
      unfolding recipients_def by (metis list.set(1) list.set(2) set_filter)
    moreover have "has_room ?dm v" for v by (simp add: has_room_def device_queue_def) (simp add: DeliveryManager_new_def)
    ultimately show "{v \<in> recipients hello chat_db. has_room ?dm v} = {laptop}" by auto
    show "laptop \<in> set (devices chat_db)" "d_user_id laptop = ''u2''" "d_device_id laptop = ''l''" by code_simp+
  qed
  moreover from this have "laptop \<in> recipients hello chat_db" "has_room ?dm laptop" by auto
  ultimately show ?thesis
    using SendEnvelope_delivers [OF sqlite_ok_rowid_order chat_db_ok(1) DeliveryManager_new_ok(1) chat_db_ok(2) resp(1)]
      resp st by (cases ?send) (auto simp: device_queue_def)
qed

text \<open>
  C13: Only a participant can send, and a refused message changes nothing. Whatever the reason of
  the refusal, the queues and the database stay as they are; when the message is accepted, the
  sending device is registered, its user is an active member of the conversation (for a channel,
  subscribed, and an owner or administrator unless the policy lets everyone post), and the
  envelope id is new.
\<close>

theorem SendEnvelope_authorized:
  "case SendEnvelope sq config r now request (dm, d) of
     (Inl e, st) \<Rightarrow> st = (dm, d)
   | (Inr resp, st) \<Rightarrow>
       FindByUserAndDevice (sm_sender_user_id request) (sm_sender_device_id request) d \<noteq> None \<and>
       IsUserInConversation (sm_conversation_id request) (sm_sender_user_id request) d \<and>
       smr_envelope_id resp \<notin> set (envelope_keys d) \<and>
       (\<exists>conv. Conv_FindById (sm_conversation_id request) d = Some conv \<and>
          (if c_type conv = kChannel
           then contains_text everyone_policy (c_policy_blob conv) \<or>
             (\<exists>m. GetMember (sm_conversation_id request) (sm_sender_user_id request) d = Some m \<and> is_manager (m_role m))
           else True))"
proof (cases "fst (SendEnvelope sq config r now request (dm, d))")
  case (Inl e)
  then show ?thesis using SendEnvelope_error [OF Inl] by (simp add: case_prod_beta)
next
  case (Inr resp)
  then obtain conv where "send_checks request d = Inr conv" "smr_envelope_id resp \<notin> set (envelope_keys d)"
    by (rule SendEnvelope_Inr)
  then show ?thesis using send_checks_Inr Inr by (simp add: case_prod_beta)
qed

section \<open>Messages that stay in memory\<close>

lemma env_page_subset:
  assumes "sqlite_ok sq"
  shows "set (ep_envelopes (env_page sq rows cursor limit)) \<subseteq> set rows"
proof -
  have sub: "x \<in> set ys" if "x \<in> set (sql_limit n (sql_order_by env_key (scan_envelopes sq ys)))" for x n ys
    using that set_sql_limit [of n "sql_order_by env_key (scan_envelopes sq ys)"]
    by (auto simp: sql_simps set_scan [OF assms])
  show ?thesis
    by (auto simp: env_page_def Let_def split: option.split if_splits dest!: in_set_butlastD sub)
qed

lemma not_pending_without_row:
  assumes "(eid, u, v) \<notin> set (map ds_key (delivery_state d))"
  shows "eid \<notin> e_envelope_id ` set (pending_join u v d)"
    and "fst (AcknowledgeEnvelope u v eid now d) = unexpected kNotFound ''Delivery state not found''"
  using assms
  by (auto simp: pending_join_def pending_for_def ds_dev_def ds_key_def image_iff AcknowledgeEnvelope_def
      Acknowledge_def MarkAcked_def update_delivery_def Let_def sql_simps)

text \<open>
  C37: A message that went to the queue in memory is in no list of pending messages and cannot be
  acknowledged: for a recipient whose queue had room, every page of its pending envelopes leaves
  the message out, and \<open>AcknowledgeEnvelope\<close> answers \<open>kNotFound\<close>. Nothing in the server moves the
  queue of a device without a connection to the database, so only the push over a WebSocket at
  the moment of sending delivers it.
\<close>

theorem SendEnvelope_in_memory_only:
  assumes "sqlite_ok sq" "db_ok d" "dm_ok dm" "plain_users d"
    and "fst (SendEnvelope sq config r now request (dm, d)) = Inr resp"
    and "v \<in> recipients request d" "has_room dm v"
  shows "fst (AcknowledgeEnvelope (d_user_id v) (d_device_id v) (smr_envelope_id resp) later
        (snd (snd (SendEnvelope sq config r now request (dm, d))))) =
      unexpected kNotFound ''Delivery state not found'' \<and>
    smr_envelope_id resp \<notin> e_envelope_id ` set (ep_envelopes (GetPendingForDeviceCursored sq
      (d_user_id v) (d_device_id v) cursor limit (snd (snd (SendEnvelope sq config r now request (dm, d))))))"
proof -
  let ?d' = "snd (snd (SendEnvelope sq config r now request (dm, d)))" and ?eid = "smr_envelope_id resp"
  have v: "v \<in> set (devices d)" using assms(6) by (simp add: recipients_def)
  from assms(1-5) obtain dm' devs where devs: "set devs = recipients request d"
    and st: "snd (SendEnvelope sq config r now request (dm, d)) =
       (dm', add_rows (map (offline_row ?eid now) (filter (\<lambda>v. \<not> has_room dm v) devs)) (stored config request ?eid now d))"
    by (rule SendEnvelope_fan_out)
  from assms(5) have new: "?eid \<notin> set (envelope_keys d)" by (rule SendEnvelope_Inr)
  have "(?eid, dev_key v) \<notin> set (map ds_key (delivery_state ?d'))"
    using recipients_keys [OF assms(2) v, of request "\<lambda>v. \<not> has_room dm v"] assms(7)
      no_delivery_of_new [OF assms(2) new, of "dev_key v"]
    by (auto simp: st devs image_image offline_row_key image_iff)
  then have "(?eid, d_user_id v, d_device_id v) \<notin> set (map ds_key (delivery_state ?d'))"
    by (simp add: dev_key_def)
  from not_pending_without_row [OF this] show ?thesis
    using env_page_subset [OF assms(1)] unfolding GetPendingForDeviceCursored_def by blast
qed

theorem SendEnvelope_in_memory_only_witness:
  "fst (AcknowledgeEnvelope ''u2'' ''l'' ''e9'' 9 (snd (snd
     (SendEnvelope rowid_order ServerConfig_Default (0, 0) 8 hello (DeliveryManager_new length 1, chat_db))))) =
   unexpected kNotFound ''Delivery state not found''"
proof -
  let ?dm = "DeliveryManager_new length 1"
  obtain resp where resp: "fst (SendEnvelope rowid_order ServerConfig_Default (0, 0) 8 hello (?dm, chat_db)) = Inr resp"
    "smr_envelope_id resp = ''e9''" using hello_sent by blast
  have "meant hello laptop \<and> IsUserInConversation (sm_conversation_id hello) (d_user_id laptop) chat_db \<and>
      laptop \<in> set (devices chat_db)" "d_user_id laptop = ''u2''" "d_device_id laptop = ''l''"
    by code_simp+
  moreover have "has_room ?dm laptop" by (simp add: has_room_def device_queue_def) (simp add: DeliveryManager_new_def)
  ultimately show ?thesis
    using SendEnvelope_in_memory_only [OF sqlite_ok_rowid_order chat_db_ok(1) DeliveryManager_new_ok(1) chat_db_ok(2)
        resp(1), of laptop] resp(2)
    by (simp add: recipients_def)
qed

end
