(* ===== verification/Conversation_Service.thy ===== *)
theory Conversation_Service
  imports Relay_Service
begin

text \<open>
  \<open>ConversationService\<close> (\<open>lib/vox_relay/conversation_service.cpp\<close>): the policy on conversations and
  their members above the repository. Creation of direct messages, groups and channels with their
  limits, membership changes by owners and administrators, channel subscriptions, and the purge of
  what a removed member has not yet received. The clock and the UUID of a new conversation are
  arguments. A loop whose body can return early is a recursive function on the rest of the list.
\<close>

section \<open>The service\<close>

definition PurgeMemberDelivery :: "sqlite \<Rightarrow> ConversationId \<Rightarrow> UserId \<Rightarrow> relay_state \<Rightarrow> relay_state" where
  "PurgeMemberDelivery sq conv_id user_id = (\<lambda>(dm, d).
     let d1 = snd (DeletePendingDeliveryForUserInConversation conv_id user_id d);
         devs = GetDevicesForUser sq user_id d1
     in (fold (\<lambda>v. PurgeConversationFromDeviceQueue conv_id (d_user_id v) (d_device_id v)) devs dm, d1))"

definition SortUnique :: "UserId list \<Rightarrow> UserId list" where
  "SortUnique ids = remdups_adj (sort ids)"

definition new_conversation :: "ConversationId \<Rightarrow> ConversationType \<Rightarrow> UserId \<Rightarrow> Timestamp \<Rightarrow> string \<Rightarrow> conversation_row" where
  "new_conversation conv_id typ created_by now policy_blob =
     \<lparr>c_conversation_id = conv_id, c_type = typ, c_created_by = created_by, c_created_at = now,
      c_policy_blob = policy_blob, c_membership_version = 0\<rparr>"

definition CreateDm ::
    "sqlite \<Rightarrow> uuid_draw \<Rightarrow> Timestamp \<Rightarrow> UserId \<Rightarrow> UserId \<Rightarrow> UserId \<Rightarrow> db \<Rightarrow> ConversationId Result \<times> db" where
  "CreateDm sq r now user_a user_b created_by d =
     (if created_by \<noteq> user_a \<and> created_by \<noteq> user_b
      then (unexpected kForbidden ''Creator must be one of the participants'', d)
      else let conv_id = uuid r in
        and_then (CreateConversation (new_conversation conv_id kDm created_by now []) d) (\<lambda>_ d.
          if user_a = user_b
          then and_then (Conv_AddMember sq conv_id user_a kOwner now d) (\<lambda>_ d. (Inr conv_id, d))
          else let owner = (if created_by = user_a then user_a else user_b);
                   other = (if owner = user_a then user_b else user_a)
               in and_then (Conv_AddMember sq conv_id owner kOwner now d) (\<lambda>_ d.
                  and_then (Conv_AddMember sq conv_id other kMember now d) (\<lambda>_ d. (Inr conv_id, d)))))"

fun add_group_members ::
    "sqlite \<Rightarrow> ConversationId \<Rightarrow> UserId \<Rightarrow> Timestamp \<Rightarrow> UserId list \<Rightarrow> db \<Rightarrow> VoidResult \<times> db" where
  "add_group_members sq conv_id created_by now [] d = (Inr (), d)"
| "add_group_members sq conv_id created_by now (uid # uids) d =
     and_then (Conv_AddMember sq conv_id uid (if uid = created_by then kOwner else kMember) now d)
       (\<lambda>_ d. add_group_members sq conv_id created_by now uids d)"

definition CreateGroup ::
    "sqlite \<Rightarrow> ServerConfig \<Rightarrow> uuid_draw \<Rightarrow> Timestamp \<Rightarrow> UserId \<Rightarrow> UserId list \<Rightarrow> db \<Rightarrow> ConversationId Result \<times> db" where
  "CreateGroup sq config r now created_by ids d =
     (let member_user_ids = SortUnique ids
      in if length member_user_ids < 2
         then (unexpected kInvalidArgument ''Group requires at least two members'', d)
         else if created_by \<notin> set member_user_ids
         then (unexpected kInvalidArgument ''Creator must be included in members'', d)
         else if length member_user_ids > max_group_size config
         then (unexpected kQuotaExceeded ''Group exceeds configured maximum member count'', d)
         else let conv_id = uuid r in
           and_then (CreateConversation (new_conversation conv_id kGroup created_by now []) d) (\<lambda>_ d.
           and_then (add_group_members sq conv_id created_by now member_user_ids d) (\<lambda>_ d.
             (Inr conv_id, d))))"

text \<open>The two counting loops: \<open>None\<close> where an administrator is listed twice.\<close>

fun count_admins :: "UserId list \<Rightarrow> UserId list \<Rightarrow> nat \<Rightarrow> (UserId list \<times> nat) option" where
  "count_admins [] seen cnt = Some (seen, cnt)"
| "count_admins (a # as) seen cnt =
     (if a \<in> set seen then None else count_admins as (a # seen) (cnt + 1))"

fun count_subscribers :: "UserId list \<Rightarrow> UserId list \<Rightarrow> nat \<Rightarrow> nat" where
  "count_subscribers [] seen cnt = cnt"
| "count_subscribers (s # ss) seen cnt =
     (if s \<in> set seen then count_subscribers ss seen cnt
      else count_subscribers ss (s # seen) (cnt + 1))"

fun add_admins ::
    "sqlite \<Rightarrow> ConversationId \<Rightarrow> UserId \<Rightarrow> Timestamp \<Rightarrow> UserId list \<Rightarrow> db \<Rightarrow> VoidResult \<times> db" where
  "add_admins sq conv_id created_by now [] d = (Inr (), d)"
| "add_admins sq conv_id created_by now (uid # uids) d =
     and_then (Conv_AddMember sq conv_id uid (if uid = created_by then kOwner else kAdmin) now d) (\<lambda>_ d.
     and_then (Subscribe sq conv_id uid now d) (\<lambda>_ d.
       add_admins sq conv_id created_by now uids d))"

fun add_subscribers ::
    "sqlite \<Rightarrow> ConversationId \<Rightarrow> UserId list \<Rightarrow> Timestamp \<Rightarrow> UserId list \<Rightarrow> db \<Rightarrow> VoidResult \<times> db" where
  "add_subscribers sq conv_id admins now [] d = (Inr (), d)"
| "add_subscribers sq conv_id admins now (uid # uids) d =
     (if uid \<in> set admins then add_subscribers sq conv_id admins now uids d
      else and_then (Subscribe sq conv_id uid now d) (\<lambda>_ d. add_subscribers sq conv_id admins now uids d))"

definition admins_only_policy :: string where
  "admins_only_policy = CHR ''{'' # CHR 0x22 # ''title'' @ [CHR 0x22, CHR '':'', CHR 0x22, CHR 0x22, CHR '','', CHR 0x22] @
     ''channel_post_policy'' @ [CHR 0x22, CHR '':'', CHR 0x22] @ ''admins_only'' @ [CHR 0x22, CHR ''}'']"

definition CreateChannel ::
    "sqlite \<Rightarrow> ServerConfig \<Rightarrow> uuid_draw \<Rightarrow> Timestamp \<Rightarrow> UserId \<Rightarrow> UserId list \<Rightarrow> UserId list \<Rightarrow> db \<Rightarrow>
     ConversationId Result \<times> db" where
  "CreateChannel sq config r now created_by admin_user_ids subscriber_user_ids d =
     (if admin_user_ids = [] then (unexpected kInvalidArgument ''Channel requires at least one admin'', d)
      else if created_by \<notin> set admin_user_ids
      then (unexpected kInvalidArgument ''Creator must be listed as admin'', d)
      else case count_admins admin_user_ids [] 0 of
        None \<Rightarrow> (unexpected kInvalidArgument ''Duplicate admin user id'', d)
      | Some (seen, cnt) \<Rightarrow>
          if count_subscribers subscriber_user_ids seen cnt > max_channel_size config
          then (unexpected kQuotaExceeded ''Channel exceeds configured maximum subscriber count'', d)
          else let conv_id = uuid r in
            and_then (CreateConversation (new_conversation conv_id kChannel created_by now admins_only_policy) d) (\<lambda>_ d.
            and_then (add_admins sq conv_id created_by now admin_user_ids d) (\<lambda>_ d.
            and_then (add_subscribers sq conv_id admin_user_ids now subscriber_user_ids d) (\<lambda>_ d.
              (Inr conv_id, d)))))"

definition ActorCanManageMembers :: "conversation_row \<Rightarrow> UserId \<Rightarrow> db \<Rightarrow> bool" where
  "ActorCanManageMembers conv actor d =
     (case GetMember (c_conversation_id conv) actor d of
        None \<Rightarrow> False | Some m \<Rightarrow> m_role m = kOwner \<or> m_role m = kAdmin)"

definition AddMember ::
    "sqlite \<Rightarrow> ServerConfig \<Rightarrow> Timestamp \<Rightarrow> ConversationId \<Rightarrow> UserId \<Rightarrow> UserId \<Rightarrow> MemberRole \<Rightarrow> db \<Rightarrow> VoidResult \<times> db" where
  "AddMember sq config now conv_id actor_user_id new_user_id role d =
     (case Conv_FindById conv_id d of
        None \<Rightarrow> (unexpected kNotFound ''Conversation not found'', d)
      | Some conv \<Rightarrow>
          if c_type conv = kDm then (unexpected kInvalidArgument ''Cannot add members to a DM'', d)
          else if c_type conv = kChannel
          then (unexpected kInvalidArgument ''Use channel subscribe for channel membership'', d)
          else if \<not> ActorCanManageMembers conv actor_user_id d
          then (unexpected kForbidden ''Insufficient permissions'', d)
          else if GetMemberCount conv_id d \<ge> max_group_size config
          then (unexpected kQuotaExceeded ''Group is full'', d)
          else Conv_AddMember sq conv_id new_user_id role now d)"

definition RemoveMember ::
    "sqlite \<Rightarrow> Timestamp \<Rightarrow> ConversationId \<Rightarrow> UserId \<Rightarrow> UserId \<Rightarrow> relay_state \<Rightarrow> VoidResult \<times> relay_state" where
  "RemoveMember sq now conv_id actor_user_id target_user_id = (\<lambda>(dm, d).
     case Conv_FindById conv_id d of
        None \<Rightarrow> (unexpected kNotFound ''Conversation not found'', dm, d)
      | Some conv \<Rightarrow>
          if c_type conv = kDm then (unexpected kInvalidArgument ''Cannot remove members from a DM'', dm, d)
          else if c_type conv = kChannel then (unexpected kInvalidArgument ''Use channel unsubscribe'', dm, d)
          else if \<not> ActorCanManageMembers conv actor_user_id d
          then (unexpected kForbidden ''Insufficient permissions'', dm, d)
          else (case Conv_RemoveMember conv_id target_user_id now d of
                  (Inl e, d1) \<Rightarrow> (Inl e, dm, d1)
                | (Inr _, d1) \<Rightarrow> (Inr (), PurgeMemberDelivery sq conv_id target_user_id (dm, d1))))"

definition SubscribeChannel ::
    "sqlite \<Rightarrow> ServerConfig \<Rightarrow> Timestamp \<Rightarrow> ConversationId \<Rightarrow> UserId \<Rightarrow> db \<Rightarrow> VoidResult \<times> db" where
  "SubscribeChannel sq config now conv_id user_id d =
     (case Conv_FindById conv_id d of
        None \<Rightarrow> (unexpected kNotFound ''Conversation not found'', d)
      | Some conv \<Rightarrow>
          if c_type conv \<noteq> kChannel then (unexpected kInvalidArgument ''Not a channel conversation'', d)
          else let subs = GetSubscribers sq conv_id d
               in if user_id \<in> set subs then Subscribe sq conv_id user_id now d
                  else if length subs \<ge> max_channel_size config
                  then (unexpected kQuotaExceeded ''Channel subscriber limit reached'', d)
                  else Subscribe sq conv_id user_id now d)"

definition UnsubscribeChannel ::
    "sqlite \<Rightarrow> Timestamp \<Rightarrow> ConversationId \<Rightarrow> UserId \<Rightarrow> relay_state \<Rightarrow> VoidResult \<times> relay_state" where
  "UnsubscribeChannel sq now conv_id user_id = (\<lambda>(dm, d).
     case Conv_FindById conv_id d of
        None \<Rightarrow> (unexpected kNotFound ''Conversation not found'', dm, d)
      | Some conv \<Rightarrow>
          if c_type conv \<noteq> kChannel then (unexpected kInvalidArgument ''Not a channel conversation'', dm, d)
          else if (case GetMember conv_id user_id d of None \<Rightarrow> False | Some m \<Rightarrow> m_role m = kOwner \<or> m_role m = kAdmin)
          then (unexpected kForbidden ''Admins cannot unsubscribe; remove admin role first'', dm, d)
          else (case Unsubscribe conv_id user_id now d of
                  (Inl e, d1) \<Rightarrow> (Inl e, dm, d1)
                | (Inr _, d1) \<Rightarrow> (Inr (), PurgeMemberDelivery sq conv_id user_id (dm, d1))))"

definition ListForUser :: "sqlite \<Rightarrow> UserId \<Rightarrow> db \<Rightarrow> (conversation_row \<times> Timestamp option) list" where
  "ListForUser sq user_id d = GetConversationsForUser sq user_id d"

section \<open>Constraints kept\<close>

lemma add_group_members_keeps [keeps]: "db_ok d \<Longrightarrow> db_ok (snd (add_group_members sq c by now uids d))"
  by (induction uids arbitrary: d) (simp_all add: keeps db_ok_and_then)

lemma add_admins_keeps [keeps]: "db_ok d \<Longrightarrow> db_ok (snd (add_admins sq c by now uids d))"
  by (induction uids arbitrary: d) (simp_all add: keeps db_ok_and_then)

lemma add_subscribers_keeps [keeps]: "db_ok d \<Longrightarrow> db_ok (snd (add_subscribers sq c admins now uids d))"
  by (induction uids arbitrary: d) (simp_all add: keeps db_ok_and_then)

lemma CreateDm_keeps [keeps]: "db_ok d \<Longrightarrow> db_ok (snd (CreateDm sq r now a b by d))"
  by (simp add: CreateDm_def Let_def keeps db_ok_and_then)

lemma CreateGroup_keeps [keeps]: "db_ok d \<Longrightarrow> db_ok (snd (CreateGroup sq config r now by ids d))"
  by (simp add: CreateGroup_def Let_def keeps db_ok_and_then)

lemma CreateChannel_keeps [keeps]: "db_ok d \<Longrightarrow> db_ok (snd (CreateChannel sq config r now by admins subs d))"
  by (simp add: CreateChannel_def Let_def keeps db_ok_and_then split: option.split prod.split)

lemma AddMember_keeps [keeps]: "db_ok d \<Longrightarrow> db_ok (snd (AddMember sq config now c actor u role d))"
  by (simp add: AddMember_def keeps split: option.split)

lemma SubscribeChannel_keeps [keeps]: "db_ok d \<Longrightarrow> db_ok (snd (SubscribeChannel sq config now c u d))"
  by (simp add: SubscribeChannel_def Let_def keeps split: option.split)

lemma PurgeMemberDelivery_keeps [keeps]: "db_ok d \<Longrightarrow> db_ok (snd (PurgeMemberDelivery sq c u (dm, d)))"
  by (simp add: PurgeMemberDelivery_def Let_def keeps)

lemma Conv_RemoveMember_Inr [simp]: "fst (Conv_RemoveMember c u now d) = Inr ()"
  by (simp add: Conv_RemoveMember_def Let_def)

lemma Unsubscribe_Inr [simp]: "fst (Unsubscribe c u now d) = Inr ()"
  by (simp add: Unsubscribe_def Let_def)

lemma case_Inr_pair: "fst p = Inr () \<Longrightarrow> (case p of (Inl e, x) \<Rightarrow> f e x | (Inr y, x) \<Rightarrow> g y x) = g () (snd p)"
  by (cases p) simp

lemma RemoveMember_keeps [keeps]: "db_ok d \<Longrightarrow> db_ok (snd (snd (RemoveMember sq now c actor u (dm, d))))"
  by (simp add: RemoveMember_def keeps case_Inr_pair [OF Conv_RemoveMember_Inr] split: option.split)

lemma UnsubscribeChannel_keeps [keeps]: "db_ok d \<Longrightarrow> db_ok (snd (snd (UnsubscribeChannel sq now c u (dm, d))))"
  by (simp add: UnsubscribeChannel_def keeps case_Inr_pair [OF Unsubscribe_Inr] split: option.split)

section \<open>Groups\<close>

lemma SortUnique_set [simp]: "set (SortUnique ids) = set ids"
  by (simp add: SortUnique_def)

lemma distinct_remdups_adj: "sorted xs \<Longrightarrow> distinct (remdups_adj xs)"
  by (induction xs rule: remdups_adj.induct) auto

lemma SortUnique_length: "length (SortUnique ids) = card (set ids)"
  using distinct_card [of "SortUnique ids"] distinct_remdups_adj [of "sort ids"] by (simp add: SortUnique_def)

definition role_in :: "db \<Rightarrow> ConversationId \<Rightarrow> UserId \<rightharpoonup> MemberRole" where
  "role_in d c u = map_option m_role (GetMember c u d)"

lemma role_in_AddMember:
  assumes "db_ok d" and "fst (Conv_AddMember sq c u role now d) = Inr ()"
  shows "role_in (snd (Conv_AddMember sq c u role now d)) c' u' = (if (c', u') = (c, u) then Some role else role_in d c' u')"
  by (simp add: role_in_def GetMember_AddMember [OF assms])

lemma add_group_members_roles:
  assumes "db_ok d" and "fst (add_group_members sq c by now uids d) = Inr ()"
  shows "role_in (snd (add_group_members sq c by now uids d)) c' u =
    (if c' = c \<and> u \<in> set uids then Some (if u = by then kOwner else kMember) else role_in d c' u)"
  using assms
proof (induction uids arbitrary: d)
  case (Cons uid uids)
  then have ok: "fst (Conv_AddMember sq c uid (if uid = by then kOwner else kMember) now d) = Inr ()"
    by (auto simp: fst_and_then_Inr)
  then show ?case
    using Cons Conv_AddMember_keeps [OF Cons.prems(1)]
    by (auto simp: fst_and_then_Inr snd_and_then role_in_AddMember)
qed simp

lemma role_in_no_conversation:
  assumes "db_ok d" and "c \<notin> set (conversation_keys d)"
  shows "role_in d c u = None"
proof (cases "GetMember c u d")
  case (Some m)
  then have "m \<in> set (conversation_members d)" "m_conversation_id m = c"
    using GetMember_iff [OF assms(1)] by (auto simp: active_member_def m_key_def)
  then show ?thesis using db_ok_fks(6) [OF assms(1)] assms(2) by blast
qed (simp add: role_in_def)

lemma CreateConversation_Inr:
  assumes "fst (CreateConversation conv d) = Inr ()"
  shows "c_conversation_id conv \<notin> set (conversation_keys d)" "c_created_by conv \<in> set (user_keys d)"
    "snd (CreateConversation conv d) = d\<lparr>conversations := conversations d @ [conv]\<rparr>"
  using assms by (auto simp: CreateConversation_def insert_conversation_def split: if_splits)

lemma role_in_conversations [simp]: "role_in (d\<lparr>conversations := t\<rparr>) c u = role_in d c u"
  by (simp add: role_in_def GetMember_def)

text \<open>
  C17: What a successful \<open>CreateGroup\<close> makes: a new conversation whose active members are exactly
  the listed users, duplicates counted once, the creator as owner and everyone else as plain
  member; there are at least two and at most the configured number of them; the members of every
  other conversation stay.
\<close>

theorem CreateGroup_roster:
  assumes "db_ok d" and "fst (CreateGroup sq config r now by ids d) = Inr c"
  shows "c = uuid r \<and> c \<notin> set (conversation_keys d) \<and> by \<in> set ids \<and>
    2 \<le> card (set ids) \<and> card (set ids) \<le> max_group_size config \<and>
    role_in (snd (CreateGroup sq config r now by ids d)) c' u =
      (if c' \<noteq> c then role_in d c' u
       else if u \<in> set ids then Some (if u = by then kOwner else kMember) else None)"
proof -
  let ?conv = "new_conversation (uuid r) kGroup by now []" and ?ids = "SortUnique ids"
  define d1 where "d1 = snd (CreateConversation ?conv d)"
  have checks: "2 \<le> length ?ids" "by \<in> set ids" "length ?ids \<le> max_group_size config"
    using assms(2) by (auto simp: CreateGroup_def Let_def split: if_splits)
  then have run: "CreateGroup sq config r now by ids d =
      and_then (CreateConversation ?conv d) (\<lambda>_ d. and_then (add_group_members sq (uuid r) by now ?ids d) (\<lambda>_ d. (Inr (uuid r), d)))"
    by (simp add: CreateGroup_def Let_def)
  with assms(2) have create: "fst (CreateConversation ?conv d) = Inr ()"
    and add: "fst (add_group_members sq (uuid r) by now ?ids d1) = Inr ()" and c: "c = uuid r"
    by (auto simp: fst_and_then_Inr d1_def)
  have new: "uuid r \<notin> set (conversation_keys d)" "d1 = d\<lparr>conversations := conversations d @ [?conv]\<rparr>"
    using CreateConversation_Inr [OF create] by (simp_all add: d1_def new_conversation_def)
  have ok: "db_ok d1" using CreateConversation_keeps [OF assms(1)] by (simp add: d1_def)
  have "snd (CreateGroup sq config r now by ids d) = snd (add_group_members sq (uuid r) by now ?ids d1)"
    unfolding run snd_and_then create by (simp add: d1_def [symmetric] snd_and_then add)
  then show ?thesis
    using add_group_members_roles [OF ok add, of c' u] role_in_no_conversation [OF assms(1) new(1), of u] checks new c
    by (auto simp: SortUnique_length)
qed

lemma Conv_AddMember_same:
  "user_keys (snd (Conv_AddMember sq c u role now d)) = user_keys d"
  "conversation_keys (snd (Conv_AddMember sq c u role now d)) = conversation_keys d"
  by (simp_all add: Conv_AddMember_def upsert_member_def split: option.split if_split)

lemma Conv_AddMember_Inr_iff:
  assumes "db_ok d"
  shows "fst (Conv_AddMember sq c u role now d) = Inr () \<longleftrightarrow> c \<in> set (conversation_keys d) \<and> u \<in> set (user_keys d)"
proof -
  have "c \<in> set (conversation_keys d) \<and> u \<in> set (user_keys d)" if "(c, u) \<in> set (map m_key (conversation_members d))"
    using that db_ok_fks(6,7) [OF assms] by (auto simp: m_key_def)
  then show ?thesis
    by (auto simp: Conv_AddMember_def upsert_member_def m_key_def [of "MemberRecord.make _ _ _ _ _"]
        MemberRecord.make_def m_key_def split: option.splits if_splits)
qed

lemma add_group_members_Inr_iff:
  assumes "db_ok d"
  shows "fst (add_group_members sq c by now uids d) = Inr () \<longleftrightarrow>
    uids = [] \<or> c \<in> set (conversation_keys d) \<and> set uids \<subseteq> set (user_keys d)"
  using assms
proof (induction uids arbitrary: d)
  case (Cons uid uids)
  define d1 where "d1 = snd (Conv_AddMember sq c uid (if uid = by then kOwner else kMember) now d)"
  have d1: "db_ok d1" "user_keys d1 = user_keys d" "conversation_keys d1 = conversation_keys d"
    unfolding d1_def Conv_AddMember_same by (simp_all add: Conv_AddMember_keeps Cons.prems)
  have "fst (add_group_members sq c by now (uid # uids) d) = Inr () \<longleftrightarrow>
      fst (Conv_AddMember sq c uid (if uid = by then kOwner else kMember) now d) = Inr () \<and>
      fst (add_group_members sq c by now uids d1) = Inr ()"
    by (auto simp: fst_and_then_Inr d1_def)
  then show ?case
    unfolding Cons.IH [OF d1(1)] Conv_AddMember_Inr_iff [OF Cons.prems] d1(2,3) by auto
qed simp

lemma CreateGroup_run:
  assumes "2 \<le> card (set ids)" "by \<in> set ids" "card (set ids) \<le> max_group_size config"
  shows "CreateGroup sq config r now by ids d =
    and_then (CreateConversation (new_conversation (uuid r) kGroup by now []) d) (\<lambda>_ d.
      and_then (add_group_members sq (uuid r) by now (SortUnique ids) d) (\<lambda>_ d. (Inr (uuid r), d)))"
  using assms by (simp add: CreateGroup_def Let_def SortUnique_length)

lemma CreateConversation_new:
  assumes "c_conversation_id conv \<notin> set (conversation_keys d)" "c_created_by conv \<in> set (user_keys d)"
  shows "CreateConversation conv d = (Inr (), d\<lparr>conversations := conversations d @ [conv]\<rparr>)"
  using assms by (simp add: CreateConversation_def insert_conversation_def)

text \<open>After the checks, the group is made exactly when every listed user exists.\<close>

lemma CreateGroup_Inr_iff:
  assumes "db_ok d" and "2 \<le> card (set ids)" "by \<in> set ids" "card (set ids) \<le> max_group_size config"
    and "uuid r \<notin> set (conversation_keys d)" "by \<in> set (user_keys d)"
  shows "fst (CreateGroup sq config r now by ids d) = Inr (uuid r) \<longleftrightarrow> set ids \<subseteq> set (user_keys d)"
proof -
  let ?conv = "new_conversation (uuid r) kGroup by now []"
  let ?d1 = "d\<lparr>conversations := conversations d @ [?conv]\<rparr>"
  have c: "CreateConversation ?conv d = (Inr (), ?d1)"
    using assms(5,6) by (intro CreateConversation_new) (simp_all add: new_conversation_def)
  then have "db_ok ?d1" using CreateConversation_keeps [OF assms(1)] by (metis snd_conv)
  moreover have "SortUnique ids \<noteq> []" using assms(3) by (metis SortUnique_set empty_iff list.set(1))
  ultimately show ?thesis
    unfolding CreateGroup_run [OF assms(2-4)] c
    by (auto simp: fst_and_then_Inr add_group_members_Inr_iff new_conversation_def)
qed

lemma uuid_neq: "length s \<noteq> 36 \<Longrightarrow> uuid r \<noteq> s"
  using length_GenerateUuid by metis

theorem CreateGroup_roster_witness:
  "let d' = snd (CreateGroup rowid_order ServerConfig_Default (1, 2) 5 ''u1'' [''u2'', ''u1'', ''u2''] one_group)
   in role_in d' (uuid (1, 2)) ''u1'' = Some kOwner \<and> role_in d' (uuid (1, 2)) ''u2'' = Some kMember \<and>
      role_in d' ''g'' ''u2'' = None"
proof -
  let ?create = "CreateGroup rowid_order ServerConfig_Default (1, 2) 5 ''u1'' [''u2'', ''u1'', ''u2''] one_group"
  have g: "uuid (1, 2) \<noteq> ''g''" by (rule uuid_neq) simp
  have "conversation_keys one_group = [''g'']" "set (user_keys one_group) = {''u1'', ''u2''}"
    "card (set [''u2'', ''u1'', ''u2'']) = 2" by code_simp+
  then have "fst ?create = Inr (uuid (1, 2))"
    using g by (subst CreateGroup_Inr_iff) (simp_all add: ServerConfig_Default_def del: set_simps card_insert_disjoint, simp_all)
  moreover have "role_in one_group ''g'' ''u2'' = None" by code_simp
  moreover note CreateGroup_roster [OF one_group_ok, of rowid_order ServerConfig_Default "(1, 2)" 5 "''u1''" "[''u2'', ''u1'', ''u2'']" "uuid (1, 2)"]
  ultimately
  show ?thesis using g by (simp add: Let_def)
qed

lemma add_group_members_same:
  "conversation_keys (snd (add_group_members sq c by now uids d)) = conversation_keys d"
  by (induction uids arbitrary: d) (simp_all add: snd_and_then Conv_AddMember_same split: sum.split)

text \<open>
  C39: \<open>CreateGroup\<close> is not atomic. When one of the listed users does not exist it answers with an
  error, and the new conversation stays in the database, although the caller never learns its id.
\<close>

theorem CreateGroup_unknown_member:
  assumes "db_ok d" and "2 \<le> card (set ids)" "by \<in> set ids" "card (set ids) \<le> max_group_size config"
    and "uuid r \<notin> set (conversation_keys d)" "by \<in> set (user_keys d)" and "u \<in> set ids" "u \<notin> set (user_keys d)"
  shows "\<not> ok (fst (CreateGroup sq config r now by ids d)) \<and>
    conversation_keys (snd (CreateGroup sq config r now by ids d)) = conversation_keys d @ [uuid r]"
proof -
  let ?conv = "new_conversation (uuid r) kGroup by now []" and ?create = "CreateGroup sq config r now by ids d"
  have c: "CreateConversation ?conv d = (Inr (), d\<lparr>conversations := conversations d @ [?conv]\<rparr>)"
    using assms(5,6) by (intro CreateConversation_new) (simp_all add: new_conversation_def)
  have "fst ?create \<noteq> Inr (uuid r)" using CreateGroup_Inr_iff [OF assms(1-6)] assms(7,8) by blast
  moreover have "fst ?create = Inr x \<Longrightarrow> x = uuid r" for x
    unfolding CreateGroup_run [OF assms(2-4)] c by (auto simp: fst_and_then_Inr)
  ultimately have "\<not> ok (fst ?create)" by (cases "fst ?create") auto
  moreover have "conversation_keys (snd ?create) = conversation_keys d @ [uuid r]"
    unfolding CreateGroup_run [OF assms(2-4)] c
    by (simp add: snd_and_then add_group_members_same new_conversation_def split: sum.split)
  ultimately show ?thesis ..
qed

theorem CreateGroup_unknown_member_witness:
  "\<not> ok (fst (CreateGroup rowid_order ServerConfig_Default (1, 2) 5 ''u1'' [''u1'', ''nobody''] two_users)) \<and>
   conversation_keys (snd (CreateGroup rowid_order ServerConfig_Default (1, 2) 5 ''u1'' [''u1'', ''nobody''] two_users)) = [uuid (1, 2)]"
proof -
  have "conversation_keys two_users = []" "set (user_keys two_users) = {''u1'', ''u2''}" by code_simp+
  then show ?thesis
    using CreateGroup_unknown_member [OF two_users_ok, of "[''u1'', ''nobody'']" "''u1''" ServerConfig_Default "(1, 2)"
        "''nobody''" rowid_order 5]
    by (simp add: ServerConfig_Default_def)
qed

section \<open>Removal\<close>

text \<open>The purge takes the rows of the user in the conversation, and nothing else.\<close>

lemma fold_purge:
  assumes "dm_ok dm"
  shows "dm_ok (fold (\<lambda>v. PurgeConversationFromDeviceQueue c (d_user_id v) (d_device_id v)) devs dm)"
    "queue_at (fold (\<lambda>v. PurgeConversationFromDeviceQueue c (d_user_id v) (d_device_id v)) devs dm) key =
      (if key \<in> (\<lambda>v. DeviceScopeKey (d_user_id v) (d_device_id v)) ` set devs
       then filter (\<lambda>q. q_conversation_id q \<noteq> c) (queue_at dm key) else queue_at dm key)"
  using assms by (induction devs arbitrary: dm) (auto simp: Purge_correct)

definition waits_in :: "db \<Rightarrow> ConversationId \<Rightarrow> UserId \<Rightarrow> DeliveryStateRecord \<Rightarrow> bool" where
  "waits_in d c u s \<longleftrightarrow> ds_target_user_id s = u \<and>
     (\<exists>e \<in> set (encrypted_envelopes d). e_envelope_id e = ds_envelope_id s \<and> e_conversation_id e = c)"

lemma PurgeMemberDelivery_correct:
  assumes "sqlite_ok sq" "db_ok d" "dm_ok dm" "plain_users d" and "no_separator u'"
  shows "role_in (snd (PurgeMemberDelivery sq c u (dm, d))) = role_in d"
    "delivery_state (snd (PurgeMemberDelivery sq c u (dm, d))) = filter (\<lambda>s. \<not> waits_in d c u s) (delivery_state d)"
    "device_queue (fst (PurgeMemberDelivery sq c u (dm, d))) u' v' =
      (if u' = u \<and> (u, v') \<in> set (device_keys d)
       then filter (\<lambda>q. q_conversation_id q \<noteq> c) (device_queue dm u' v') else device_queue dm u' v')"
proof -
  show "role_in (snd (PurgeMemberDelivery sq c u (dm, d))) = role_in d"
    by (intro ext) (simp add: PurgeMemberDelivery_def Let_def DeletePendingDeliveryForUserInConversation_def role_in_def GetMember_def)
  show "delivery_state (snd (PurgeMemberDelivery sq c u (dm, d))) = filter (\<lambda>s. \<not> waits_in d c u s) (delivery_state d)"
    by (auto simp: PurgeMemberDelivery_def Let_def DeletePendingDeliveryForUserInConversation_def sql_delete_def waits_in_def
        image_iff intro!: filter_cong)
  have "DeviceScopeKey u' v' \<in> (\<lambda>v. DeviceScopeKey (d_user_id v) (d_device_id v)) ` {v \<in> set (devices d). d_user_id v = u}
      \<longleftrightarrow> u' = u \<and> (u, v') \<in> set (device_keys d)"
    using scope_key_eq [OF assms(5) plain_users_dev [OF assms(2,4)]] by (auto simp: dev_key_def image_iff)
  then show "device_queue (fst (PurgeMemberDelivery sq c u (dm, d))) u' v' =
      (if u' = u \<and> (u, v') \<in> set (device_keys d)
       then filter (\<lambda>q. q_conversation_id q \<noteq> c) (device_queue dm u' v') else device_queue dm u' v')"
    by (simp add: PurgeMemberDelivery_def Let_def fold_purge(2) [OF assms(3)] device_queue_def
        set_GetDevicesForUser [OF assms(1)] DeletePendingDeliveryForUserInConversation_def)
qed

lemma Conv_RemoveMember_same:
  "users (snd (Conv_RemoveMember c u now d)) = users d" "devices (snd (Conv_RemoveMember c u now d)) = devices d"
  "encrypted_envelopes (snd (Conv_RemoveMember c u now d)) = encrypted_envelopes d"
  "delivery_state (snd (Conv_RemoveMember c u now d)) = delivery_state d"
  by (simp_all add: Conv_RemoveMember_def Let_def)

lemma RemoveMember_run:
  assumes "fst (RemoveMember sq now c actor u (dm, d)) = Inr ()"
  obtains conv where "Conv_FindById c d = Some conv" "c_type conv = kGroup" "ActorCanManageMembers conv actor d"
    "snd (RemoveMember sq now c actor u (dm, d)) = PurgeMemberDelivery sq c u (dm, snd (Conv_RemoveMember c u now d))"
proof -
  obtain conv where "Conv_FindById c d = Some conv" using assms by (auto simp: RemoveMember_def split: option.splits)
  moreover from this have "c_type conv = kGroup" "ActorCanManageMembers conv actor d"
    using assms by (cases "c_type conv"; simp add: RemoveMember_def split: if_splits)+
  ultimately show thesis
    using that by (simp add: RemoveMember_def case_Inr_pair [OF Conv_RemoveMember_Inr])
qed

lemma ActorCanManageMembers_role:
  "ActorCanManageMembers conv actor d \<longleftrightarrow> role_in d (c_conversation_id conv) actor \<in> {Some kOwner, Some kAdmin}"
  by (auto simp: ActorCanManageMembers_def role_in_def split: option.split)

text \<open>
  C16: A successful \<open>RemoveMember\<close> was asked for by an owner or administrator of a group and
  leaves nothing of the conversation waiting for the removed user: the user has no role in it,
  no envelope of the conversation waits for one of the user's devices in the database, and none
  in the queue of any device of the user. All other roles, waiting rows and queues stay.
\<close>

theorem RemoveMember_purges:
  assumes "sqlite_ok sq" "db_ok d" "dm_ok dm" "plain_users d" "no_separator u'"
    and "fst (RemoveMember sq now c actor u (dm, d)) = Inr ()"
  shows "case snd (RemoveMember sq now c actor u (dm, d)) of (dm', d') \<Rightarrow>
    role_in d c actor \<in> {Some kOwner, Some kAdmin} \<and>
    role_in d' c' u' = (if (c', u') = (c, u) then None else role_in d c' u') \<and>
    delivery_state d' = filter (\<lambda>s. \<not> waits_in d c u s) (delivery_state d) \<and>
    device_queue dm' u' v' =
      (if u' = u \<and> (u, v') \<in> set (device_keys d)
       then filter (\<lambda>q. q_conversation_id q \<noteq> c) (device_queue dm u' v') else device_queue dm u' v')"
proof -
  let ?d1 = "snd (Conv_RemoveMember c u now d)"
  obtain conv where conv: "Conv_FindById c d = Some conv" "ActorCanManageMembers conv actor d"
    and run: "snd (RemoveMember sq now c actor u (dm, d)) = PurgeMemberDelivery sq c u (dm, ?d1)"
    using RemoveMember_run [OF assms(6)] by metis
  have "c_conversation_id conv = c" using Conv_FindById_Some [OF conv(1)] by simp
  then have "role_in d c actor \<in> {Some kOwner, Some kAdmin}"
    using conv(2) by (simp add: ActorCanManageMembers_role)
  moreover have plain: "plain_users ?d1" using assms(4) by (simp add: plain_users_def Conv_RemoveMember_same)
  note purge = PurgeMemberDelivery_correct [OF assms(1) Conv_RemoveMember_keeps [OF assms(2)] assms(3) plain assms(5)]
  moreover have "role_in ?d1 c' u' = (if (c', u') = (c, u) then None else role_in d c' u')"
    by (simp add: role_in_def GetMember_RemoveMember [OF assms(2)])
  moreover have "waits_in ?d1 = waits_in d" by (intro ext) (simp add: waits_in_def Conv_RemoveMember_same)
  ultimately show ?thesis unfolding run by (simp add: purge split_beta Conv_RemoveMember_same)
qed

theorem RemoveMember_purges_witness:
  "delivery_state (snd (snd (RemoveMember rowid_order 9 ''g'' ''u1'' ''u2'' (DeliveryManager_new length 4, chat_db)))) = [] \<and>
   delivery_state chat_db \<noteq> [] \<and>
   role_in (snd (snd (RemoveMember rowid_order 9 ''g'' ''u1'' ''u2'' (DeliveryManager_new length 4, chat_db)))) ''g'' ''u2'' = None"
proof -
  let ?run = "RemoveMember rowid_order 9 ''g'' ''u1'' ''u2'' (DeliveryManager_new length 4, chat_db)"
  have "Conv_FindById ''g'' chat_db = Some group_row" "c_type group_row = kGroup" "ActorCanManageMembers group_row ''u1'' chat_db"
    by code_simp+
  then have "fst ?run = Inr ()" by (simp add: RemoveMember_def case_Inr_pair [OF Conv_RemoveMember_Inr])
  moreover have "no_separator ''u2''" by code_simp
  moreover have "filter (\<lambda>s. \<not> waits_in chat_db ''g'' ''u2'' s) (delivery_state chat_db) = []" "delivery_state chat_db \<noteq> []"
    by code_simp+
  ultimately show ?thesis
    using RemoveMember_purges [OF sqlite_ok_rowid_order chat_db_ok(1) DeliveryManager_new_ok(1) chat_db_ok(2), of "''u2''"
        9 "''g''" "''u1''" "''u2''" length 4 "''g''" undefined]
    by (simp add: split_beta)
qed

end
