(* ===== verification/Session_Repository.thy ===== *)
theory Session_Repository
  imports Device_Repository
begin

text \<open>
  \<open>SessionRepository\<close> (\<open>lib/vox_store/session_repository.cpp\<close>) and the contract that
  \<open>TokenManager\<close> relies on through the interface \<open>ISessionRepository\<close>: the locale
  \<open>session_store\<close>, with the lemma on rotating a session, interpreted on the repository.
\<close>

section \<open>Operations\<close>

definition CreateSession :: "sqlite \<Rightarrow> SessionRecord \<Rightarrow> db \<Rightarrow> VoidResult \<times> db" where
  "CreateSession sq session d =
     (case insert_session (session\<lparr>s_revoked_at := None\<rparr>) d of
        None \<Rightarrow> (unexpected kInternal (what sq), d)
      | Some d' \<Rightarrow> (Inr (), d'))"

definition FindByAccessToken :: "string \<Rightarrow> db \<Rightarrow> SessionRecord option" where
  "FindByAccessToken access_token_hash d =
     first_row (filter (\<lambda>s. s_access_token_hash s = access_token_hash \<and> s_revoked_at s = None)
       (sessions d))"

definition FindByRefreshToken :: "string \<Rightarrow> db \<Rightarrow> SessionRecord option" where
  "FindByRefreshToken refresh_token_hash d =
     first_row (filter (\<lambda>s. s_refresh_token_hash s = refresh_token_hash \<and> s_revoked_at s = None)
       (sessions d))"

definition revoke_where :: "(SessionRecord \<Rightarrow> bool) \<Rightarrow> Timestamp \<Rightarrow> db \<Rightarrow> db" where
  "revoke_where P now d =
     d\<lparr>sessions := sql_update (\<lambda>s. P s \<and> s_revoked_at s = None)
         (\<lambda>s. s\<lparr>s_revoked_at := Some now\<rparr>) (sessions d)\<rparr>"

definition Session_RevokeSession :: "string \<Rightarrow> Timestamp \<Rightarrow> db \<Rightarrow> VoidResult \<times> db" where
  "Session_RevokeSession session_id now d =
     (if sql_count (\<lambda>s. s_session_id s = session_id \<and> s_revoked_at s = None) (sessions d) = 0
      then (unexpected kNotFound ''Session not found or already revoked'',
            revoke_where (\<lambda>s. s_session_id s = session_id) now d)
      else (Inr (), revoke_where (\<lambda>s. s_session_id s = session_id) now d))"

definition Session_RevokeAllForUser :: "UserId \<Rightarrow> Timestamp \<Rightarrow> db \<Rightarrow> VoidResult \<times> db" where
  "Session_RevokeAllForUser user_id now d =
     (Inr (), revoke_where (\<lambda>s. s_user_id s = user_id) now d)"

definition Session_RevokeAllForDevice ::
    "UserId \<Rightarrow> DeviceId \<Rightarrow> Timestamp \<Rightarrow> db \<Rightarrow> VoidResult \<times> db" where
  "Session_RevokeAllForDevice user_id device_id now d =
     (Inr (), revoke_where (\<lambda>s. s_user_id s = user_id \<and> s_device_id s = device_id) now d)"

definition CleanExpired :: "Timestamp \<Rightarrow> db \<Rightarrow> int \<times> db" where
  "CleanExpired now d =
     (let P = (\<lambda>s. s_refresh_expires_at s < now \<or> s_revoked_at s \<noteq> None)
      in (int (sql_count P (sessions d)), d\<lparr>sessions := sql_delete P (sessions d)\<rparr>))"

definition CountActiveForUser :: "UserId \<Rightarrow> Timestamp \<Rightarrow> db \<Rightarrow> nat" where
  "CountActiveForUser user_id now d =
     sql_count (\<lambda>s. s_user_id s = user_id \<and> s_revoked_at s = None \<and> s_access_expires_at s > now)
       (sessions d)"

section \<open>Constraints kept\<close>

lemma CreateSession_keeps [keeps]: "db_ok d \<Longrightarrow> db_ok (snd (CreateSession sq s d))"
  unfolding CreateSession_def by (simp add: insert_session_ok split: option.split)

lemma revoke_where_keeps [keeps]: "db_ok d \<Longrightarrow> db_ok (revoke_where P now d)"
  unfolding revoke_where_def by (rule db_ok_sessions) (simp_all add: sql_simps s_dev_def)

lemma Session_RevokeSession_keeps [keeps]:
  "db_ok d \<Longrightarrow> db_ok (snd (Session_RevokeSession i now d))"
  by (simp add: Session_RevokeSession_def revoke_where_keeps)

lemma Session_RevokeAll_keeps [keeps]:
  "db_ok d \<Longrightarrow> db_ok (snd (Session_RevokeAllForUser u now d))"
  "db_ok d \<Longrightarrow> db_ok (snd (Session_RevokeAllForDevice u v now d))"
  by (simp_all add: Session_RevokeAllForUser_def Session_RevokeAllForDevice_def revoke_where_keeps)

lemma CleanExpired_keeps [keeps]: "db_ok d \<Longrightarrow> db_ok (snd (CleanExpired now d))"
  by (simp add: CleanExpired_def Let_def db_ok_delete)

section \<open>Lookups by token hash\<close>

lemma sessions_distinct:
  assumes "db_ok d"
  shows "distinct (map s_session_id (sessions d))" "distinct (map s_access_token_hash (sessions d))"
    "distinct (map s_refresh_token_hash (sessions d))"
  using assms by (simp_all add: db_ok_def sessions_ok_def)

lemma FindByAccessToken_iff:
  assumes "db_ok d"
  shows "FindByAccessToken h d = Some s \<longleftrightarrow>
    s \<in> set (sessions d) \<and> s_access_token_hash s = h \<and> s_revoked_at s = None"
proof
  assume "FindByAccessToken h d = Some s"
  then show "s \<in> set (sessions d) \<and> s_access_token_hash s = h \<and> s_revoked_at s = None"
    unfolding FindByAccessToken_def by (rule first_row_filter)
next
  assume s: "s \<in> set (sessions d) \<and> s_access_token_hash s = h \<and> s_revoked_at s = None"
  then have "filter (\<lambda>s. s_access_token_hash s = h \<and> s_revoked_at s = None) (sessions d) = [s]"
    by (intro filter_unique [OF sessions_distinct(2) [OF assms]]) auto
  then show "FindByAccessToken h d = Some s" by (simp add: FindByAccessToken_def)
qed

lemma FindByRefreshToken_iff:
  assumes "db_ok d"
  shows "FindByRefreshToken h d = Some s \<longleftrightarrow>
    s \<in> set (sessions d) \<and> s_refresh_token_hash s = h \<and> s_revoked_at s = None"
proof
  assume "FindByRefreshToken h d = Some s"
  then show "s \<in> set (sessions d) \<and> s_refresh_token_hash s = h \<and> s_revoked_at s = None"
    unfolding FindByRefreshToken_def by (rule first_row_filter)
next
  assume s: "s \<in> set (sessions d) \<and> s_refresh_token_hash s = h \<and> s_revoked_at s = None"
  then have "filter (\<lambda>s. s_refresh_token_hash s = h \<and> s_revoked_at s = None) (sessions d) = [s]"
    by (intro filter_unique [OF sessions_distinct(3) [OF assms]]) auto
  then show "FindByRefreshToken h d = Some s" by (simp add: FindByRefreshToken_def)
qed

lemma session_in_revoke_where:
  "s \<in> set (sessions (revoke_where P now d)) \<and> s_revoked_at s = None \<longleftrightarrow>
     s \<in> set (sessions d) \<and> s_revoked_at s = None \<and> \<not> P s"
  by (auto simp: revoke_where_def set_sql_update)

lemma Find_revoke_where:
  assumes "db_ok d"
  shows "FindByAccessToken h (revoke_where P now d) =
      (case FindByAccessToken h d of Some s \<Rightarrow> if P s then None else Some s | None \<Rightarrow> None)"
    "FindByRefreshToken h (revoke_where P now d) =
      (case FindByRefreshToken h d of Some s \<Rightarrow> if P s then None else Some s | None \<Rightarrow> None)"
proof -
  note iffs = FindByAccessToken_iff [OF assms] FindByAccessToken_iff [OF revoke_where_keeps [OF assms]]
    FindByRefreshToken_iff [OF assms] FindByRefreshToken_iff [OF revoke_where_keeps [OF assms]]
  have "FindByAccessToken h (revoke_where P now d) = Some s \<longleftrightarrow>
      FindByAccessToken h d = Some s \<and> \<not> P s" for s
    unfolding iffs using session_in_revoke_where [of s P now d] by blast
  then show "FindByAccessToken h (revoke_where P now d) =
      (case FindByAccessToken h d of Some s \<Rightarrow> if P s then None else Some s | None \<Rightarrow> None)"
    by (rule option_filter_eqI)
  have "FindByRefreshToken h (revoke_where P now d) = Some s \<longleftrightarrow>
      FindByRefreshToken h d = Some s \<and> \<not> P s" for s
    unfolding iffs using session_in_revoke_where [of s P now d] by blast
  then show "FindByRefreshToken h (revoke_where P now d) =
      (case FindByRefreshToken h d of Some s \<Rightarrow> if P s then None else Some s | None \<Rightarrow> None)"
    by (rule option_filter_eqI)
qed

section \<open>The contract of a session store\<close>

text \<open>
  \<open>used_access\<close> and \<open>used_refresh\<close> say that a token hash is in the store, revoked or not: a
  hash is never given to a second session.
\<close>

locale session_store =
  fixes inv :: "'st \<Rightarrow> bool"
    and create :: "SessionRecord \<Rightarrow> 'st \<Rightarrow> VoidResult \<times> 'st"
    and by_access :: "string \<Rightarrow> 'st \<Rightarrow> SessionRecord option"
    and by_refresh :: "string \<Rightarrow> 'st \<Rightarrow> SessionRecord option"
    and revoke :: "string \<Rightarrow> Timestamp \<Rightarrow> 'st \<Rightarrow> VoidResult \<times> 'st"
    and used_access :: "string \<Rightarrow> 'st \<Rightarrow> bool"
    and used_refresh :: "string \<Rightarrow> 'st \<Rightarrow> bool"
  assumes create_inv: "inv st \<Longrightarrow> inv (snd (create s st))"
    and revoke_inv: "inv st \<Longrightarrow> inv (snd (revoke i now st))"
    and create_access: "inv st \<Longrightarrow> fst (create s st) = Inr () \<Longrightarrow>
      by_access h (snd (create s st)) =
        (if h = s_access_token_hash s then Some (s\<lparr>s_revoked_at := None\<rparr>) else by_access h st)"
    and create_refresh: "inv st \<Longrightarrow> fst (create s st) = Inr () \<Longrightarrow>
      by_refresh h (snd (create s st)) =
        (if h = s_refresh_token_hash s then Some (s\<lparr>s_revoked_at := None\<rparr>) else by_refresh h st)"
    and create_fresh: "inv st \<Longrightarrow> fst (create s st) = Inr () \<Longrightarrow>
      \<not> used_access (s_access_token_hash s) st \<and> \<not> used_refresh (s_refresh_token_hash s) st"
    and revoke_access: "inv st \<Longrightarrow> by_access h (snd (revoke i now st)) =
      (case by_access h st of Some s \<Rightarrow> if s_session_id s = i then None else Some s | None \<Rightarrow> None)"
    and revoke_refresh: "inv st \<Longrightarrow> by_refresh h (snd (revoke i now st)) =
      (case by_refresh h st of Some s \<Rightarrow> if s_session_id s = i then None else Some s | None \<Rightarrow> None)"
    and found_access: "by_access h st = Some s \<Longrightarrow> used_access h st \<and> s_access_token_hash s = h"
    and found_refresh: "by_refresh h st = Some s \<Longrightarrow>
      used_refresh h st \<and> s_refresh_token_hash s = h \<and> used_access (s_access_token_hash s) st"
    and same_session: "inv st \<Longrightarrow> by_refresh h st = Some s \<Longrightarrow>
      by_access (s_access_token_hash s) st = Some s"
    and revoke_used: "used_access h (snd (revoke i now st)) \<longleftrightarrow> used_access h st"
      "used_refresh h (snd (revoke i now st)) \<longleftrightarrow> used_refresh h st"
begin

text \<open>
  Rotation: revoking the session of a refresh token and creating its successor kills both
  tokens of the old session, makes the new pair valid and touches no other session.
\<close>

lemma rotation:
  assumes inv: "inv st" and old: "by_refresh h st = Some s"
    and new: "fst (create n (snd (revoke (s_session_id s) now st))) = Inr ()"
  defines "st' \<equiv> snd (create n (snd (revoke (s_session_id s) now st)))"
  shows "inv st'" and "by_refresh h st' = None" and "by_access (s_access_token_hash s) st' = None"
    and "by_refresh (s_refresh_token_hash n) st' = Some (n\<lparr>s_revoked_at := None\<rparr>)"
    and "by_access (s_access_token_hash n) st' = Some (n\<lparr>s_revoked_at := None\<rparr>)"
    and "by_access k st = Some t \<Longrightarrow> s_session_id t \<noteq> s_session_id s \<Longrightarrow> by_access k st' = Some t"
proof -
  let ?st1 = "snd (revoke (s_session_id s) now st)"
  note inv1 = revoke_inv [OF inv, of "s_session_id s" now]
  note fresh = create_fresh [OF inv1 new, unfolded revoke_used]
  have neq: "h \<noteq> s_refresh_token_hash n" "s_access_token_hash s \<noteq> s_access_token_hash n"
    using fresh found_refresh [OF old] by auto
  show "inv st'" unfolding st'_def by (rule create_inv [OF inv1])
  show "by_refresh h st' = None"
    using old neq by (simp add: st'_def create_refresh [OF inv1 new] revoke_refresh [OF inv])
  show "by_access (s_access_token_hash s) st' = None"
    using neq same_session [OF inv old]
    by (simp add: st'_def create_access [OF inv1 new] revoke_access [OF inv])
  show "by_refresh (s_refresh_token_hash n) st' = Some (n\<lparr>s_revoked_at := None\<rparr>)"
    by (simp add: st'_def create_refresh [OF inv1 new])
  show "by_access (s_access_token_hash n) st' = Some (n\<lparr>s_revoked_at := None\<rparr>)"
    by (simp add: st'_def create_access [OF inv1 new])
  show "by_access k st' = Some t"
    if "by_access k st = Some t" "s_session_id t \<noteq> s_session_id s"
    using that fresh found_access [OF that(1)]
    by (auto simp: st'_def create_access [OF inv1 new] revoke_access [OF inv])
qed

end

lemma CreateSession_ok_iff:
  "fst (CreateSession sq s d) = Inr () \<longleftrightarrow> insert_session (s\<lparr>s_revoked_at := None\<rparr>) d \<noteq> None"
  by (simp add: CreateSession_def split: option.split)

lemma CreateSession_success:
  assumes "fst (CreateSession sq s d) = Inr ()"
  shows "snd (CreateSession sq s d) = d\<lparr>sessions := sessions d @ [s\<lparr>s_revoked_at := None\<rparr>]\<rparr>"
    "s_access_token_hash s \<notin> set (map s_access_token_hash (sessions d))"
    "s_refresh_token_hash s \<notin> set (map s_refresh_token_hash (sessions d))"
    "s_session_id s \<notin> set (map s_session_id (sessions d))"
    "s_dev s \<in> set (device_keys d)"
  using assms by (auto simp: CreateSession_def insert_session_def s_dev_def split: if_splits)

lemma Find_CreateSession:
  assumes "fst (CreateSession sq s d) = Inr ()"
  shows "FindByAccessToken h (snd (CreateSession sq s d)) =
      (if h = s_access_token_hash s then Some (s\<lparr>s_revoked_at := None\<rparr>) else FindByAccessToken h d)"
    "FindByRefreshToken h (snd (CreateSession sq s d)) =
      (if h = s_refresh_token_hash s then Some (s\<lparr>s_revoked_at := None\<rparr>) else FindByRefreshToken h d)"
proof -
  note new = CreateSession_success [OF assms]
  have "filter (\<lambda>t. s_access_token_hash t = s_access_token_hash s \<and> s_revoked_at t = None) (sessions d) = []"
    "filter (\<lambda>t. s_refresh_token_hash t = s_refresh_token_hash s \<and> s_revoked_at t = None) (sessions d) = []"
    using new(2,3) by (auto simp: filter_empty_conv image_iff)
  then show "FindByAccessToken h (snd (CreateSession sq s d)) =
      (if h = s_access_token_hash s then Some (s\<lparr>s_revoked_at := None\<rparr>) else FindByAccessToken h d)"
    "FindByRefreshToken h (snd (CreateSession sq s d)) =
      (if h = s_refresh_token_hash s then Some (s\<lparr>s_revoked_at := None\<rparr>) else FindByRefreshToken h d)"
    unfolding new(1) by (simp_all add: FindByAccessToken_def FindByRefreshToken_def)
qed

definition used_access_hash :: "string \<Rightarrow> db \<Rightarrow> bool" where
  "used_access_hash h d \<longleftrightarrow> h \<in> set (map s_access_token_hash (sessions d))"

definition used_refresh_hash :: "string \<Rightarrow> db \<Rightarrow> bool" where
  "used_refresh_hash h d \<longleftrightarrow> h \<in> set (map s_refresh_token_hash (sessions d))"

lemma snd_RevokeSession:
  "snd (Session_RevokeSession i now d) = revoke_where (\<lambda>s. s_session_id s = i) now d"
  by (simp add: Session_RevokeSession_def)

lemma used_revoke_where:
  "used_access_hash h (revoke_where P now d) \<longleftrightarrow> used_access_hash h d"
  "used_refresh_hash h (revoke_where P now d) \<longleftrightarrow> used_refresh_hash h d"
  by (simp_all add: used_access_hash_def used_refresh_hash_def revoke_where_def sql_simps del: set_map)

interpretation store: session_store db_ok "CreateSession sq" FindByAccessToken FindByRefreshToken
  Session_RevokeSession used_access_hash used_refresh_hash
proof
  fix st h and s :: SessionRecord
  show "FindByAccessToken h st = Some s \<Longrightarrow> used_access_hash h st \<and> s_access_token_hash s = h"
    unfolding FindByAccessToken_def used_access_hash_def by (drule first_row_filter) auto
  show "FindByRefreshToken h st = Some s \<Longrightarrow>
      used_refresh_hash h st \<and> s_refresh_token_hash s = h \<and> used_access_hash (s_access_token_hash s) st"
    unfolding FindByRefreshToken_def used_refresh_hash_def used_access_hash_def
    by (drule first_row_filter) auto
  show "db_ok st \<Longrightarrow> FindByRefreshToken h st = Some s \<Longrightarrow>
      FindByAccessToken (s_access_token_hash s) st = Some s"
    by (simp add: FindByAccessToken_iff FindByRefreshToken_iff)
  show "db_ok st \<Longrightarrow> fst (CreateSession sq s st) = Inr () \<Longrightarrow>
      \<not> used_access_hash (s_access_token_hash s) st \<and> \<not> used_refresh_hash (s_refresh_token_hash s) st"
    using CreateSession_success(2,3) [of sq s st]
    by (simp add: used_access_hash_def used_refresh_hash_def)
qed (simp_all add: keeps Find_CreateSession snd_RevokeSession Find_revoke_where used_revoke_where)

end
