(* ===== verification/Attachment_Repository.thy ===== *)
theory Attachment_Repository
  imports Conversation_Repository
begin

text \<open>
  \<open>AttachmentRepository\<close> (\<open>lib/vox_store/attachment_repository.cpp\<close>). The column
  \<open>ciphertext_hash\<close> is NULL until the upload completes and is read as the empty string.
\<close>

section \<open>Operations\<close>

record AttachmentRecord =
  ar_attachment_id :: AttachmentId
  ar_user_id :: UserId
  ar_conversation_id :: ConversationId
  ar_file_size :: int
  ar_mime_hint :: string
  ar_ciphertext_hash :: string
  ar_blob_path :: string
  ar_upload_complete :: bool
  ar_created_at :: Timestamp
  ar_retention_until :: "Timestamp option"

definition CreateAttachmentMeta :: "sqlite \<Rightarrow> AttachmentRecord \<Rightarrow> db \<Rightarrow> VoidResult \<times> db" where
  "CreateAttachmentMeta sq r d =
     (case insert_attachment
             \<lparr>a_attachment_id = ar_attachment_id r, a_user_id = ar_user_id r,
              a_conversation_id = ar_conversation_id r, a_file_size = ar_file_size r,
              a_mime_hint = ar_mime_hint r, a_ciphertext_hash = None, a_blob_path = ar_blob_path r,
              a_upload_complete = False, a_created_at = ar_created_at r,
              a_retention_until = ar_retention_until r\<rparr> d of
        None \<Rightarrow> (unexpected kInternal (what sq), d)
      | Some d' \<Rightarrow> (Inr (), d'))"

definition row_to_attachment :: "attachment_row \<Rightarrow> AttachmentRecord" where
  "row_to_attachment a =
     \<lparr>ar_attachment_id = a_attachment_id a, ar_user_id = a_user_id a,
      ar_conversation_id = a_conversation_id a, ar_file_size = a_file_size a,
      ar_mime_hint = a_mime_hint a,
      ar_ciphertext_hash = (case a_ciphertext_hash a of None \<Rightarrow> '''' | Some h \<Rightarrow> h),
      ar_blob_path = a_blob_path a, ar_upload_complete = a_upload_complete a,
      ar_created_at = a_created_at a, ar_retention_until = a_retention_until a\<rparr>"

definition GetAttachmentMeta :: "AttachmentId \<Rightarrow> db \<Rightarrow> AttachmentRecord option" where
  "GetAttachmentMeta attachment_id d = map_option row_to_attachment
     (first_row (filter (\<lambda>a. a_attachment_id a = attachment_id) (attachment_metadata d)))"

definition MarkUploadComplete :: "AttachmentId \<Rightarrow> string \<Rightarrow> db \<Rightarrow> VoidResult \<times> db" where
  "MarkUploadComplete attachment_id ciphertext_hash d =
     (let P = (\<lambda>a. a_attachment_id a = attachment_id);
          d' = d\<lparr>attachment_metadata := sql_update P
                 (\<lambda>a. a\<lparr>a_upload_complete := True, a_ciphertext_hash := Some ciphertext_hash\<rparr>)
                 (attachment_metadata d)\<rparr>
      in if sql_count P (attachment_metadata d) = 0
         then (unexpected kNotFound ''Attachment not found'', d') else (Inr (), d'))"

definition DeleteAttachment :: "AttachmentId \<Rightarrow> db \<Rightarrow> VoidResult \<times> db" where
  "DeleteAttachment attachment_id d =
     (let P = (\<lambda>a. a_attachment_id a = attachment_id);
          d' = d\<lparr>attachment_metadata := sql_delete P (attachment_metadata d)\<rparr>
      in if sql_count P (attachment_metadata d) = 0
         then (unexpected kNotFound ''Attachment not found'', d') else (Inr (), d'))"

definition GetStorageUsedByUser :: "UserId \<Rightarrow> db \<Rightarrow> int" where
  "GetStorageUsedByUser user_id d =
     sum_list (map a_file_size
       (filter (\<lambda>a. a_user_id a = user_id \<and> a_upload_complete a) (attachment_metadata d)))"

definition att_expired :: "Timestamp \<Rightarrow> attachment_row \<Rightarrow> bool" where
  "att_expired now a \<longleftrightarrow> (case a_retention_until a of None \<Rightarrow> False | Some t \<Rightarrow> t < now)"

text \<open>\<open>GetExpired\<close> leaves the MIME hint, the hash and the retention of its records unset.\<close>

definition GetExpired :: "sqlite \<Rightarrow> Timestamp \<Rightarrow> db \<Rightarrow> AttachmentRecord list" where
  "GetExpired sq now d =
     map (\<lambda>a. (row_to_attachment a)\<lparr>ar_mime_hint := '''', ar_ciphertext_hash := '''',
                ar_retention_until := None\<rparr>)
       (scan_attachments sq (filter (att_expired now) (attachment_metadata d)))"

definition Att_DeleteExpired :: "Timestamp \<Rightarrow> db \<Rightarrow> int \<times> db" where
  "Att_DeleteExpired now d =
     (int (sql_count (att_expired now) (attachment_metadata d)),
      d\<lparr>attachment_metadata := sql_delete (att_expired now) (attachment_metadata d)\<rparr>)"

section \<open>Constraints kept\<close>

lemma CreateAttachmentMeta_keeps [keeps]: "db_ok d \<Longrightarrow> db_ok (snd (CreateAttachmentMeta sq r d))"
  by (simp add: CreateAttachmentMeta_def insert_attachment_ok split: option.split)

lemma MarkUploadComplete_keeps [keeps]: "db_ok d \<Longrightarrow> db_ok (snd (MarkUploadComplete i h d))"
  by (simp add: MarkUploadComplete_def Let_def db_ok_attachments sql_simps)

lemma DeleteAttachment_keeps [keeps]: "db_ok d \<Longrightarrow> db_ok (snd (DeleteAttachment i d))"
  by (simp add: DeleteAttachment_def Let_def db_ok_delete)

lemma Att_DeleteExpired_keeps [keeps]: "db_ok d \<Longrightarrow> db_ok (snd (Att_DeleteExpired now d))"
  by (simp add: Att_DeleteExpired_def db_ok_delete)

section \<open>Lookups\<close>

lemma GetAttachmentMeta_Some:
  assumes "GetAttachmentMeta i d = Some r"
  obtains a where "a \<in> set (attachment_metadata d)" "a_attachment_id a = i" "r = row_to_attachment a"
  using assms first_row_filter [of "\<lambda>a. a_attachment_id a = i" "attachment_metadata d"]
  unfolding GetAttachmentMeta_def by blast

lemma row_to_attachment_sel [simp]:
  "ar_attachment_id (row_to_attachment a) = a_attachment_id a"
  "ar_user_id (row_to_attachment a) = a_user_id a"
  "ar_conversation_id (row_to_attachment a) = a_conversation_id a"
  "ar_blob_path (row_to_attachment a) = a_blob_path a"
  "ar_upload_complete (row_to_attachment a) = a_upload_complete a"
  "ar_file_size (row_to_attachment a) = a_file_size a"
  by (simp_all add: row_to_attachment_def)

end
