(* ===== verification/Sync_State_Repository.thy ===== *)
theory Sync_State_Repository
  imports User_Repository Pagination
begin

text \<open>
  \<open>SyncStateRepository\<close> (\<open>lib/vox_store/sync_state_repository.cpp\<close>): encrypted records per
  user and collection with optimistic concurrency (a write names the version it replaces) and
  a change feed paged by row id. The theorems show that the versioned writes implement a
  compare-and-set store, that the feed is complete on a first walk, and that a cursor misses
  later updates of records it has passed.
\<close>

section \<open>Operations\<close>

record SyncRecordRow =
  sc_row_id :: int
  sc_record_id :: string
  sc_ciphertext :: string
  sc_content_hash :: string
  sc_version :: int
  sc_deleted :: bool
  sc_server_updated_at :: Timestamp

record SyncPutResult =
  sp_record_id :: string
  sp_version :: int
  sp_server_updated_at :: Timestamp
  sp_deleted :: bool

record SyncChangesPage =
  sg_changes :: "SyncRecordRow list"
  sg_next_cursor :: string
  sg_has_more :: bool

definition ParseCursorId :: "string \<Rightarrow> int option" where
  "ParseCursorId cursor = (if cursor = [] then Some 0 else from_chars_i64 cursor)"

definition row_to_change :: "sync_row \<Rightarrow> SyncRecordRow" where
  "row_to_change r = \<lparr>sc_row_id = sr_id r, sc_record_id = sr_record_id r,
     sc_ciphertext = sr_ciphertext r, sc_content_hash = sr_content_hash r,
     sc_version = sr_version r, sc_deleted = sr_deleted r,
     sc_server_updated_at = sr_server_updated_at r\<rparr>"

definition ListChangesAfterCursor :: "UserId \<Rightarrow> string \<Rightarrow> string \<Rightarrow> nat \<Rightarrow> db \<Rightarrow> SyncChangesPage" where
  "ListChangesAfterCursor user_id collection cursor limit d =
     (case ParseCursorId cursor of
        None \<Rightarrow> \<lparr>sg_changes = [], sg_next_cursor = [], sg_has_more = False\<rparr>
      | Some after_id \<Rightarrow>
          let found = map row_to_change (sql_limit (size_to_i64 (usize (limit + 1)))
                (sql_order_by sr_id (filter (\<lambda>r. sr_user_id r = user_id \<and>
                   sr_collection r = collection \<and> sr_id r > after_id) (sync_records d))));
              has_more = (length found > limit);
              changes = (if has_more then butlast found else found)
          in \<lparr>sg_changes = changes,
              sg_next_cursor = (if changes \<noteq> [] then show_int (sc_row_id (last changes)) else cursor),
              sg_has_more = has_more\<rparr>)"

definition find_record :: "UserId \<Rightarrow> string \<Rightarrow> string \<Rightarrow> db \<Rightarrow> sync_row option" where
  "find_record user_id collection record_id d =
     first_row (filter (\<lambda>r. sr_key r = (user_id, collection, record_id)) (sync_records d))"

definition UpsertRecord ::
    "sqlite \<Rightarrow> UserId \<Rightarrow> string \<Rightarrow> string \<Rightarrow> string \<Rightarrow> string \<Rightarrow> int \<Rightarrow> Timestamp \<Rightarrow> Timestamp \<Rightarrow> db \<Rightarrow>
     SyncPutResult Result \<times> db" where
  "UpsertRecord sq user_id collection record_id ciphertext content_hash base_version
       client_updated_at server_now d =
     (case find_record user_id collection record_id d of
        Some r \<Rightarrow>
          let current = sr_version r; new_ver = i32 (current + 1)
          in if current \<noteq> base_version
             then (unexpected kDuplicate ''Version conflict for sync record'', d)
             else (Inr \<lparr>sp_record_id = record_id, sp_version = new_ver,
                        sp_server_updated_at = server_now, sp_deleted = False\<rparr>,
                   d\<lparr>sync_records := sql_update (\<lambda>r. sr_key r = (user_id, collection, record_id))
                      (\<lambda>r. r\<lparr>sr_ciphertext := ciphertext, sr_content_hash := content_hash,
                            sr_version := new_ver, sr_deleted := False,
                            sr_server_updated_at := server_now\<rparr>) (sync_records d)\<rparr>)
      | None \<Rightarrow>
          if base_version \<noteq> 0 then (unexpected kDuplicate ''Version conflict for sync record'', d)
          else case insert_sync \<lparr>sr_id = 0, sr_user_id = user_id, sr_collection = collection,
                      sr_record_id = record_id, sr_ciphertext = ciphertext,
                      sr_content_hash = content_hash, sr_version = 1, sr_deleted = False,
                      sr_server_updated_at = server_now\<rparr> d of
                 None \<Rightarrow> (unexpected kInternal (what sq), d)
               | Some d' \<Rightarrow> (Inr \<lparr>sp_record_id = record_id, sp_version = 1,
                                  sp_server_updated_at = server_now, sp_deleted = False\<rparr>, d'))"

definition TombstoneRecord ::
    "UserId \<Rightarrow> string \<Rightarrow> string \<Rightarrow> int \<Rightarrow> Timestamp \<Rightarrow> Timestamp \<Rightarrow> db \<Rightarrow> SyncPutResult Result \<times> db" where
  "TombstoneRecord user_id collection record_id base_version client_updated_at server_now d =
     (case find_record user_id collection record_id d of
        None \<Rightarrow> (unexpected kNotFound ''Sync record not found'', d)
      | Some r \<Rightarrow>
          let current = sr_version r; new_ver = i32 (current + 1)
          in if current \<noteq> base_version
             then (unexpected kDuplicate ''Version conflict for sync record'', d)
             else (Inr \<lparr>sp_record_id = record_id, sp_version = new_ver,
                        sp_server_updated_at = server_now, sp_deleted = True\<rparr>,
                   d\<lparr>sync_records := sql_update (\<lambda>r. sr_key r = (user_id, collection, record_id))
                      (\<lambda>r. r\<lparr>sr_ciphertext := '''', sr_content_hash := '''',
                            sr_version := new_ver, sr_deleted := True,
                            sr_server_updated_at := server_now\<rparr>) (sync_records d)\<rparr>))"

section \<open>Constraints kept\<close>

lemma UpsertRecord_keeps [keeps]:
  "db_ok d \<Longrightarrow> db_ok (snd (UpsertRecord sq u c r x h b t now d))"
  by (simp add: UpsertRecord_def Let_def db_ok_sync insert_sync_ok sql_simps sr_key_def split: option.split)

lemma TombstoneRecord_keeps [keeps]: "db_ok d \<Longrightarrow> db_ok (snd (TombstoneRecord u c r b t now d))"
  by (simp add: TombstoneRecord_def Let_def db_ok_sync sql_simps sr_key_def split: option.split)

section \<open>A compare-and-set store\<close>

text \<open>
  What the records promise: a map from (user, collection, record) to contents with a version,
  written only by naming the current version, 0 for a record that is not there.
\<close>

record sync_content =
  sx_ciphertext :: string
  sx_content_hash :: string
  sx_version :: int
  sx_deleted :: bool

definition content_of :: "sync_row \<Rightarrow> sync_content" where
  "content_of r = \<lparr>sx_ciphertext = sr_ciphertext r, sx_content_hash = sr_content_hash r,
     sx_version = sr_version r, sx_deleted = sr_deleted r\<rparr>"

definition records :: "db \<Rightarrow> UserId \<times> string \<times> string \<Rightarrow> sync_content option" where
  "records d k = map_option content_of (find_record (fst k) (fst (snd k)) (snd (snd k)) d)"

definition current_version :: "db \<Rightarrow> UserId \<times> string \<times> string \<Rightarrow> int" where
  "current_version d k = (case records d k of None \<Rightarrow> 0 | Some c \<Rightarrow> sx_version c)"

lemma find_record_update:
  assumes "\<And>r. sr_key (f r) = sr_key r"
  shows "find_record u c i (d\<lparr>sync_records := sql_update (\<lambda>r. sr_key r = k) f (sync_records d)\<rparr>) =
    map_option (\<lambda>r. if k = (u, c, i) then f r else r) (find_record u c i d)"
proof -
  have "first_row (filter (\<lambda>r. sr_key r = (u, c, i)) (sql_update (\<lambda>r. sr_key r = k) f t)) =
      map_option (\<lambda>r. if k = (u, c, i) then f r else r)
        (first_row (filter (\<lambda>r. sr_key r = (u, c, i)) t))" for t
    by (induction t) (auto simp: sql_update_def assms)
  then show ?thesis by (simp add: find_record_def)
qed

lemma find_record_insert:
  assumes "insert_sync r d = Some d'"
  shows "find_record u c i d' =
    (if sr_key r = (u, c, i) then Some (r\<lparr>sr_id := sync_seq d + 1\<rparr>) else find_record u c i d)"
proof -
  have d': "sync_records d' = sync_records d @ [r\<lparr>sr_id := sync_seq d + 1\<rparr>]"
    and new: "sr_key r \<notin> set (map sr_key (sync_records d))"
    using assms by (auto simp: insert_sync_def split: if_splits)
  have key: "sr_key (r\<lparr>sr_id := x\<rparr>) = sr_key r" for x by (simp add: sr_key_def)
  show ?thesis
  proof (cases "sr_key r = (u, c, i)")
    case True
    then have "filter (\<lambda>r. sr_key r = (u, c, i)) (sync_records d) = []"
      using new unfolding in_set_map by (auto simp: filter_empty_conv)
    then show ?thesis using True by (simp add: find_record_def d' key)
  qed (simp add: find_record_def d' key)
qed

lemma UpsertRecord_records:
  "case UpsertRecord sq u c i x h b t now d of
     (Inr p, d') \<Rightarrow> b = current_version d (u, c, i) \<and> sp_version p = i32 (b + 1) \<and>
       records d' = (records d)((u, c, i) \<mapsto> \<lparr>sx_ciphertext = x, sx_content_hash = h,
         sx_version = i32 (b + 1), sx_deleted = False\<rparr>)
   | (Inl e, d') \<Rightarrow> d' = d \<and> (b \<noteq> current_version d (u, c, i) \<longleftrightarrow> err_code e = kDuplicate)"
proof (cases "find_record u c i d")
  case (Some r)
  have key: "sr_key (s\<lparr>sr_ciphertext := x, sr_content_hash := h, sr_version := v, sr_deleted := False,
      sr_server_updated_at := now\<rparr>) = sr_key s" for s v by (simp add: sr_key_def)
  show ?thesis
    using Some
    by (auto simp: UpsertRecord_def Let_def records_def current_version_def find_record_update key
        content_of_def fun_eq_iff option.map_comp comp_def unexpected_def option.map_ident
        cong: option.map_cong)
next
  case None
  let ?r = "\<lparr>sr_id = 0, sr_user_id = u, sr_collection = c, sr_record_id = i, sr_ciphertext = x,
    sr_content_hash = h, sr_version = 1, sr_deleted = False, sr_server_updated_at = now\<rparr>"
  have "i32 1 = 1" by (simp add: in_i32_def)
  with None show ?thesis
    by (cases "insert_sync ?r d")
      (auto simp: UpsertRecord_def records_def current_version_def find_record_insert fun_eq_iff
        sr_key_def content_of_def unexpected_def)
qed

lemma TombstoneRecord_records:
  "case TombstoneRecord u c i b t now d of
     (Inr p, d') \<Rightarrow> records d (u, c, i) \<noteq> None \<and> b = current_version d (u, c, i) \<and>
       sp_version p = i32 (b + 1) \<and>
       records d' = (records d)((u, c, i) \<mapsto> \<lparr>sx_ciphertext = '''', sx_content_hash = '''',
         sx_version = i32 (b + 1), sx_deleted = True\<rparr>)
   | (Inl e, d') \<Rightarrow> d' = d \<and> err_code e =
       (if records d (u, c, i) = None then kNotFound else kDuplicate)"
proof (cases "find_record u c i d")
  case (Some r)
  have key: "sr_key (s\<lparr>sr_ciphertext := '''', sr_content_hash := '''', sr_version := v,
      sr_deleted := True, sr_server_updated_at := now\<rparr>) = sr_key s" for s v by (simp add: sr_key_def)
  show ?thesis
    using Some
    by (auto simp: TombstoneRecord_def Let_def records_def current_version_def find_record_update key
        content_of_def fun_eq_iff option.map_comp comp_def unexpected_def option.map_ident
        cong: option.map_cong)
next
  case None
  then show ?thesis by (simp add: TombstoneRecord_def records_def unexpected_def)
qed


section \<open>The change feed\<close>

abbreviation feed_rows :: "UserId \<Rightarrow> string \<Rightarrow> db \<Rightarrow> sync_row list" where
  "feed_rows u c d \<equiv> filter (\<lambda>r. sr_user_id r = u \<and> sr_collection r = c) (sync_records d)"

definition feed :: "UserId \<Rightarrow> string \<Rightarrow> db \<Rightarrow> SyncRecordRow list" where
  "feed u c d = map row_to_change (feed_rows u c d)"

definition feed_view :: "SyncChangesPage \<Rightarrow> SyncRecordRow list \<times> string \<times> bool" where
  "feed_view p = (sg_changes p, sg_next_cursor p, sg_has_more p)"

definition max_feed_page :: nat where
  "max_feed_page = 2 ^ 63 - 1"

definition feed_ok :: "db \<Rightarrow> bool" where
  "feed_ok d \<longleftrightarrow> db_ok d \<and> sync_seq d < 2 ^ 63"

lemma sc_row_id_change [simp]: "sc_row_id (row_to_change r) = sr_id r"
  by (simp add: row_to_change_def)

lemma sync_ids:
  assumes "db_ok d"
  shows "sorted_wrt (<) (map sr_id (sync_records d))"
    and "r \<in> set (sync_records d) \<Longrightarrow> 0 < sr_id r \<and> sr_id r \<le> sync_seq d"
  using assms by (auto simp: db_ok_def sync_ok_def)

text \<open>The table is in the order of its ids, and so is every selection from it.\<close>

lemma sorted_filter_ids:
  assumes "db_ok d"
  shows "sort_key sr_id (filter P (sync_records d)) = filter P (sync_records d)"
    and "distinct (map sr_id (filter P (sync_records d)))"
proof -
  have s: "sorted_wrt (<) (map sr_id (filter P (sync_records d)))"
    using sync_ids(1) [OF assms] by (simp add: sorted_wrt_map sorted_wrt_filter)
  then have "sorted (map sr_id (filter P (sync_records d)))" by (rule strict_sorted_imp_sorted)
  then show "sort_key sr_id (filter P (sync_records d)) = filter P (sync_records d)"
    by (rule sort_key_id_if_sorted)
  show "distinct (map sr_id (filter P (sync_records d)))"
    using s by (simp add: strict_sorted_iff)
qed

lemma feed_page:
  fixes u c :: string
  assumes "db_ok d" and "n < max_feed_page" and "ParseCursorId cursor = Some i"
  defines "sel \<equiv> map row_to_change (filter (\<lambda>r. i < sr_id r) (feed_rows u c d))"
  shows "sg_changes (ListChangesAfterCursor u c cursor n d) = take n sel"
    and "sg_has_more (ListChangesAfterCursor u c cursor n d) \<longleftrightarrow> n < length sel"
proof -
  let ?rows = "filter (\<lambda>r. sr_user_id r = u \<and> sr_collection r = c \<and> i < sr_id r) (sync_records d)"
  have sel: "sel = map row_to_change ?rows"
    by (simp add: sel_def conj_commute conj_left_commute)
  have sort: "sql_order_by sr_id ?rows = ?rows"
    unfolding sql_order_by_def by (rule sorted_filter_ids(1) [OF assms(1)])
  have "Suc n < 2 ^ 63" using assms(2) by (simp add: max_feed_page_def)
  then have lim: "size_to_i64 (usize (n + 1)) = int (Suc n)"
    by (simp add: size_to_i64_id usize_def)
  have found: "map row_to_change (sql_limit (size_to_i64 (usize (n + 1))) ?rows) = take (Suc n) sel"
    unfolding lim sql_limit_def nat_int sel by (simp add: take_map)
  have more: "n < length (take (Suc n) sel) \<longleftrightarrow> n < length sel" by auto
  have cut: "(if n < length sel then butlast (take (Suc n) sel) else take (Suc n) sel) = take n sel"
    by (auto simp: butlast_take)
  show "sg_changes (ListChangesAfterCursor u c cursor n d) = take n sel"
    "sg_has_more (ListChangesAfterCursor u c cursor n d) \<longleftrightarrow> n < length sel"
    unfolding ListChangesAfterCursor_def assms(3) option.case Let_def sort found more
    by (simp_all only: cut SyncChangesPage.select_convs)
qed

lemma feed_next:
  "sg_changes (ListChangesAfterCursor u c cursor n d) \<noteq> [] \<Longrightarrow>
     sg_next_cursor (ListChangesAfterCursor u c cursor n d) =
       show_int (sc_row_id (last (sg_changes (ListChangesAfterCursor u c cursor n d))))"
  unfolding ListChangesAfterCursor_def
  by (cases "ParseCursorId cursor") (simp_all only: option.case Let_def SyncChangesPage.select_convs
      simp_thms if_True)

lemma feed_filter:
  "filter (\<lambda>s. i < sc_row_id s) (feed u c d) = map row_to_change (filter (\<lambda>r. i < sr_id r) (feed_rows u c d))"
  by (simp add: feed_def filter_map comp_def)

lemma sort_feed:
  assumes "db_ok d"
  shows "sort_key sc_row_id (map row_to_change (filter P (sync_records d))) =
    map row_to_change (filter P (sync_records d))"
proof (rule sort_key_id_if_sorted)
  show "sorted (map sc_row_id (map row_to_change (filter P (sync_records d))))"
    using sorted_filter_ids(1) [OF assms, of P] sorted_sort_key [of sr_id "filter P (sync_records d)"]
    by (simp add: comp_def)
qed

interpretation changes: keyset_pagination feed_ok "feed u c" sc_row_id "[]" show_int
  "\<lambda>d n cur. feed_view (ListChangesAfterCursor u c cur n d)" max_feed_page
proof
  fix st :: db and n :: nat and r :: SyncRecordRow
  assume "feed_ok st"
  then have ok: "db_ok st" and seq: "sync_seq st < 2 ^ 63" by (simp_all add: feed_ok_def)
  show "distinct (map sc_row_id (feed u c st))"
    using sorted_filter_ids(2) [OF ok] by (simp add: feed_def comp_def)
  assume n: "n < max_feed_page"
  have all: "filter (\<lambda>r. 0 < sr_id r) (feed_rows u c st) = feed_rows u c st"
    by (rule filter_True) (simp add: sync_ids(2) [OF ok])
  note first = feed_page [OF ok n, of "[]" 0 u c, unfolded all]
  show "fst (feed_view (ListChangesAfterCursor u c [] n st)) = take n (sort_key sc_row_id (feed u c st))"
    "snd (snd (feed_view (ListChangesAfterCursor u c [] n st))) \<longleftrightarrow> n < length (feed u c st)"
    using first by (simp_all add: feed_view_def ParseCursorId_def feed_def sort_feed [OF ok])
  assume "r \<in> set (feed u c st)"
  then obtain s where s: "s \<in> set (sync_records st)" "r = row_to_change s" by (auto simp: feed_def)
  have "in_i64 (sr_id s)" using sync_ids(2) [OF ok s(1)] seq by (simp add: in_i64_def)
  then have "ParseCursorId (show_int (sc_row_id r)) = Some (sc_row_id r)"
    by (simp add: ParseCursorId_def s(2))
  note later = feed_page [OF ok n this, of u c]
  show "fst (feed_view (ListChangesAfterCursor u c (show_int (sc_row_id r)) n st)) =
      take n (sort_key sc_row_id (filter (\<lambda>s. sc_row_id r < sc_row_id s) (feed u c st)))"
    "snd (snd (feed_view (ListChangesAfterCursor u c (show_int (sc_row_id r)) n st))) \<longleftrightarrow>
      n < length (filter (\<lambda>s. sc_row_id r < sc_row_id s) (feed u c st))"
    unfolding feed_filter using later sort_feed [OF ok]
    by (simp_all add: feed_view_def)
qed (simp add: feed_view_def feed_next)

text \<open>
  C33: A client that walks the change feed of a collection from the empty cursor, with whatever
  page size, gets every record of the collection exactly once, tombstones included, in the
  order of the row ids, and the walk ends.
\<close>

theorem sync_feed_complete:
  assumes "db_ok d" and "sync_seq d < 2 ^ 63" and "0 < limit" and "limit < max_feed_page"
  shows "walk (\<lambda>cur. feed_view (ListChangesAfterCursor u c cur limit d))
      (Suc (length (feed_rows u c d))) [] = Some (map row_to_change (feed_rows u c d)) \<and>
    distinct (map sr_id (feed_rows u c d)) \<and> sorted (map sr_id (feed_rows u c d))"
proof -
  have ok: "feed_ok d" using assms(1,2) by (simp add: feed_ok_def)
  have len: "length (feed u c d) = length (feed_rows u c d)" by (simp add: feed_def)
  have sort: "sort_key sc_row_id (feed u c d) = map row_to_change (feed_rows u c d)"
    unfolding feed_def by (rule sort_feed [OF assms(1)])
  have "sorted (map sr_id (feed_rows u c d))"
    by (metis sorted_filter_ids(1) [OF assms(1)] sorted_sort_key)
  then show ?thesis
    using changes.walk_complete [OF ok assms(3,4), of u c] sorted_filter_ids(2) [OF assms(1)]
    unfolding len sort by blast
qed

text \<open>
  C34: A cursor misses later changes of records it has passed. An update keeps the row id, and
  the feed selects ids above the cursor, so after a successful write to a record whose id the
  cursor has passed every page behind that cursor is what it was before the write.
\<close>

theorem sync_feed_misses_updates:
  assumes "db_ok d" and "find_record u c i d = Some r" and "ParseCursorId cursor = Some k"
    and "sr_id r \<le> k" and "fst (UpsertRecord sq u c i x h b t now d) = Inr p"
  shows "ListChangesAfterCursor u c cursor limit (snd (UpsertRecord sq u c i x h b t now d)) =
      ListChangesAfterCursor u c cursor limit d \<and>
    records (snd (UpsertRecord sq u c i x h b t now d)) (u, c, i) = Some \<lparr>sx_ciphertext = x,
      sx_content_hash = h, sx_version = i32 (sr_version r + 1), sx_deleted = False\<rparr>"
proof -
  let ?d' = "snd (UpsertRecord sq u c i x h b t now d)"
  let ?f = "\<lambda>r. r\<lparr>sr_ciphertext := x, sr_content_hash := h, sr_version := i32 (b + 1),
    sr_deleted := False, sr_server_updated_at := now\<rparr>"
  have b: "b = sr_version r" using assms(2,5) by (auto simp: UpsertRecord_def Let_def split: if_splits)
  have d': "sync_records ?d' = sql_update (\<lambda>r. sr_key r = (u, c, i)) ?f (sync_records d)"
    using assms(2) b by (simp add: UpsertRecord_def Let_def)
  have r: "r \<in> set (sync_records d)" "sr_key r = (u, c, i)"
    using assms(2) unfolding find_record_def by (auto dest: first_row_filter)
  have keys: "distinct (map sr_key (sync_records d))" using assms(1) by (simp add: db_ok_def sync_ok_def)
  have only: "s = r" if "s \<in> set (sync_records d)" "sr_key s = (u, c, i)" for s
    using key_eq [OF keys that(1) r(1)] that(2) r(2) by simp
  have "filter (\<lambda>r. sr_user_id r = u \<and> sr_collection r = c \<and> k < sr_id r)
      (sql_update (\<lambda>r. sr_key r = (u, c, i)) ?f t) =
    filter (\<lambda>r. sr_user_id r = u \<and> sr_collection r = c \<and> k < sr_id r) t"
    if "set t \<subseteq> set (sync_records d)" for t
    using that only assms(4) by (induction t) (auto simp: sql_update_def)
  then have "ListChangesAfterCursor u c cursor limit ?d' = ListChangesAfterCursor u c cursor limit d"
    unfolding ListChangesAfterCursor_def assms(3) option.case d' by simp
  moreover have "records ?d' (u, c, i) = Some \<lparr>sx_ciphertext = x,
      sx_content_hash = h, sx_version = i32 (sr_version r + 1), sx_deleted = False\<rparr>"
    using UpsertRecord_records [where sq = sq and u = u and c = c and i = i and x = x and h = h and
        b = b and t = t and now = now and d = d] assms(5)
    by (cases "UpsertRecord sq u c i x h b t now d") (auto simp: b)
  ultimately show ?thesis by blast
qed

definition note_row :: sync_row where
  "note_row = \<lparr>sr_id = 1, sr_user_id = ''u1'', sr_collection = ''notes'', sr_record_id = ''n1'',
     sr_ciphertext = ''old'', sr_content_hash = ''h'', sr_version = 1, sr_deleted = False,
     sr_server_updated_at = 5\<rparr>"

definition notes_db :: db where
  "notes_db = two_users\<lparr>sync_records := [note_row], sync_seq := 1\<rparr>"

lemma notes_db_ok [simp]: "db_ok notes_db"
  by code_simp

theorem sync_feed_complete_witness:
  "walk (\<lambda>cur. feed_view (ListChangesAfterCursor ''u1'' ''notes'' cur 1 notes_db)) (Suc (Suc 0)) [] =
     Some [row_to_change note_row]"
proof -
  have "feed_rows ''u1'' ''notes'' notes_db = [note_row]" "sync_seq notes_db < 2 ^ 63" by code_simp+
  with sync_feed_complete [OF notes_db_ok, of 1 "''u1''" "''notes''"] show ?thesis
    by (simp add: max_feed_page_def del: walk.simps)
qed

theorem sync_feed_misses_updates_witness:
  "sg_changes (ListChangesAfterCursor ''u1'' ''notes'' ''1'' 10
     (snd (UpsertRecord rowid_order ''u1'' ''notes'' ''n1'' ''new'' ''h2'' 1 0 9 notes_db))) = []"
proof -
  have "find_record ''u1'' ''notes'' ''n1'' notes_db = Some note_row" "sr_id note_row \<le> 1"
    "ParseCursorId ''1'' = Some 1"
    "fst (UpsertRecord rowid_order ''u1'' ''notes'' ''n1'' ''new'' ''h2'' 1 0 9 notes_db) =
       Inr \<lparr>sp_record_id = ''n1'', sp_version = 2, sp_server_updated_at = 9, sp_deleted = False\<rparr>"
    by code_simp+
  moreover have "sync_records notes_db = [note_row]" "sr_id note_row = 1" by code_simp+
  then have "sg_changes (ListChangesAfterCursor ''u1'' ''notes'' ''1'' 10 notes_db) = []"
    using calculation(3)
    by (simp add: ListChangesAfterCursor_def sql_limit_def sql_order_by_def Let_def)
  ultimately show ?thesis
    using sync_feed_misses_updates [OF notes_db_ok, of "''u1''" "''notes''" "''n1''" note_row "''1''" 1
      rowid_order "''new''" "''h2''" 1 0 9] by simp
qed

end
