(* ===== verification/Admin_Service.thy ===== *)
theory Admin_Service
  imports Session_Repository Attachment_Repository Envelope_Repository Sync_State_Repository
begin

text \<open>
  \<open>AdminService\<close> (\<open>lib/vox_admin/admin_service.cpp\<close>): statistics, the deletion of a user and the
  forced logout. \<open>DeleteUser\<close> builds its statements by pasting the user id between quotes; for an
  id with a quote in it the text is another statement, whose effect is the parameter \<open>raw\<close>. The
  ids of users are generated and have no quote. The transaction is rolled back when a statement
  throws, so that the database is then as before.
\<close>

section \<open>Operations\<close>

record ServerStats =
  st_user_count :: nat
  st_device_count :: nat
  st_active_session_count :: nat
  st_conversation_count :: nat
  st_pending_envelope_count :: nat
  st_total_storage_bytes :: int

definition GetServerStats :: "Timestamp \<Rightarrow> db \<Rightarrow> ServerStats" where
  "GetServerStats now d =
     \<lparr>st_user_count = length (users d), st_device_count = length (devices d),
      st_active_session_count = sql_count (\<lambda>s. s_revoked_at s = None \<and> s_access_expires_at s > now) (sessions d),
      st_conversation_count = length (conversations d),
      st_pending_envelope_count = sql_count (\<lambda>s. ds_delivered_at s = None \<and> ds_acked_at s = None) (delivery_state d),
      st_total_storage_bytes = sum_list (map a_file_size (filter a_upload_complete (attachment_metadata d)))\<rparr>"

definition bind_db :: "db option \<Rightarrow> (db \<Rightarrow> db option) \<Rightarrow> db option" where
  "bind_db m f = (case m of None \<Rightarrow> None | Some d \<Rightarrow> f d)"

text \<open>The statements of the transaction up to the deletion of the sender's envelopes, and the rest.\<close>

definition delete_user_messages :: "UserId \<Rightarrow> db \<Rightarrow> db option" where
  "delete_user_messages user_id d =
     (let d1 = d\<lparr>delivery_state := sql_delete (\<lambda>s. ds_target_user_id s = user_id) (delivery_state d)\<rparr>;
          d2 = d1\<lparr>delivery_state := sql_delete (\<lambda>s. ds_envelope_id s \<in> set (map e_envelope_id
                 (filter (\<lambda>e. e_sender_user_id e = user_id) (encrypted_envelopes d1)))) (delivery_state d1)\<rparr>
      in delete_envelopes (\<lambda>e. e_sender_user_id e = user_id) d2)"

definition delete_user_account :: "UserId \<Rightarrow> db \<Rightarrow> db option" where
  "delete_user_account user_id d =
     (let d1 = d\<lparr>attachment_metadata := sql_delete (\<lambda>a. a_user_id a = user_id) (attachment_metadata d)\<rparr>;
          d2 = d1\<lparr>channel_subscriptions := sql_delete (\<lambda>s. cs_user_id s = user_id) (channel_subscriptions d1)\<rparr>;
          d3 = d2\<lparr>conversation_members := sql_delete (\<lambda>m. m_user_id m = user_id) (conversation_members d2)\<rparr>;
          d4 = d3\<lparr>sessions := sql_delete (\<lambda>s. s_user_id s = user_id) (sessions d3)\<rparr>;
          d5 = d4\<lparr>one_time_prekeys := sql_delete (\<lambda>p. pk_user_id p = user_id) (one_time_prekeys d4)\<rparr>
      in bind_db (delete_devices (\<lambda>v. d_user_id v = user_id) d5) (delete_users (\<lambda>u. u_user_id u = user_id)))"

definition delete_user_rows :: "UserId \<Rightarrow> db \<Rightarrow> db option" where
  "delete_user_rows user_id d = bind_db (delete_user_messages user_id d) (delete_user_account user_id)"

definition DeleteUser ::
    "sqlite \<Rightarrow> (UserId \<Rightarrow> db \<Rightarrow> VoidResult \<times> db) \<Rightarrow> UserId \<Rightarrow> db \<Rightarrow> VoidResult \<times> db" where
  "DeleteUser sq raw user_id d =
     (case User_FindById user_id d of
        None \<Rightarrow> (unexpected kNotFound ''User not found'', d)
      | Some _ \<Rightarrow>
          if CHR 0x27 \<in> set user_id then raw user_id d
          else (case delete_user_rows user_id d of
                  None \<Rightarrow> (unexpected kInternal (what sq), d)
                | Some d' \<Rightarrow> (Inr (), d')))"

definition ForceLogout :: "UserId \<Rightarrow> Timestamp \<Rightarrow> db \<Rightarrow> VoidResult \<times> db" where
  "ForceLogout user_id now d =
     (case User_FindById user_id d of
        None \<Rightarrow> (unexpected kNotFound ''User not found'', d)
      | Some _ \<Rightarrow> and_then (Session_RevokeAllForUser user_id now d) (\<lambda>_ d. (Inr (), d)))"

section \<open>Constraints kept\<close>

lemma bind_db_Some: "bind_db m f = Some d' \<longleftrightarrow> (\<exists>d. m = Some d \<and> f d = Some d')"
  by (auto simp: bind_db_def split: option.split)

lemma delete_user_messages_ok: "delete_user_messages u d = Some d' \<Longrightarrow> db_ok d \<Longrightarrow> db_ok d'"
  unfolding delete_user_messages_def Let_def by (erule delete_envelopes_ok) (intro db_ok_delete)

lemma delete_user_account_ok: "delete_user_account u d = Some d' \<Longrightarrow> db_ok d \<Longrightarrow> db_ok d'"
  unfolding delete_user_account_def Let_def bind_db_Some
  by (elim exE conjE, erule delete_users_ok, erule delete_devices_ok) (intro db_ok_delete)

lemma DeleteUser_keeps [keeps]:
  assumes "db_ok d" and "CHR 0x27 \<notin> set u"
  shows "db_ok (snd (DeleteUser sq raw u d))"
  using assms by (auto simp: DeleteUser_def delete_user_rows_def bind_db_Some
      intro: delete_user_account_ok delete_user_messages_ok split: option.split)

lemma ForceLogout_keeps [keeps]: "db_ok d \<Longrightarrow> db_ok (snd (ForceLogout u now d))"
  by (simp add: ForceLogout_def keeps db_ok_and_then split: option.split)

section \<open>What a deletion leaves\<close>

text \<open>The database without every row that belongs to a user or to a message of the user.\<close>

definition without_user :: "UserId \<Rightarrow> db \<Rightarrow> db" where
  "without_user u d = d\<lparr>
     users := filter (\<lambda>r. u_user_id r \<noteq> u) (users d),
     devices := filter (\<lambda>r. d_user_id r \<noteq> u) (devices d),
     one_time_prekeys := filter (\<lambda>r. pk_user_id r \<noteq> u) (one_time_prekeys d),
     sessions := filter (\<lambda>r. s_user_id r \<noteq> u) (sessions d),
     conversation_members := filter (\<lambda>r. m_user_id r \<noteq> u) (conversation_members d),
     channel_subscriptions := filter (\<lambda>r. cs_user_id r \<noteq> u) (channel_subscriptions d),
     encrypted_envelopes := filter (\<lambda>r. e_sender_user_id r \<noteq> u) (encrypted_envelopes d),
     delivery_state := filter (\<lambda>r. ds_target_user_id r \<noteq> u \<and>
       (\<forall>e \<in> set (encrypted_envelopes d). e_envelope_id e = ds_envelope_id r \<longrightarrow> e_sender_user_id e \<noteq> u)) (delivery_state d),
     attachment_metadata := filter (\<lambda>r. a_user_id r \<noteq> u) (attachment_metadata d)\<rparr>"

definition deletable :: "UserId \<Rightarrow> db \<Rightarrow> bool" where
  "deletable u d \<longleftrightarrow> (\<forall>c \<in> set (conversations d). c_created_by c \<noteq> u) \<and> (\<forall>r \<in> set (sync_records d). sr_user_id r \<noteq> u)"

lemma remaining_key:
  "x \<in> set (map k t) \<Longrightarrow> (\<And>r. r \<in> set t \<Longrightarrow> k r = x \<Longrightarrow> \<not> P r) \<Longrightarrow> x \<in> set (map k (sql_delete P t))"
  by (auto simp: sql_delete_def)

lemma sql_delete_twice: "sql_delete P (sql_delete Q t) = filter (\<lambda>r. \<not> Q r \<and> \<not> P r) t"
  by (auto simp: sql_delete_def intro: filter_cong)

lemma delete_user_messages_result:
  assumes "db_ok d"
  shows "delete_user_messages u d = Some (d\<lparr>
    encrypted_envelopes := filter (\<lambda>r. e_sender_user_id r \<noteq> u) (encrypted_envelopes d),
    delivery_state := delivery_state (without_user u d)\<rparr>)"
proof -
  let ?d2 = "d\<lparr>delivery_state := delivery_state (without_user u d)\<rparr>"
  have "s \<in> set (delivery_state ?d2) \<Longrightarrow> ds_envelope_id s \<in> set (map e_envelope_id
      (sql_delete (\<lambda>e. e_sender_user_id e = u) (encrypted_envelopes d)))" for s
    using db_ok_fks(12) [OF assms, of s] by (intro remaining_key) (auto simp: without_user_def)
  then have "delete_envelopes (\<lambda>e. e_sender_user_id e = u) ?d2 =
      Some (?d2\<lparr>encrypted_envelopes := sql_delete (\<lambda>e. e_sender_user_id e = u) (encrypted_envelopes d)\<rparr>)"
    by (auto simp: delete_envelopes_def Let_def simp del: set_map) auto
  moreover have "sql_delete (\<lambda>s. ds_envelope_id s \<in> e_envelope_id ` {e \<in> set (encrypted_envelopes d). e_sender_user_id e = u})
      (sql_delete (\<lambda>s. ds_target_user_id s = u) (delivery_state d)) = delivery_state (without_user u d)"
    unfolding sql_delete_twice without_user_def by (auto simp: image_iff intro!: filter_cong)
  ultimately show ?thesis by (simp add: delete_user_messages_def Let_def sql_delete_def)
qed

text \<open>Rows that reference remaining rows: those whose key is not among the deleted.\<close>

lemma rows_remaining:
  assumes "\<And>r. r \<in> set t \<Longrightarrow> k r \<in> set (map key ps)"
  shows "set (map k t) \<subseteq> set (map key (sql_delete (\<lambda>p. Q (key p)) ps)) \<longleftrightarrow> (\<forall>r \<in> set t. \<not> Q (k r))"
  using assms by (fastforce simp: sql_delete_def)

lemma users_remaining:
  assumes "\<And>r. r \<in> set t \<Longrightarrow> k r \<in> set (user_keys d)"
  shows "set (map k t) \<subseteq> set (map u_user_id (sql_delete (\<lambda>r. u_user_id r = u) (users d))) \<longleftrightarrow> (\<forall>r \<in> set t. k r \<noteq> u)"
  using rows_remaining [OF assms, where Q = "\<lambda>x. x = u"] by simp

lemma devices_remaining:
  assumes "\<And>r. r \<in> set t \<Longrightarrow> k r \<in> set (device_keys d)"
  shows "set (map k t) \<subseteq> set (map dev_key (sql_delete (\<lambda>r. d_user_id r = u) (devices d))) \<longleftrightarrow> (\<forall>r \<in> set t. fst (k r) \<noteq> u)"
  using rows_remaining [OF assms, where Q = "\<lambda>x. fst x = u"] by (simp add: dev_key_def)

lemma delete_user_account_result:
  assumes "db_ok d" and "\<forall>e \<in> set (encrypted_envelopes d). e_sender_user_id e \<noteq> u"
    and "\<forall>s \<in> set (delivery_state d). ds_target_user_id s \<noteq> u"
  shows "delete_user_account u d = (if deletable u d then Some (without_user u d) else None)"
proof -
  note fks = db_ok_fks [OF assms(1)]
  have fks': "\<And>a. a \<in> set (attachment_metadata d) \<Longrightarrow> a_user_id a \<in> set (user_keys d)"
    "\<And>r. r \<in> set (sync_records d) \<Longrightarrow> sr_user_id r \<in> set (user_keys d)"
    using assms(1) by (auto simp: db_ok_def attachments_ok_def sync_ok_def)
  let ?d5 = "d\<lparr>attachment_metadata := sql_delete (\<lambda>a. a_user_id a = u) (attachment_metadata d),
    channel_subscriptions := sql_delete (\<lambda>s. cs_user_id s = u) (channel_subscriptions d),
    conversation_members := sql_delete (\<lambda>m. m_user_id m = u) (conversation_members d),
    sessions := sql_delete (\<lambda>s. s_user_id s = u) (sessions d),
    one_time_prekeys := sql_delete (\<lambda>p. pk_user_id p = u) (one_time_prekeys d)\<rparr>"
  let ?d6 = "?d5\<lparr>devices := sql_delete (\<lambda>v. d_user_id v = u) (devices d)\<rparr>"
  let ?devs = "set (map dev_key (sql_delete (\<lambda>v. d_user_id v = u) (devices d)))"
    and ?us = "set (map u_user_id (sql_delete (\<lambda>r. u_user_id r = u) (users d)))"
  have "set (map pk_dev (sql_delete (\<lambda>p. pk_user_id p = u) (one_time_prekeys d))) \<subseteq> ?devs"
    "set (map s_dev (sql_delete (\<lambda>s. s_user_id s = u) (sessions d))) \<subseteq> ?devs"
    "set (map e_dev (encrypted_envelopes d)) \<subseteq> ?devs" "set (map ds_dev (delivery_state d)) \<subseteq> ?devs"
    by (rule devices_remaining [THEN iffD2]; use assms(2,3) fks(2,3,11,13) in
        \<open>auto simp: sql_simps pk_dev_def s_dev_def e_dev_def ds_dev_def simp del: set_map\<close>)+
  then have "delete_devices (\<lambda>v. d_user_id v = u) ?d5 = Some ?d6"
    by (simp add: delete_devices_def Let_def del: set_map)
  moreover have "without_user u d = ?d6\<lparr>users := sql_delete (\<lambda>r. u_user_id r = u) (users d)\<rparr>"
    using assms(2,3) by (simp add: without_user_def sql_delete_def)
  moreover have "set (map d_user_id (sql_delete (\<lambda>v. d_user_id v = u) (devices d))) \<subseteq> ?us"
    "set (map s_user_id (sql_delete (\<lambda>s. s_user_id s = u) (sessions d))) \<subseteq> ?us"
    "set (map m_user_id (sql_delete (\<lambda>m. m_user_id m = u) (conversation_members d))) \<subseteq> ?us"
    "set (map cs_user_id (sql_delete (\<lambda>s. cs_user_id s = u) (channel_subscriptions d))) \<subseteq> ?us"
    "set (map a_user_id (sql_delete (\<lambda>a. a_user_id a = u) (attachment_metadata d))) \<subseteq> ?us"
    by (rule users_remaining [THEN iffD2]; use fks(1,4,7,9) fks'(1) in \<open>auto simp: sql_simps simp del: set_map\<close>)+
  then have "delete_users (\<lambda>r. u_user_id r = u) ?d6 =
      (if deletable u d then Some (?d6\<lparr>users := sql_delete (\<lambda>r. u_user_id r = u) (users d)\<rparr>) else None)"
    using users_remaining [of "conversations d" c_created_by d u, OF fks(5)]
      users_remaining [of "sync_records d" sr_user_id d u, OF fks'(2)]
    by (simp add: delete_users_def Let_def deletable_def del: set_map)
  ultimately show ?thesis by (simp add: delete_user_account_def Let_def bind_db_def)
qed

lemma DeleteUser_result:
  assumes "db_ok d" and "u \<in> set (user_keys d)" and "CHR 0x27 \<notin> set u"
  shows "DeleteUser sq raw u d =
    (if deletable u d then (Inr (), without_user u d) else (unexpected kInternal (what sq), d))"
proof -
  let ?d1 = "d\<lparr>encrypted_envelopes := filter (\<lambda>r. e_sender_user_id r \<noteq> u) (encrypted_envelopes d),
    delivery_state := delivery_state (without_user u d)\<rparr>"
  note msgs = delete_user_messages_result [OF assms(1), of u]
  have "delete_user_account u ?d1 = (if deletable u ?d1 then Some (without_user u ?d1) else None)"
    using delete_user_messages_ok [OF msgs assms(1)] by (rule delete_user_account_result) (auto simp: without_user_def)
  moreover have "deletable u ?d1 = deletable u d" by (simp add: deletable_def)
  moreover have "without_user u ?d1 = without_user u d"
    by (simp add: without_user_def cong: conj_cong)
  moreover obtain r where "User_FindById u d = Some r"
    using assms(2) User_FindById_None [of u d] by (cases "User_FindById u d") auto
  ultimately show ?thesis using assms(3) by (simp add: DeleteUser_def delete_user_rows_def msgs bind_db_def)
qed

text \<open>
  C26: What \<open>DeleteUser\<close> does, for an existing user without a quote in the id. When the user has
  neither created a conversation nor stored a sync record, every row of the user and every row
  about a message of the user goes and all others stay. Otherwise a foreign key stops the
  transaction: the call fails with an internal error and the database stays as it was.
\<close>

theorem DeleteUser_correct:
  assumes "db_ok d" and "u \<in> set (user_keys d)" and "CHR 0x27 \<notin> set u"
  shows "DeleteUser sq raw u d =
    (if deletable u d then (Inr (), without_user u d) else (unexpected kInternal (what sq), d))"
  using assms by (rule DeleteUser_result)

theorem DeleteUser_correct_witness:
  "DeleteUser rowid_order (\<lambda>_ d. (Inr (), d)) ''u2'' mail_db = (Inr (), without_user ''u2'' mail_db) \<and>
   DeleteUser rowid_order (\<lambda>_ d. (Inr (), d)) ''u1'' mail_db = (unexpected kInternal ''constraint failed'', mail_db)"
proof -
  have "''u1'' \<in> set (user_keys mail_db)" "''u2'' \<in> set (user_keys mail_db)"
    "deletable ''u2'' mail_db" "\<not> deletable ''u1'' mail_db"
    by code_simp+
  then show ?thesis
    using DeleteUser_correct [OF mail_db_ok(1), of "''u2''" rowid_order "\<lambda>_ d. (Inr (), d)"] DeleteUser_correct [OF mail_db_ok(1), of "''u1''" rowid_order "\<lambda>_ d. (Inr (), d)"]
    by (simp add: rowid_order_def)
qed

end
