(* ===== verification/Attachment_Service.thy ===== *)
theory Attachment_Service
  imports Attachment_Repository Envelope_Repository Server_Config
begin

text \<open>
  \<open>AttachmentService\<close> (\<open>lib/vox_attachments/attachment_service.cpp\<close>): chunked uploads into blob files
  and their metadata, and the purge that the maintenance thread of \<open>bin/main.cpp\<close> submits. The blob
  directory is a map from paths to contents, with the paths that the process may open and remove.
  A write that the operating system refuses after the stream has buffered it is not seen by the
  code either and is left out.
\<close>

section \<open>Files\<close>

record files =
  fs_blobs :: "string \<rightharpoonup> string"
  fs_writable :: "string \<Rightarrow> bool"

definition fs_exists :: "string \<Rightarrow> files \<Rightarrow> bool" where
  "fs_exists path fs \<longleftrightarrow> fs_blobs fs path \<noteq> None"

text \<open>\<open>std::filesystem::path::operator/\<close> on a relative file name.\<close>

definition path_join :: "string \<Rightarrow> string \<Rightarrow> string" where
  "path_join dir name = (if dir = [] \<or> last dir = CHR ''/'' then dir @ name else dir @ CHR ''/'' # name)"

text \<open>A write at an offset; the gap after the end of the file reads as zero bytes.\<close>

definition write_at :: "nat \<Rightarrow> string \<Rightarrow> string \<Rightarrow> string" where
  "write_at offset data old =
     (if data = [] then old
      else take offset (old @ replicate (offset - length old) (CHR 0x00)) @ data @ drop (offset + length data) old)"

section \<open>Operations\<close>

record InitUploadResponse =
  iu_attachment_id :: AttachmentId
  iu_blob_path :: string

definition blob_path :: "ServerConfig \<Rightarrow> AttachmentId \<Rightarrow> string" where
  "blob_path config attachment_id = path_join (blob_storage_path config) (attachment_id @ ''.blob'')"

definition new_attachment ::
    "ServerConfig \<Rightarrow> AttachmentId \<Rightarrow> Timestamp \<Rightarrow> UserId \<Rightarrow> ConversationId \<Rightarrow> int \<Rightarrow> string \<Rightarrow> AttachmentRecord" where
  "new_attachment config attachment_id now user_id conversation_id file_size mime_hint =
     \<lparr>ar_attachment_id = attachment_id, ar_user_id = user_id, ar_conversation_id = conversation_id,
      ar_file_size = file_size, ar_mime_hint = mime_hint, ar_ciphertext_hash = '''',
      ar_blob_path = blob_path config attachment_id, ar_upload_complete = False, ar_created_at = now,
      ar_retention_until = (if attachment_retention_seconds config > 0
         then Some (i64 (now + attachment_retention_seconds config)) else None)\<rparr>"

definition InitUpload ::
    "sqlite \<Rightarrow> ServerConfig \<Rightarrow> uuid_draw \<Rightarrow> Timestamp \<Rightarrow> UserId \<Rightarrow> ConversationId \<Rightarrow> int \<Rightarrow> string \<Rightarrow> db \<Rightarrow>
     InitUploadResponse Result \<times> db" where
  "InitUpload sq config r now user_id conversation_id file_size mime_hint d =
     (if file_size \<le> 0 then (unexpected kInvalidArgument ''File size must be positive'', d)
      else if file_size > size_to_i64 (max_upload_size_bytes config)
      then (unexpected kQuotaExceeded ''File exceeds maximum upload size'', d)
      else if i64 (GetStorageUsedByUser user_id d + file_size) > size_to_i64 (max_storage_per_user_bytes config)
      then (unexpected kQuotaExceeded ''User storage quota exceeded'', d)
      else if \<not> IsUserInConversation conversation_id user_id d
      then (unexpected kForbidden ''User is not a member of this conversation'', d)
      else let attachment_id = uuid r in
        and_then (CreateAttachmentMeta sq
          (new_attachment config attachment_id now user_id conversation_id file_size mime_hint) d) (\<lambda>_ d.
          (Inr \<lparr>iu_attachment_id = attachment_id, iu_blob_path = blob_path config attachment_id\<rparr>, d)))"

definition WriteChunk :: "AttachmentId \<Rightarrow> int \<Rightarrow> string \<Rightarrow> files \<times> db \<Rightarrow> VoidResult \<times> files \<times> db" where
  "WriteChunk attachment_id offset data = (\<lambda>(fs, d).
     case GetAttachmentMeta attachment_id d of
       None \<Rightarrow> (unexpected kNotFound ''Attachment not found'', fs, d)
     | Some meta \<Rightarrow>
         if ar_upload_complete meta then (unexpected kInvalidArgument ''Upload already complete'', fs, d)
         else if \<not> fs_writable fs (ar_blob_path meta)
         then (unexpected kInternal ''Cannot open blob file'', fs, d)
         else let old = (case fs_blobs fs (ar_blob_path meta) of None \<Rightarrow> [] | Some s \<Rightarrow> s);
                  keep = (\<lambda>s. fs\<lparr>fs_blobs := (fs_blobs fs)(ar_blob_path meta \<mapsto> s)\<rparr>)
              in if offset < 0 then (unexpected kInternal ''Failed to write chunk'', keep old, d)
                 else (Inr (), keep (write_at (nat offset) data old), d))"

definition FinalizeUpload :: "AttachmentId \<Rightarrow> string \<Rightarrow> files \<times> db \<Rightarrow> VoidResult \<times> files \<times> db" where
  "FinalizeUpload attachment_id ciphertext_hash = (\<lambda>(fs, d).
     case GetAttachmentMeta attachment_id d of
       None \<Rightarrow> (unexpected kNotFound ''Attachment not found'', fs, d)
     | Some meta \<Rightarrow>
         if ar_upload_complete meta then (unexpected kInvalidArgument ''Upload already finalized'', fs, d)
         else if \<not> fs_exists (ar_blob_path meta) fs
         then (unexpected kInternal ''Blob file not found on disk'', fs, d)
         else (case MarkUploadComplete attachment_id ciphertext_hash d of (r, d') \<Rightarrow> (r, fs, d')))"

definition GetAttachment :: "AttachmentId \<Rightarrow> UserId \<Rightarrow> db \<Rightarrow> string Result" where
  "GetAttachment attachment_id user_id d =
     (case GetAttachmentMeta attachment_id d of
        None \<Rightarrow> unexpected kNotFound ''Attachment not found''
      | Some meta \<Rightarrow>
          if \<not> ar_upload_complete meta then unexpected kNotFound ''Attachment upload not complete''
          else if \<not> IsUserInConversation (ar_conversation_id meta) user_id d
          then unexpected kForbidden ''Not authorized to access this attachment''
          else Inr (ar_blob_path meta))"

definition fs_remove :: "string \<Rightarrow> files \<Rightarrow> files" where
  "fs_remove path fs = (if fs_writable fs path then fs\<lparr>fs_blobs := (fs_blobs fs)(path := None)\<rparr> else fs)"

definition Service_DeleteExpired :: "sqlite \<Rightarrow> Timestamp \<Rightarrow> files \<times> db \<Rightarrow> int \<times> files \<times> db" where
  "Service_DeleteExpired sq now = (\<lambda>(fs, d).
     let fs' = fold (\<lambda>att. fs_remove (ar_blob_path att)) (GetExpired sq now d) fs
     in case Att_DeleteExpired now d of (n, d') \<Rightarrow> (n, fs', d'))"

text \<open>The task of the maintenance thread; \<open>None\<close> is an exception, which the pool logs.\<close>

definition maintenance_purge :: "sqlite \<Rightarrow> Timestamp \<Rightarrow> files \<times> db \<Rightarrow> (int \<times> int \<times> files \<times> db) option" where
  "maintenance_purge sq now = (\<lambda>(fs, d).
     case Env_DeleteExpired now d of
       None \<Rightarrow> None
     | Some (env_n, d1) \<Rightarrow> (case Service_DeleteExpired sq now (fs, d1) of (att_n, s) \<Rightarrow> Some (env_n, att_n, s)))"

section \<open>Constraints kept\<close>

lemma InitUpload_keeps [keeps]: "db_ok d \<Longrightarrow> db_ok (snd (InitUpload sq config r now u c n mime d))"
  by (simp add: InitUpload_def Let_def keeps db_ok_and_then)

lemma WriteChunk_same [simp]: "snd (snd (WriteChunk i off data (fs, d))) = d"
  by (simp add: WriteChunk_def Let_def split: option.split)

lemma FinalizeUpload_keeps [keeps]: "db_ok d \<Longrightarrow> db_ok (snd (snd (FinalizeUpload i h (fs, d))))"
  using MarkUploadComplete_keeps [of d i h] by (auto simp: FinalizeUpload_def split: option.split prod.split)

section \<open>The purge\<close>

text \<open>Every attachment has the blob file that \<open>InitUpload\<close> gave it.\<close>

definition blobs_ok :: "ServerConfig \<Rightarrow> db \<Rightarrow> bool" where
  "blobs_ok config d \<longleftrightarrow> (\<forall>a \<in> set (attachment_metadata d). a_blob_path a = blob_path config (a_attachment_id a))"

lemma blob_path_inj [simp]: "blob_path config i = blob_path config j \<longleftrightarrow> i = j"
  by (simp add: blob_path_def path_join_def)

lemma attachments_distinct: "db_ok d \<Longrightarrow> distinct (map a_attachment_id (attachment_metadata d))"
  by (simp add: db_ok_def attachments_ok_def)

lemma same_blob:
  assumes "db_ok d" "blobs_ok config d" and "a \<in> set (attachment_metadata d)" "b \<in> set (attachment_metadata d)"
  shows "a_blob_path a = a_blob_path b \<longleftrightarrow> a = b"
  using assms key_eq [OF attachments_distinct [OF assms(1)]] by (auto simp: blobs_ok_def)

lemma fs_remove_all:
  "fs_writable (fold (\<lambda>att. fs_remove (ar_blob_path att)) atts fs) = fs_writable fs"
  "fs_blobs (fold (\<lambda>att. fs_remove (ar_blob_path att)) atts fs) p =
    (if p \<in> ar_blob_path ` set atts \<and> fs_writable fs p then None else fs_blobs fs p)"
  by (induction atts arbitrary: fs) (auto simp: fs_remove_def)

lemma expired_paths:
  "sqlite_ok sq \<Longrightarrow> ar_blob_path ` set (GetExpired sq now d) = a_blob_path ` {a \<in> set (attachment_metadata d). att_expired now a}"
  by (auto simp: GetExpired_def set_scan image_iff row_to_attachment_def)

text \<open>
  C32: The maintenance purge never fails on a foreign key. It deletes exactly the envelopes whose
  retention has passed, with their delivery states, and exactly the attachments whose retention
  has passed, with their blob files; every other envelope, delivery state, attachment and file
  stays.
\<close>

theorem maintenance_purge_exact:
  assumes "sqlite_ok sq" "db_ok d" "blobs_ok config d"
  shows "\<exists>m n fs' d'. maintenance_purge sq now (fs, d) = Some (m, n, fs', d') \<and> db_ok d' \<and>
    encrypted_envelopes d' = filter (\<lambda>e. \<not> env_expired now e) (encrypted_envelopes d) \<and>
    (\<forall>s. s \<in> set (delivery_state d') \<longleftrightarrow> s \<in> set (delivery_state d) \<and>
       (\<exists>e \<in> set (encrypted_envelopes d). e_envelope_id e = ds_envelope_id s \<and> \<not> env_expired now e)) \<and>
    attachment_metadata d' = filter (\<lambda>a. \<not> att_expired now a) (attachment_metadata d) \<and>
    (\<forall>a \<in> set (attachment_metadata d). fs_writable fs (a_blob_path a) \<longrightarrow>
       fs_blobs fs' (a_blob_path a) = (if att_expired now a then None else fs_blobs fs (a_blob_path a))) \<and>
    (\<forall>p. p \<notin> a_blob_path ` set (attachment_metadata d) \<longrightarrow> fs_blobs fs' p = fs_blobs fs p)"
proof -
  obtain n d1 where d1: "Env_DeleteExpired now d = Some (n, d1)" "db_ok d1"
    "encrypted_envelopes d1 = filter (\<lambda>e. \<not> env_expired now e) (encrypted_envelopes d)"
    "set (delivery_state d1) = {s \<in> set (delivery_state d). \<exists>e \<in> set (encrypted_envelopes d).
       e_envelope_id e = ds_envelope_id s \<and> \<not> env_expired now e}" "attachment_metadata d1 = attachment_metadata d"
    using assms(2) by (rule Env_DeleteExpired_Some)
  let ?fs = "fold (\<lambda>att. fs_remove (ar_blob_path att)) (GetExpired sq now d1) fs"
  have "fs_blobs ?fs (a_blob_path a) = (if att_expired now a then None else fs_blobs fs (a_blob_path a))"
    if "a \<in> set (attachment_metadata d)" "fs_writable fs (a_blob_path a)" for a
    using that same_blob [OF assms(2,3) that(1)] by (auto simp: fs_remove_all expired_paths [OF assms(1)] d1(5))
  moreover have "fs_blobs ?fs p = fs_blobs fs p" if "p \<notin> a_blob_path ` set (attachment_metadata d)" for p
    using that by (auto simp: fs_remove_all expired_paths [OF assms(1)] d1(5))
  moreover have "db_ok (d1\<lparr>attachment_metadata := filter (\<lambda>a. \<not> att_expired now a) (attachment_metadata d)\<rparr>)"
    using db_ok_delete(6) [OF d1(2), of "att_expired now"] by (simp add: sql_delete_def d1(5))
  ultimately show ?thesis using d1
    by (simp add: maintenance_purge_def Service_DeleteExpired_def Att_DeleteExpired_def sql_delete_def)
qed

definition photo :: "AttachmentId \<Rightarrow> Timestamp option \<Rightarrow> attachment_row" where
  "photo i ret = \<lparr>a_attachment_id = i, a_user_id = ''u1'', a_conversation_id = ''g'', a_file_size = 9, a_mime_hint = [],
     a_ciphertext_hash = None, a_blob_path = blob_path ServerConfig_Default i, a_upload_complete = False,
     a_created_at = 1, a_retention_until = ret\<rparr>"

definition photo_db :: db where
  "photo_db = mail_db\<lparr>attachment_metadata := [photo ''x'' (Some 3), photo ''y'' None]\<rparr>"

lemma photo_db_ok: "db_ok photo_db" "blobs_ok ServerConfig_Default photo_db"
proof -
  have "''u1'' \<in> set (user_keys mail_db)" "''g'' \<in> set (conversation_keys mail_db)" by code_simp+
  then have "attachments_ok (user_keys mail_db) (conversation_keys mail_db) [photo ''x'' (Some 3), photo ''y'' None]"
    by (simp add: attachments_ok_def photo_def)
  then show "db_ok photo_db" using mail_db_ok(1) by (simp add: db_ok_def photo_db_def)
  show "blobs_ok ServerConfig_Default photo_db" by (simp add: blobs_ok_def photo_db_def photo_def)
qed

theorem maintenance_purge_exact_witness:
  "\<exists>m n fs' d'. maintenance_purge rowid_order 11 (\<lparr>fs_blobs = (\<lambda>_. Some ''z''), fs_writable = (\<lambda>_. True)\<rparr>, photo_db) =
      Some (m, n, fs', d') \<and>
    attachment_metadata d' = [photo ''y'' None] \<and> fs_blobs fs' (blob_path ServerConfig_Default ''x'') = None \<and>
    fs_blobs fs' (blob_path ServerConfig_Default ''y'') = Some ''z''"
proof -
  let ?fs = "\<lparr>fs_blobs = (\<lambda>_. Some ''z''), fs_writable = (\<lambda>_. True)\<rparr>"
  have e: "att_expired 11 (photo ''x'' (Some 3))" "\<not> att_expired 11 (photo ''y'' None)"
    "attachment_metadata photo_db = [photo ''x'' (Some 3), photo ''y'' None]"
    "a_blob_path (photo i r) = blob_path ServerConfig_Default i" for i r
    by (simp_all add: att_expired_def photo_def photo_db_def)
  from maintenance_purge_exact [OF sqlite_ok_rowid_order photo_db_ok, of 11 ?fs] show ?thesis
    unfolding e(3) by (elim exE conjE) (intro exI conjI, assumption, simp_all add: e)
qed

section \<open>An upload\<close>

text \<open>A client that uploads the chunks of a file one after the other.\<close>

fun write_chunks :: "AttachmentId \<Rightarrow> nat \<Rightarrow> string list \<Rightarrow> files \<times> db \<Rightarrow> VoidResult \<times> files \<times> db" where
  "write_chunks attachment_id offset [] s = (Inr (), s)"
| "write_chunks attachment_id offset (chunk # chunks) s =
     and_then (WriteChunk attachment_id (int offset) chunk s) (\<lambda>_ s.
       write_chunks attachment_id (offset + length chunk) chunks s)"

definition blob :: "files \<Rightarrow> string \<Rightarrow> string" where
  "blob fs path = (case fs_blobs fs path of None \<Rightarrow> [] | Some s \<Rightarrow> s)"

lemma blob_upd [simp]: "blob (fs\<lparr>fs_blobs := m(p \<mapsto> s)\<rparr>) p = s"
  by (simp add: blob_def)

lemma write_at_end: "write_at (length old) data old = old @ data"
  by (simp add: write_at_def)

text \<open>A chunk is accepted whatever its offset and length, and whatever size was announced.\<close>

lemma WriteChunk_result:
  assumes "GetAttachmentMeta i d = Some meta" "\<not> ar_upload_complete meta" "fs_writable fs (ar_blob_path meta)"
  shows "WriteChunk i (int off) data (fs, d) =
    (Inr (), fs\<lparr>fs_blobs := (fs_blobs fs)(ar_blob_path meta \<mapsto> write_at off data (blob fs (ar_blob_path meta)))\<rparr>, d)"
  using assms by (simp add: WriteChunk_def blob_def Let_def)

lemma write_chunks_result:
  assumes "GetAttachmentMeta i d = Some meta" "\<not> ar_upload_complete meta" "fs_writable fs (ar_blob_path meta)"
    and "chunks \<noteq> []"
  shows "write_chunks i (length (blob fs (ar_blob_path meta))) chunks (fs, d) =
    (Inr (), fs\<lparr>fs_blobs := (fs_blobs fs)(ar_blob_path meta \<mapsto> blob fs (ar_blob_path meta) @ concat chunks)\<rparr>, d)"
  using assms(3,4)
proof (induction chunks arbitrary: fs)
  case (Cons chunk chunks)
  let ?fs = "fs\<lparr>fs_blobs := (fs_blobs fs)(ar_blob_path meta \<mapsto> blob fs (ar_blob_path meta) @ chunk)\<rparr>"
  have w: "WriteChunk i (int (length (blob fs (ar_blob_path meta)))) chunk (fs, d) = (Inr (), ?fs, d)"
    using WriteChunk_result [OF assms(1,2) Cons.prems(1)] by (simp add: write_at_end)
  show ?case
  proof (cases "chunks = []")
    case False
    with Cons.IH [of ?fs] Cons.prems show ?thesis by (simp add: w cong: if_cong)
  qed (simp add: w fun_upd_def)
qed simp

lemma InitUpload_Inr:
  assumes "fst (InitUpload sq config r now u c n mime d) = Inr resp"
  shows "iu_attachment_id resp = uuid r" "iu_blob_path resp = blob_path config (uuid r)"
    "0 < n" "n \<le> size_to_i64 (max_upload_size_bytes config)" "IsUserInConversation c u d"
    "i64 (GetStorageUsedByUser u d + n) \<le> size_to_i64 (max_storage_per_user_bytes config)"
    "snd (InitUpload sq config r now u c n mime d) =
       snd (CreateAttachmentMeta sq (new_attachment config (uuid r) now u c n mime) d)"
    "fst (CreateAttachmentMeta sq (new_attachment config (uuid r) now u c n mime) d) = Inr ()"
  using assms by (auto simp: InitUpload_def Let_def fst_and_then_Inr snd_and_then split: if_splits)

lemma InitUpload_meta:
  assumes "fst (InitUpload sq config r now u c n mime d) = Inr resp"
  shows "GetAttachmentMeta (uuid r) (snd (InitUpload sq config r now u c n mime d)) =
    Some (new_attachment config (uuid r) now u c n mime)"
proof -
  note i = InitUpload_Inr [OF assms]
  have "uuid r \<notin> set (map a_attachment_id (attachment_metadata d))"
    using i(8) by (auto simp: CreateAttachmentMeta_def insert_attachment_def new_attachment_def split: if_splits)
  then have "filter (\<lambda>a. a_attachment_id a = uuid r) (attachment_metadata d) = []"
    by (auto simp: filter_empty_conv image_iff)
  then show ?thesis
    using i(8) unfolding i(7)
    by (auto simp: CreateAttachmentMeta_def insert_attachment_def GetAttachmentMeta_def new_attachment_def
        row_to_attachment_def split: if_splits)
qed

lemma IsUserInConversation_attachments [simp]:
  "IsUserInConversation c u (d\<lparr>attachment_metadata := t\<rparr>) = IsUserInConversation c u d"
  by (simp add: IsUserInConversation_def Conv_FindById_def split: option.split)

lemma Finalize_meta:
  assumes "GetAttachmentMeta i d = Some meta" "\<not> ar_upload_complete meta" "fs_exists (ar_blob_path meta) fs"
  shows "FinalizeUpload i h (fs, d) = (Inr (), fs, snd (MarkUploadComplete i h d))"
    "\<exists>m. GetAttachmentMeta i (snd (MarkUploadComplete i h d)) = Some m \<and> ar_upload_complete m \<and>
      ar_blob_path m = ar_blob_path meta \<and> ar_conversation_id m = ar_conversation_id meta"
    "IsUserInConversation c u (snd (MarkUploadComplete i h d)) = IsUserInConversation c u d"
proof -
  obtain a where a: "first_row (filter (\<lambda>a. a_attachment_id a = i) (attachment_metadata d)) = Some a"
    "meta = row_to_attachment a"
    using assms(1) by (auto simp: GetAttachmentMeta_def)
  then have "sql_count (\<lambda>a. a_attachment_id a = i) (attachment_metadata d) \<noteq> 0"
    by (auto simp: sql_count_def first_row_def split: list.splits)
  then show "FinalizeUpload i h (fs, d) = (Inr (), fs, snd (MarkUploadComplete i h d))"
    using assms by (simp add: FinalizeUpload_def MarkUploadComplete_def Let_def)
  let ?f = "\<lambda>a :: attachment_row. a\<lparr>a_upload_complete := True, a_ciphertext_hash := Some h\<rparr>"
  have "first_row (filter (\<lambda>a. a_attachment_id a = i) (sql_update (\<lambda>a. a_attachment_id a = i) ?f t)) =
      map_option ?f (first_row (filter (\<lambda>a. a_attachment_id a = i) t))" for t :: "attachment_row list"
    by (induction t) (auto simp: sql_update_def)
  then have "GetAttachmentMeta i (snd (MarkUploadComplete i h d)) = Some (row_to_attachment (?f a))"
    using a by (simp add: GetAttachmentMeta_def MarkUploadComplete_def Let_def)
  then show "\<exists>m. GetAttachmentMeta i (snd (MarkUploadComplete i h d)) = Some m \<and> ar_upload_complete m \<and>
      ar_blob_path m = ar_blob_path meta \<and> ar_conversation_id m = ar_conversation_id meta"
    using a(2) by simp
  show "IsUserInConversation c u (snd (MarkUploadComplete i h d)) = IsUserInConversation c u d"
    by (simp add: MarkUploadComplete_def Let_def)
qed

text \<open>
  C25: An upload comes back as it went in. When \<open>InitUpload\<close> has accepted an attachment and its
  blob file can be written and is not there yet, uploading the chunks of a file one after the other and
  finalizing it succeeds, the blob file then holds the chunks put together, and \<open>GetAttachment\<close>
  names that file to the members of the conversation and refuses everyone else.
\<close>

theorem upload_roundtrip:
  assumes "fst (InitUpload sq config r now u c n mime d) = Inr resp" and "chunks \<noteq> []"
    and "fs_writable fs (iu_blob_path resp)" "fs_blobs fs (iu_blob_path resp) = None"
  shows "case write_chunks (iu_attachment_id resp) 0 chunks (fs, snd (InitUpload sq config r now u c n mime d)) of
      (written, fs1, d1) \<Rightarrow> (case FinalizeUpload (iu_attachment_id resp) hash (fs1, d1) of (finalized, fs2, d2) \<Rightarrow>
        written = Inr () \<and> finalized = Inr () \<and> fs_blobs fs2 (iu_blob_path resp) = Some (concat chunks) \<and>
        GetAttachment (iu_attachment_id resp) v d2 =
          (if IsUserInConversation c v d then Inr (iu_blob_path resp)
           else unexpected kForbidden ''Not authorized to access this attachment''))"
proof -
  let ?d = "snd (InitUpload sq config r now u c n mime d)" and ?meta = "new_attachment config (uuid r) now u c n mime"
  note resp = InitUpload_Inr [OF assms(1)] and meta = InitUpload_meta [OF assms(1)]
  have m: "\<not> ar_upload_complete ?meta" "ar_blob_path ?meta = blob_path config (uuid r)" "ar_conversation_id ?meta = c"
    by (simp_all add: new_attachment_def)
  let ?fs = "fs\<lparr>fs_blobs := (fs_blobs fs)(blob_path config (uuid r) \<mapsto> concat chunks)\<rparr>"
  have w: "write_chunks (uuid r) 0 chunks (fs, ?d) = (Inr (), ?fs, ?d)"
    using write_chunks_result [OF meta m(1) _ assms(2), of fs] assms(3,4) resp(2) by (simp add: m blob_def)
  have ex: "fs_exists (ar_blob_path ?meta) ?fs" by (simp add: fs_exists_def m)
  obtain m2 where m2: "GetAttachmentMeta (uuid r) (snd (MarkUploadComplete (uuid r) hash ?d)) = Some m2"
    "ar_upload_complete m2" "ar_blob_path m2 = blob_path config (uuid r)" "ar_conversation_id m2 = c"
    using Finalize_meta(2) [OF meta m(1) ex, of hash] m by auto
  have "IsUserInConversation c v ?d = IsUserInConversation c v d"
    unfolding resp(7) by (simp add: CreateAttachmentMeta_def insert_attachment_def)
  then show ?thesis
    using m2 by (simp add: resp(1,2) w Finalize_meta(1,3) [OF meta m(1) ex] GetAttachment_def)
qed

theorem upload_roundtrip_witness:
  "\<exists>resp d1 fs2 d2. InitUpload rowid_order ServerConfig_Default (0, 0) 5 ''u1'' ''g'' 4 [] one_group = (Inr resp, d1) \<and>
     FinalizeUpload (iu_attachment_id resp) ''h''
       (snd (write_chunks (iu_attachment_id resp) 0 [''ab'', ''cd''] (\<lparr>fs_blobs = Map.empty, fs_writable = (\<lambda>_. True)\<rparr>, d1))) =
       (Inr (), fs2, d2) \<and>
     fs_blobs fs2 (iu_blob_path resp) = Some ''abcd'' \<and>
     GetAttachment (iu_attachment_id resp) ''u1'' d2 = Inr (iu_blob_path resp)"
proof -
  let ?init = "InitUpload rowid_order ServerConfig_Default (0, 0) 5 ''u1'' ''g'' 4 [] one_group"
  let ?fs = "\<lparr>fs_blobs = Map.empty, fs_writable = (\<lambda>_. True)\<rparr>"
  have g: "GetStorageUsedByUser ''u1'' one_group = 0" "IsUserInConversation ''g'' ''u1'' one_group"
    "attachment_metadata one_group = []" "''u1'' \<in> set (user_keys one_group)" "''g'' \<in> set (conversation_keys one_group)"
    by code_simp+
  have "max_upload_size_bytes ServerConfig_Default < 2 ^ 63" "max_storage_per_user_bytes ServerConfig_Default < 2 ^ 63"
    "4 \<le> int (max_upload_size_bytes ServerConfig_Default)" "4 \<le> int (max_storage_per_user_bytes ServerConfig_Default)"
    by (simp_all add: ServerConfig_Default_def)
  then obtain resp d1 where i: "?init = (Inr resp, d1)"
    using g by (auto simp: InitUpload_def size_to_i64_id in_i64_def CreateAttachmentMeta_def insert_attachment_def
        new_attachment_def Let_def)
  then have "fst ?init = Inr resp" by simp
  from upload_roundtrip [OF this, of "[''ab'', ''cd'']" ?fs "''u1''" "''h''"] show ?thesis
    using g(2) by (auto simp: i split: prod.splits simp del: write_chunks.simps)
qed

text \<open>
  C38: The size an upload announces, which the limits of \<open>InitUpload\<close> are about, does not bind it.
  While an attachment is not finalized, every chunk at every offset is accepted, and the blob
  grows with it: the announced size plays no part in the result.
\<close>

theorem WriteChunk_ignores_size:
  assumes "GetAttachmentMeta i d = Some meta" "\<not> ar_upload_complete meta" "fs_writable fs (ar_blob_path meta)"
    and "data \<noteq> []"
  shows "case WriteChunk i (int off) data (fs, d) of (r, fs', d') \<Rightarrow>
    r = Inr () \<and> d' = d \<and>
    length (blob fs' (ar_blob_path meta)) = max (off + length data) (length (blob fs (ar_blob_path meta)))"
  using assms(4) unfolding WriteChunk_result [OF assms(1-3)] by (auto simp: write_at_def)

theorem WriteChunk_ignores_size_witness:
  "length (blob (fst (snd (WriteChunk ''x'' (int 100) ''ab''
     (\<lparr>fs_blobs = Map.empty, fs_writable = (\<lambda>_. True)\<rparr>, photo_db)))) (blob_path ServerConfig_Default ''x'')) = 102 \<and>
   ar_file_size (row_to_attachment (photo ''x'' (Some 3))) = 9"
proof -
  let ?fs = "\<lparr>fs_blobs = Map.empty, fs_writable = (\<lambda>_. True)\<rparr>"
  have "GetAttachmentMeta ''x'' photo_db = Some (row_to_attachment (photo ''x'' (Some 3)))"
    by (simp add: GetAttachmentMeta_def photo_db_def photo_def)
  from WriteChunk_ignores_size [OF this, of ?fs "''ab''" 100] show ?thesis
    by (auto simp: photo_def blob_def split: prod.splits)
qed

end
