(* ===== verification/Waiting_Messages.thy ===== *)
theory Waiting_Messages
  imports Conversation_Service Admin_Service Attachment_Service
begin

text \<open>
  An invariant of the whole database that no single table expresses: an envelope waits in
  \<open>delivery_state\<close> only for users who are in its conversation. Operations that create conversations
  or add members can only extend the memberships (\<open>grows\<close>); a removal purges what waits for the
  removed user; a message is queued for the participants at the time of sending.
\<close>

definition waiting_ok :: "db \<Rightarrow> bool" where
  "waiting_ok d \<longleftrightarrow> (\<forall>s \<in> set (delivery_state d). \<forall>e \<in> set (encrypted_envelopes d).
     e_envelope_id e = ds_envelope_id s \<longrightarrow> IsUserInConversation (e_conversation_id e) (ds_target_user_id s) d)"

section \<open>Operations that only extend memberships\<close>

definition grows :: "db \<Rightarrow> db \<Rightarrow> bool" where
  "grows d d' \<longleftrightarrow> encrypted_envelopes d' = encrypted_envelopes d \<and> delivery_state d' = delivery_state d \<and>
     (\<forall>c u. IsUserInConversation c u d \<longrightarrow> IsUserInConversation c u d')"

lemma grows_refl [simp]: "grows d d"
  by (simp add: grows_def)

lemma grows_trans: "grows d1 d2 \<Longrightarrow> grows d2 d3 \<Longrightarrow> grows d1 d3"
  by (simp add: grows_def)

lemma grows_ok: "grows d d' \<Longrightarrow> waiting_ok d \<Longrightarrow> waiting_ok d'"
  by (simp add: grows_def waiting_ok_def)

lemma grows_and_then:
  "grows d (snd m) \<Longrightarrow> (\<And>y d'. grows d' (snd (k y d'))) \<Longrightarrow> grows d (snd (and_then m k))"
  by (auto simp: snd_and_then intro: grows_trans split: sum.split)

definition conv_type :: "ConversationId \<Rightarrow> db \<Rightarrow> ConversationType option" where
  "conv_type c d = map_option c_type (Conv_FindById c d)"

lemma in_conversation_iff:
  "IsUserInConversation c u d \<longleftrightarrow>
     conv_type c d = Some kChannel \<and> (\<exists>s \<in> set (channel_subscriptions d). active_subscription c u s) \<or>
     conv_type c d \<noteq> None \<and> conv_type c d \<noteq> Some kChannel \<and> (\<exists>m \<in> set (conversation_members d). active_member c u m)"
  by (auto simp: IsUserInConversation_def conv_type_def filter_empty_conv split: option.split)

lemma conv_type_same [simp]:
  "conv_type c (BumpMembershipVersion c' d) = conv_type c d"
  "conv_type c (d\<lparr>conversation_members := t\<rparr>) = conv_type c d" "conv_type c (d\<lparr>channel_subscriptions := ts\<rparr>) = conv_type c d"
  "conv_type c (d\<lparr>delivery_state := s\<rparr>) = conv_type c d" "conv_type c (d\<lparr>encrypted_envelopes := e\<rparr>) = conv_type c d"
  by (simp_all add: conv_type_def Conv_FindById_Bump option.map_comp comp_def if_distrib cong: if_cong)
     (simp_all add: Conv_FindById_def)

lemma in_conversation_Bump [simp]:
  "IsUserInConversation c u (BumpMembershipVersion c' d) = IsUserInConversation c u d"
  by (simp add: in_conversation_iff split: option.split)

lemma grows_Bump [simp]: "grows d (BumpMembershipVersion c d') \<longleftrightarrow> grows d d'"
  by (simp add: grows_def)

lemma first_row_append: "first_row (xs @ ys) = (case first_row xs of None \<Rightarrow> first_row ys | Some r \<Rightarrow> Some r)"
  by (cases xs) simp_all

lemma CreateConversation_grows: "grows d (snd (CreateConversation conv d))"
  by (auto simp: grows_def CreateConversation_def insert_conversation_def in_conversation_iff conv_type_def
      Conv_FindById_def first_row_append split: option.splits)

lemma sql_update_member:
  assumes "m \<in> set t" and "\<And>r. Q r \<Longrightarrow> P r \<Longrightarrow> Q (f r)" and "Q m"
  shows "\<exists>m' \<in> set (sql_update P f t). Q m'"
  using assms by (auto simp: sql_update_def image_iff)

lemma Conv_AddMember_grows: "grows d (snd (Conv_AddMember sq c u role now d))"
proof -
  have "\<exists>m \<in> set (sql_update (\<lambda>r. m_key r = (c, u)) (\<lambda>m. m\<lparr>m_removed_at := None, m_role := role, m_added_at := now\<rparr>)
      (conversation_members d)). active_member c' u' m"
    if "m \<in> set (conversation_members d)" "active_member c' u' m" for c' u' m
    using that(1) _ that(2) by (rule sql_update_member) (simp add: active_member_def m_key_def)
  then show ?thesis
    by (auto simp: Conv_AddMember_def upsert_member_def grows_def in_conversation_iff m_key_def split: option.splits)
qed

lemma Subscribe_grows: "grows d (snd (Subscribe sq c u now d))"
proof -
  have "\<exists>s \<in> set (sql_update (\<lambda>r. cs_key r = (c, u)) (\<lambda>s. s\<lparr>cs_unsubscribed_at := None, cs_subscribed_at := now\<rparr>)
      (channel_subscriptions d)). active_subscription c' u' s"
    if "s \<in> set (channel_subscriptions d)" "active_subscription c' u' s" for c' u' s
    using that(1) _ that(2) by (rule sql_update_member) (simp add: active_subscription_def cs_key_def)
  then show ?thesis
    by (auto simp: Subscribe_def upsert_subscription_def grows_def in_conversation_iff cs_key_def split: option.splits)
qed

lemmas repository_grows = CreateConversation_grows Conv_AddMember_grows Subscribe_grows

lemma member_loops_grow:
  "grows d (snd (add_group_members sq c u now uids d))" "grows d (snd (add_admins sq c u now uids d))"
  "grows d (snd (add_subscribers sq c admins now uids d))"
  by (induction uids arbitrary: d) (auto intro!: grows_and_then repository_grows)

lemma conversation_service_grows:
  "grows d (snd (CreateDm sq r now a b u d))" "grows d (snd (CreateGroup sq config r now u ids d))"
  "grows d (snd (CreateChannel sq config r now u ids ids' d))"
  "grows d (snd (AddMember sq config now c a u role d))" "grows d (snd (SubscribeChannel sq config now c u d))"
  unfolding CreateDm_def CreateGroup_def CreateChannel_def AddMember_def SubscribeChannel_def Let_def
  by (auto intro!: grows_and_then repository_grows member_loops_grow split: option.split)

section \<open>Operations on the rows\<close>

text \<open>Everything that \<open>waiting_ok\<close> reads, and operations that keep it or drop rows of it.\<close>

definition talk where
  "talk d = (conversations d, conversation_members d, channel_subscriptions d, encrypted_envelopes d, delivery_state d)"

lemma talk_grows: "talk d' = talk d \<Longrightarrow> grows d d'"
  by (simp add: talk_def grows_def in_conversation_iff conv_type_def Conv_FindById_def)

lemma waiting_subset:
  assumes "waiting_ok d" and "set (encrypted_envelopes d') \<subseteq> set (encrypted_envelopes d)"
    and "\<And>s. s \<in> set (delivery_state d') \<Longrightarrow> \<exists>s0 \<in> set (delivery_state d). ds_key s0 = ds_key s"
    and "\<And>c u. IsUserInConversation c u d' = IsUserInConversation c u d"
  shows "waiting_ok d'"
  unfolding waiting_ok_def
proof (intro ballI impI)
  fix s e
  assume s: "s \<in> set (delivery_state d')" and e: "e \<in> set (encrypted_envelopes d')" "e_envelope_id e = ds_envelope_id s"
  obtain s0 where s0: "s0 \<in> set (delivery_state d)" "ds_key s0 = ds_key s" using assms(3) [OF s] by blast
  then have "ds_envelope_id s0 = ds_envelope_id s" "ds_target_user_id s0 = ds_target_user_id s" by (simp_all add: ds_key_def)
  then show "IsUserInConversation (e_conversation_id e) (ds_target_user_id s) d'"
    using assms(1,2,4) e s0(1) unfolding waiting_ok_def by (metis subsetD)
qed

lemma Acknowledge_waiting: "waiting_ok d \<Longrightarrow> waiting_ok (snd (AcknowledgeEnvelope u v i now d))"
  by (erule waiting_subset)
    (auto simp: AcknowledgeEnvelope_def Acknowledge_def MarkAcked_def update_delivery_def Let_def sql_update_def ds_key_def
      in_conversation_iff split: if_splits option.splits)

text \<open>A removal of one user from one conversation, with the purge that follows.\<close>

lemma purge_waiting:
  assumes "waiting_ok d" and "encrypted_envelopes d1 = encrypted_envelopes d" "delivery_state d1 = delivery_state d"
    and "\<And>c' u'. IsUserInConversation c' u' d \<Longrightarrow> (c', u') \<noteq> (c, u) \<Longrightarrow> IsUserInConversation c' u' d1"
  shows "waiting_ok (snd (PurgeMemberDelivery sq c u (dm, d1)))"
proof -
  let ?d2 = "snd (PurgeMemberDelivery sq c u (dm, d1))"
  have "IsUserInConversation c' u' ?d2 = IsUserInConversation c' u' d1" for c' u'
    by (simp add: PurgeMemberDelivery_def Let_def DeletePendingDeliveryForUserInConversation_def in_conversation_iff
        split: option.split)
  moreover have "encrypted_envelopes ?d2 = encrypted_envelopes d"
    "delivery_state ?d2 = sql_delete (\<lambda>s. ds_target_user_id s = u \<and> ds_envelope_id s \<in> set (map e_envelope_id
       (filter (\<lambda>e. e_conversation_id e = c) (encrypted_envelopes d)))) (delivery_state d)"
    using assms(2,3) by (simp_all add: PurgeMemberDelivery_def Let_def DeletePendingDeliveryForUserInConversation_def)
  ultimately show ?thesis
    using assms(1,4) unfolding waiting_ok_def sql_delete_def by (fastforce simp: image_iff)
qed

lemma RemoveMember_waiting: "waiting_ok d \<Longrightarrow> waiting_ok (snd (snd (RemoveMember sq now c a u (dm, d))))"
proof -
  assume ok: "waiting_ok d"
  let ?d1 = "snd (Conv_RemoveMember c u now d)"
  have "IsUserInConversation c' u' d \<Longrightarrow> (c', u') \<noteq> (c, u) \<Longrightarrow> IsUserInConversation c' u' ?d1" for c' u'
    by (auto simp: in_conversation_iff Conv_RemoveMember_def Let_def active_member_def m_key_def sql_update_def image_iff
        split: option.splits if_splits)
  then have "waiting_ok (snd (PurgeMemberDelivery sq c u (dm, ?d1)))"
    by (intro purge_waiting [OF ok]) (simp_all add: Conv_RemoveMember_same)
  with ok show ?thesis
    by (simp add: RemoveMember_def case_Inr_pair [OF Conv_RemoveMember_Inr] split: option.split)
qed

lemma UnsubscribeChannel_waiting: "waiting_ok d \<Longrightarrow> waiting_ok (snd (snd (UnsubscribeChannel sq now c u (dm, d))))"
proof -
  assume ok: "waiting_ok d"
  let ?d1 = "snd (Unsubscribe c u now d)"
  have "IsUserInConversation c' u' d \<Longrightarrow> (c', u') \<noteq> (c, u) \<Longrightarrow> IsUserInConversation c' u' ?d1" for c' u'
    by (auto simp: in_conversation_iff Unsubscribe_def Let_def active_subscription_def cs_key_def sql_update_def image_iff
        split: option.splits if_splits)
  then have "waiting_ok (snd (PurgeMemberDelivery sq c u (dm, ?d1)))"
    by (intro purge_waiting [OF ok]) (simp_all add: Unsubscribe_def Let_def)
  with ok show ?thesis
    by (simp add: UnsubscribeChannel_def case_Inr_pair [OF Unsubscribe_Inr] split: option.split)
qed

section \<open>Sending, expiry and the deletion of users\<close>

lemma SendEnvelope_waiting:
  assumes "sqlite_ok sq" "db_ok d" "dm_ok dm" "plain_users d" and ok: "waiting_ok d"
  shows "waiting_ok (snd (snd (SendEnvelope sq config r now request (dm, d))))"
proof (cases "fst (SendEnvelope sq config r now request (dm, d))")
  case (Inl e)
  then show ?thesis using ok SendEnvelope_error [OF Inl] by simp
next
  case (Inr resp)
  let ?e = "sent_envelope config request (smr_envelope_id resp) now"
  obtain dm' devs where devs: "set devs = recipients request d"
    and run: "snd (SendEnvelope sq config r now request (dm, d)) =
       (dm', add_rows (map (offline_row (smr_envelope_id resp) now) (filter (\<lambda>v. \<not> has_room dm v) devs))
          (stored config request (smr_envelope_id resp) now d))"
    using SendEnvelope_fan_out [OF assms(1-4) Inr] by metis
  have new: "smr_envelope_id resp \<notin> set (envelope_keys d)" using SendEnvelope_Inr [OF Inr] by blast
  have conv: "IsUserInConversation c u (add_rows rows (stored config request i now d)) = IsUserInConversation c u d" for c u rows i
    by (simp add: add_rows_def stored_def in_conversation_iff)
  have "s \<in> set (delivery_state d) \<Longrightarrow> ds_envelope_id s \<in> set (envelope_keys d)" for s
    using db_ok_fks(12) [OF assms(2)] .
  then have old: "s \<in> set (delivery_state d) \<Longrightarrow> smr_envelope_id resp \<noteq> ds_envelope_id s" for s
    using new by metis
  have free: "e \<in> set (encrypted_envelopes d) \<Longrightarrow> e_envelope_id e \<noteq> smr_envelope_id resp" for e
    using new by (auto simp: image_iff)
  show ?thesis
    using ok devs
    by (auto simp: run waiting_ok_def conv sent_envelope_def offline_row_def recipients_def dest: old free)
qed

lemma DeleteUser_waiting:
  assumes "db_ok d" "waiting_ok d" and "\<And>r. r \<in> set (users d) \<Longrightarrow> CHR 0x27 \<notin> set (u_user_id r)"
  shows "waiting_ok (snd (DeleteUser sq raw u d))"
proof (cases "u \<in> set (user_keys d)")
  case True
  have "IsUserInConversation c u' (without_user u d) = IsUserInConversation c u' d" if "u' \<noteq> u" for c u'
    using that by (auto simp: in_conversation_iff without_user_def conv_type_def Conv_FindById_def active_member_def
        active_subscription_def m_key_def cs_key_def)
  then have "waiting_ok (without_user u d)"
    using assms(2) by (auto simp: waiting_ok_def) (auto simp: without_user_def)
  then show ?thesis
    using assms True DeleteUser_result [OF assms(1) True] by auto
next
  case False
  then show ?thesis using assms(2) User_FindById_None [of u d] by (simp add: DeleteUser_def)
qed

lemma maintenance_waiting:
  assumes "waiting_ok d" and "maintenance_purge sq now (fs, d) = Some (m, n, fs', d')"
  shows "waiting_ok d'"
  using assms(1)
proof (rule waiting_subset)
  show "set (encrypted_envelopes d') \<subseteq> set (encrypted_envelopes d)"
    "\<And>s. s \<in> set (delivery_state d') \<Longrightarrow> \<exists>s0 \<in> set (delivery_state d). ds_key s0 = ds_key s"
    "\<And>c u. IsUserInConversation c u d' = IsUserInConversation c u d"
    using assms(2)
    by (auto simp: maintenance_purge_def Env_DeleteExpired_def delete_envelopes_def Service_DeleteExpired_def
        Att_DeleteExpired_def Let_def sql_delete_def in_conversation_iff conv_type_def Conv_FindById_def split: option.splits if_splits)
qed

end
