(* ===== verification/Json.thy ===== *)
theory Json
  imports Vox_Types
begin

text \<open>
  The JSON values that the network layer reads and writes, and the accessors and error objects of
  \<open>lib/vox_net/http_dispatch.cpp\<close>. Parsing and serializing are Boost.JSON's: the two functions are
  a parameter. An object is the list of its members in the order of insertion, as Boost keeps it;
  a number with a fraction is kept as its text.
\<close>

section \<open>Values\<close>

datatype json =
    JNull | JBool bool | JInt int | JUInt nat | JDouble string | JString string
  | JArray "json list" | JObject "(string \<times> json) list"

type_synonym json_object = "(string \<times> json) list"

text \<open>
  \<open>boost::json::parse\<close>, with the text of its exception on the left, and \<open>boost::json::serialize\<close>.
\<close>

record json_lib =
  json_parse :: "string \<Rightarrow> string + json"
  json_serialize :: "json \<Rightarrow> string"

definition json_find :: "json_object \<Rightarrow> string \<Rightarrow> json option" where
  "json_find o' k = map_of o' k"

section \<open>Reading\<close>

text \<open>\<open>as_string().c_str()\<close> made a string: it ends at the first NUL.\<close>

definition c_str :: "string \<Rightarrow> string" where
  "c_str s = takeWhile (\<lambda>c. c \<noteq> CHR 0x00) s"

definition JsonString :: "json_object \<Rightarrow> string \<Rightarrow> string option" where
  "JsonString o' key = (case json_find o' key of Some (JString s) \<Rightarrow> Some (c_str s) | _ \<Rightarrow> None)"

definition JsonInt :: "json_object \<Rightarrow> string \<Rightarrow> int option" where
  "JsonInt o' key =
     (case json_find o' key of Some (JInt x) \<Rightarrow> Some x | Some (JUInt n) \<Rightarrow> Some (i64 (int n)) | _ \<Rightarrow> None)"

text \<open>\<open>value_or("")\<close>, and the loop that collects the strings of an array.\<close>

definition string_or :: "json_object \<Rightarrow> string \<Rightarrow> string \<Rightarrow> string" where
  "string_or o' key dflt = (case JsonString o' key of None \<Rightarrow> dflt | Some s \<Rightarrow> s)"

abbreviation field :: "json_object \<Rightarrow> string \<Rightarrow> string" where
  "field o' key \<equiv> string_or o' key []"

definition string_list :: "json_object \<Rightarrow> string \<Rightarrow> string list" where
  "string_list o' key =
     (case json_find o' key of
        Some (JArray vs) \<Rightarrow> List.map_filter (\<lambda>v. case v of JString s \<Rightarrow> Some (c_str s) | _ \<Rightarrow> None) vs
      | _ \<Rightarrow> [])"

definition ParseJsonBody :: "json_lib \<Rightarrow> string \<Rightarrow> json Result" where
  "ParseJsonBody js body =
     (case json_parse js body of Inl what \<Rightarrow> unexpected kInvalidArgument what | Inr v \<Rightarrow> Inr v)"

definition SerializeSyncWrapParams :: "json_lib \<Rightarrow> json_object \<Rightarrow> string" where
  "SerializeSyncWrapParams js o' =
     (case json_find o' ''sync_wrap_params'' of
        Some (JObject ms) \<Rightarrow> json_serialize js (JObject ms)
      | Some (JString s) \<Rightarrow> c_str s
      | _ \<Rightarrow> [])"

definition ParsePolicyBlob :: "json_lib \<Rightarrow> string \<Rightarrow> json_object" where
  "ParsePolicyBlob js policy_blob =
     (if policy_blob = [] then []
      else case json_parse js policy_blob of Inr (JObject ms) \<Rightarrow> ms | _ \<Rightarrow> [])"

section \<open>Writing\<close>

fun error_number :: "ErrorCode \<Rightarrow> int" where
  "error_number kOk = 0"
| "error_number kNotFound = 1"
| "error_number kAlreadyExists = 2"
| "error_number kUnauthorized = 3"
| "error_number kForbidden = 4"
| "error_number kInvalidArgument = 5"
| "error_number kInternal = 6"
| "error_number kQuotaExceeded = 7"
| "error_number kRateLimited = 8"
| "error_number kShutdown = 9"
| "error_number kQueueFull = 10"
| "error_number kExpired = 11"
| "error_number kDuplicate = 12"
| "error_number kPayloadTooLarge = 13"

fun type_number :: "ConversationType \<Rightarrow> int" where
  "type_number kDm = 0"
| "type_number kGroup = 1"
| "type_number kChannel = 2"

definition ErrObj :: "Error \<Rightarrow> json" where
  "ErrObj e = JObject [(''error'', JObject [(''code'', JInt (error_number (err_code e))),
     (''message'', JString (err_message e))])]"

text \<open>An empty object, and the values of an optional field.\<close>

abbreviation empty_object :: json where
  "empty_object \<equiv> JObject []"

definition json_or_null :: "('a \<Rightarrow> json) \<Rightarrow> 'a option \<Rightarrow> json" where
  "json_or_null f x = (case x of None \<Rightarrow> JNull | Some y \<Rightarrow> f y)"

definition json_if :: "string \<Rightarrow> ('a \<Rightarrow> json) \<Rightarrow> 'a option \<Rightarrow> json_object" where
  "json_if key f x = (case x of None \<Rightarrow> [] | Some y \<Rightarrow> [(key, f y)])"

section \<open>Examples\<close>

text \<open>A library for concrete requests: every text reads as one given value.\<close>

definition fixed_json :: "json \<Rightarrow> json_lib" where
  "fixed_json v = \<lparr>json_parse = (\<lambda>_. Inr v), json_serialize = (\<lambda>_. ''{}'')\<rparr>"

end
