(* ===== verification/Http_Messages.thy ===== *)
theory Http_Messages
  imports Json
begin

text \<open>
  The requests and responses of \<open>lib/vox_net/http_dispatch.hpp\<close> and the functions of
  \<open>http_dispatch.cpp\<close> and \<open>http_session.cpp\<close> that build responses and read a request. Of a message
  of Boost.Beast this keeps the method, the target, the fields and the body, and of a response the
  status, the content type and the body; the version of the request is copied into the response and
  is left out. The body of a file response is the content of the file that was opened.
\<close>

section \<open>Messages\<close>

datatype http_verb = verb_post | verb_get | verb_put | verb_delete | verb_other

record HttpRequest =
  rq_method :: http_verb
  rq_target :: string
  rq_fields :: "(string \<times> string) list"
  rq_body :: string

datatype HttpResponse =
    StringResponse (res_status: nat) (res_content_type: "string option") (res_body: string)
  | FileResponse (res_status: nat) (res_content: string)

text \<open>\<open>basic_fields::find\<close>: names are compared without case, the first field with the name counts.\<close>

definition find_field :: "HttpRequest \<Rightarrow> string \<Rightarrow> string option" where
  "find_field req name = map_of (map (\<lambda>(n, v). (nocase n, v)) (rq_fields req)) (nocase name)"

section \<open>Responses\<close>

definition JsonRes :: "json_lib \<Rightarrow> nat \<Rightarrow> json \<Rightarrow> HttpResponse" where
  "JsonRes js status v = StringResponse status (Some ''application/json'') (json_serialize js v)"

definition ErrRes :: "json_lib \<Rightarrow> nat \<Rightarrow> Error \<Rightarrow> HttpResponse" where
  "ErrRes js st e = JsonRes js st (ErrObj e)"

definition NotFoundRes :: HttpResponse where
  "NotFoundRes = StringResponse 404 None []"

definition InternalServerErrorResponse :: "json_lib \<Rightarrow> string \<Rightarrow> HttpResponse" where
  "InternalServerErrorResponse js message = ErrRes js 500 \<lparr>err_code = kInternal, err_message = message\<rparr>"

text \<open>
  \<open>if (!result) return ErrRes(ver, HttpStatusForError(result.error().code), result.error())\<close>, and
  the errors that a handler makes up itself.
\<close>

definition error_response :: "json_lib \<Rightarrow> Error \<Rightarrow> HttpResponse" where
  "error_response js e = ErrRes js (HttpStatusForError (err_code e)) e"

definition own_error :: "json_lib \<Rightarrow> ErrorCode \<Rightarrow> string \<Rightarrow> HttpResponse" where
  "own_error js c m = error_response js \<lparr>err_code = c, err_message = m\<rparr>"

lemma res_status_simps [simp]:
  "res_status (JsonRes js st v) = st" "res_status (ErrRes js st e) = st" "res_status NotFoundRes = 404"
  "res_status (InternalServerErrorResponse js m) = 500"
  "res_status (error_response js e) = HttpStatusForError (err_code e)"
  "res_status (own_error js c m) = HttpStatusForError c"
  by (simp_all add: JsonRes_def ErrRes_def NotFoundRes_def InternalServerErrorResponse_def error_response_def own_error_def)

lemma HttpStatusForError_error: "HttpStatusForError c \<ge> 400"
  by (cases c) simp_all

section \<open>Requests\<close>

text \<open>The lambda \<open>parse_body\<close> of \<open>DispatchHttp\<close>: the response on the left, the object on the right.\<close>

definition parse_body :: "json_lib \<Rightarrow> HttpRequest \<Rightarrow> HttpResponse + json_object" where
  "parse_body js req =
     (case ParseJsonBody js (rq_body req) of
        Inl pe \<Rightarrow> Inl (error_response js pe)
      | Inr (JObject ms) \<Rightarrow> Inr ms
      | Inr _ \<Rightarrow> Inl (own_error js kInvalidArgument ''JSON object expected''))"

definition ParseBearer :: "HttpRequest \<Rightarrow> string option" where
  "ParseBearer req =
     (case find_field req ''Authorization'' of
        None \<Rightarrow> None
      | Some v \<Rightarrow> if length v > length ''Bearer '' \<and> prefix ''Bearer '' v then Some (drop (length ''Bearer '') v)
                  else None)"

definition IsWsPath :: "string \<Rightarrow> bool" where
  "IsWsPath path_only \<longleftrightarrow> path_only = ''/v1/ws''"

end
