(* ===== verification/Http_Paths.thy ===== *)
theory Http_Paths
  imports Vox_Types
begin

text \<open>
  The parts of \<open>lib/vox_net/http_dispatch.cpp\<close> that take a request target apart: the path and the
  query, the values of a query, and the ids in the paths of the routes. The lemmas are the round trips
  with the targets a client writes.
\<close>

section \<open>The query\<close>

definition PathOnly :: "string \<Rightarrow> string" where
  "PathOnly target = (case split_at_char (CHR ''?'') target of None \<Rightarrow> target | Some (path, _) \<Rightarrow> path)"

definition query_of :: "string \<Rightarrow> string option" where
  "query_of target = map_option snd (split_at_char (CHR ''?'') target)"

text \<open>
  The loop over the pairs of a query. A pair ends at an ampersand; the loop ends with the pair that
  has none after it, or when nothing is left.
\<close>

function query_pairs :: "string \<Rightarrow> string list" where
  "query_pairs query =
     (if query = [] then []
      else case split_at_char (CHR ''&'') query of
        None \<Rightarrow> [query]
      | Some (pair, rest) \<Rightarrow> pair # query_pairs rest)"
  by pat_completeness auto
termination by (relation "measure length") (auto dest: split_at_char_length)

declare query_pairs.simps [simp del]

fun find_param :: "string \<Rightarrow> string list \<Rightarrow> string option" where
  "find_param key [] = None"
| "find_param key (pair # pairs) =
     (case split_at_char (CHR ''='') pair of
        None \<Rightarrow> find_param key pairs
      | Some (k, v) \<Rightarrow> if k = key then Some v else find_param key pairs)"

definition QueryParam :: "string \<Rightarrow> string \<Rightarrow> string option" where
  "QueryParam target key =
     (case query_of target of None \<Rightarrow> None | Some query \<Rightarrow> find_param key (query_pairs query))"

definition trim_blanks :: "string \<Rightarrow> string" where
  "trim_blanks piece = rev (dropWhile (\<lambda>c. c = CHR '' '') (rev (dropWhile (\<lambda>c. c = CHR '' '') piece)))"

definition id_piece :: "string \<Rightarrow> string list" where
  "id_piece piece = (let p = trim_blanks piece in if p = [] then [] else [p])"

function AppendCommaSeparatedIds :: "string \<Rightarrow> string list \<Rightarrow> string list" where
  "AppendCommaSeparatedIds v out =
     (if v = [] then out
      else case split_at_char (CHR '','') v of
        None \<Rightarrow> out @ id_piece v
      | Some (piece, rest) \<Rightarrow> AppendCommaSeparatedIds rest (out @ id_piece piece))"
  by pat_completeness auto
termination by (relation "measure (length \<circ> fst)") (auto dest: split_at_char_length)

declare AppendCommaSeparatedIds.simps [simp del]

fun collect_ids :: "string list \<Rightarrow> string list \<Rightarrow> string list" where
  "collect_ids [] ids = ids"
| "collect_ids (pair # pairs) ids =
     (case split_at_char (CHR ''='') pair of
        None \<Rightarrow> collect_ids pairs ids
      | Some (k, v) \<Rightarrow> collect_ids pairs (if k = ''ids'' then AppendCommaSeparatedIds v ids else ids))"

definition ParseIdsQuery :: "string \<Rightarrow> string list" where
  "ParseIdsQuery target =
     (case query_of target of None \<Rightarrow> [] | Some query \<Rightarrow> collect_ids (query_pairs query) [])"

section \<open>The paths of the routes\<close>

definition SplitPrefixedPath :: "string \<Rightarrow> string \<Rightarrow> (string \<times> string) option" where
  "SplitPrefixedPath path pre =
     (if prefix pre path then split_at_char (CHR ''/'') (drop (length pre) path) else None)"

definition SplitConvSubPath :: "string \<Rightarrow> (string \<times> string) option" where
  "SplitConvSubPath path = SplitPrefixedPath path ''/v1/conversations/''"

definition SplitDeviceSubPath :: "string \<Rightarrow> string \<Rightarrow> string option" where
  "SplitDeviceSubPath path suf =
     (case SplitPrefixedPath path ''/v1/devices/'' of
        None \<Rightarrow> None
      | Some (device_id, rest) \<Rightarrow> if rest \<noteq> suf then None else Some device_id)"

definition SplitUserDeviceSubPath :: "string \<Rightarrow> string \<Rightarrow> (string \<times> string) option" where
  "SplitUserDeviceSubPath path suf =
     (if \<not> prefix ''/v1/users/'' path then None
      else case split_at_text ''/devices/'' (drop (length ''/v1/users/'') path) of
        None \<Rightarrow> None
      | Some (uid, after_mid) \<Rightarrow>
          (case split_at_char (CHR ''/'') after_mid of
             None \<Rightarrow> None
           | Some (did, rest) \<Rightarrow> if rest \<noteq> suf then None else Some (uid, did)))"

definition ConversationIdOnly :: "string \<Rightarrow> string option" where
  "ConversationIdOnly path =
     (if \<not> prefix ''/v1/conversations/'' path then None
      else let rest = drop (length ''/v1/conversations/'') path
           in if rest = [] \<or> CHR ''/'' \<in> set rest then None else Some rest)"

definition SplitSyncRecordPath :: "string \<Rightarrow> (string \<times> string) option" where
  "SplitSyncRecordPath path =
     (if \<not> prefix ''/v1/sync/records/'' path then None
      else split_at_char (CHR ''/'') (drop (length ''/v1/sync/records/'') path))"

definition SplitAttachmentSubPath :: "string \<Rightarrow> string option" where
  "SplitAttachmentSubPath path =
     (if \<not> prefix ''/v1/attachments/'' path then None
      else let rest = drop (length ''/v1/attachments/'') path
           in if rest = [] then None
              else (case split_at_char (CHR ''/'') rest of None \<Rightarrow> Some rest | Some (i, _) \<Rightarrow> Some i))"

section \<open>What a client writes\<close>

text \<open>A target with parameters, each with a name and a value.\<close>

definition param_text :: "string \<times> string \<Rightarrow> string" where
  "param_text p = fst p @ CHR ''='' # snd p"

fun join :: "char \<Rightarrow> string list \<Rightarrow> string" where
  "join c [] = []"
| "join c [s] = s"
| "join c (s # ss) = s @ c # join c ss"

definition target_text :: "string \<Rightarrow> (string \<times> string) list \<Rightarrow> string" where
  "target_text path params = path @ CHR ''?'' # join (CHR ''&'') (map param_text params)"

definition plain_param :: "string \<times> string \<Rightarrow> bool" where
  "plain_param p \<longleftrightarrow> CHR ''='' \<notin> set (fst p) \<and> CHR ''&'' \<notin> set (fst p) \<and> CHR ''&'' \<notin> set (snd p)"

lemma query_pairs_join:
  "(\<forall>s \<in> set ss. s \<noteq> [] \<and> CHR ''&'' \<notin> set s) \<Longrightarrow> query_pairs (join (CHR ''&'') ss) = ss"
proof (induction "CHR ''&''" ss rule: join.induct)
  case 1
  then show ?case by (simp add: query_pairs.simps)
next
  case (2 s)
  then show ?case by (subst query_pairs.simps) (simp add: split_at_char_absent)
next
  case (3 s t ss)
  then show ?case by (subst query_pairs.simps) simp
qed

lemma find_param_text: "\<forall>p \<in> set params. plain_param p \<Longrightarrow> find_param k (map param_text params) = map_of params k"
  by (induction params) (auto simp: param_text_def plain_param_def)

lemma query_of_target: "CHR ''?'' \<notin> set path \<Longrightarrow> query_of (target_text path params) = Some (join (CHR ''&'') (map param_text params))"
  by (simp add: query_of_def target_text_def)

lemma pairs_of_target:
  assumes "\<forall>p \<in> set params. plain_param p"
  shows "query_pairs (join (CHR ''&'') (map param_text params)) = map param_text params"
  using assms by (intro query_pairs_join) (auto simp: param_text_def plain_param_def)

definition plain_id :: "string \<Rightarrow> bool" where
  "plain_id s \<longleftrightarrow> s \<noteq> [] \<and> hd s \<noteq> CHR '' '' \<and> last s \<noteq> CHR '' '' \<and> CHR '','' \<notin> set s \<and> CHR ''&'' \<notin> set s"

lemma id_piece_plain:
  assumes "plain_id s"
  shows "id_piece s = [s]"
proof -
  have "dropWhile (\<lambda>c. c = CHR '' '') s = s" "dropWhile (\<lambda>c. c = CHR '' '') (rev s) = rev s" "s \<noteq> []"
    using assms by (simp_all add: plain_id_def dropWhile_eq_self_iff hd_rev)
  then show ?thesis by (simp add: id_piece_def trim_blanks_def Let_def)
qed

lemma AppendCommaSeparatedIds_join:
  "\<forall>s \<in> set ss. plain_id s \<Longrightarrow> AppendCommaSeparatedIds (join (CHR '','') ss) out = out @ ss"
proof (induction "CHR '',''" ss arbitrary: out rule: join.induct)
  case 1
  then show ?case by (simp add: AppendCommaSeparatedIds.simps)
next
  case (2 s)
  then have "CHR '','' \<notin> set s" "s \<noteq> []" by (simp_all add: plain_id_def)
  with 2 show ?case
    by (subst AppendCommaSeparatedIds.simps) (simp add: id_piece_plain split_at_char_absent)
next
  case (3 s t ss)
  then have "CHR '','' \<notin> set s" by (simp add: plain_id_def)
  with 3 show ?case by (subst AppendCommaSeparatedIds.simps) (simp add: id_piece_plain)
qed

text \<open>
  C27: What a client writes into a target is what the server reads: the path, the value of every
  parameter (the first, when a name occurs twice), and the ids of a list separated by commas. The
  names have no equals sign and nothing has an ampersand; an id has no comma and does not begin or
  end with a blank.
\<close>

theorem target_roundtrip:
  assumes "CHR ''?'' \<notin> set path" and "\<forall>p \<in> set params. plain_param p" and "\<forall>s \<in> set ids. plain_id s"
  shows "PathOnly (target_text path params) = path \<and>
    QueryParam (target_text path params) key = map_of params key \<and>
    ParseIdsQuery (target_text path [(''ids'', join (CHR '','') ids)]) = ids"
proof -
  have "CHR ''&'' \<notin> set (join (CHR '','') ids)"
    using assms(3) by (induction "CHR '',''" ids rule: join.induct) (auto simp: plain_id_def)
  then have p: "\<forall>p \<in> set [(''ids'', join (CHR '','') ids)]. plain_param p" by (simp add: plain_param_def)
  have "query_pairs (join (CHR ''&'') (map param_text [(''ids'', join (CHR '','') ids)])) =
      [param_text (''ids'', join (CHR '','') ids)]"
    using pairs_of_target [OF p] by simp
  moreover have "split_at_char (CHR ''='') (param_text (''ids'', v)) = Some (''ids'', v)" for v
    by (simp add: param_text_def)
  ultimately have "ParseIdsQuery (target_text path [(''ids'', join (CHR '','') ids)]) = ids"
    using assms(1,3) by (simp add: ParseIdsQuery_def query_of_target AppendCommaSeparatedIds_join del: join.simps)
  moreover have "PathOnly (target_text path params) = path"
    using assms(1) by (simp add: PathOnly_def target_text_def)
  ultimately show ?thesis
    using assms by (simp add: QueryParam_def query_of_target pairs_of_target find_param_text)
qed

theorem target_roundtrip_witness:
  "PathOnly ''/v1/users?limit=5&q=al'' = ''/v1/users'' \<and> QueryParam ''/v1/users?limit=5&q=al'' ''q'' = Some ''al'' \<and>
   ParseIdsQuery ''/v1/users?ids=u1,u2'' = [''u1'', ''u2'']"
proof -
  have "target_text ''/v1/users'' [(''limit'', ''5''), (''q'', ''al'')] = ''/v1/users?limit=5&q=al''"
    "target_text ''/v1/users'' [(''ids'', join (CHR '','') [''u1'', ''u2''])] = ''/v1/users?ids=u1,u2''"
    by code_simp+
  with target_roundtrip [of "''/v1/users''" "[(''limit'', ''5''), (''q'', ''al'')]" "[''u1'', ''u2'']" "''q''"] show ?thesis
    by (simp add: plain_param_def plain_id_def)
qed

end
