(* ===== verification/Token_Manager.thy ===== *)
theory Token_Manager
  imports Session_Repository Sha256
begin

text \<open>
  \<open>TokenManager\<close> (\<open>lib/vox_auth/token_manager.cpp\<close>): access and refresh tokens of 256
  random bits, stored as HMAC-SHA-256 under the server's pepper. The random draws of a call are
  arguments. The theorems show that an issued pair is valid, that refreshing rotates the
  session, and that revocation takes effect on every token of the user or device.
\<close>

section \<open>Operations\<close>

record TokenPair =
  tp_access_token :: string
  tp_refresh_token :: string

record RefreshResult =
  rr_tokens :: TokenPair
  rr_user_id :: UserId

record TokenManager =
  access_lifetime_seconds :: Timestamp
  refresh_lifetime_seconds :: Timestamp
  session_token_pepper :: string

record token_draws =
  draw_access :: token_draw
  draw_refresh :: token_draw
  draw_session :: uuid_draw

definition HashToken :: "TokenManager \<Rightarrow> string \<Rightarrow> string" where
  "HashToken tm token = HmacSha256Hex (session_token_pepper tm) token"

definition new_session ::
    "TokenManager \<Rightarrow> token_draws \<Rightarrow> UserId \<Rightarrow> DeviceId \<Rightarrow> Timestamp \<Rightarrow> SessionRecord" where
  "new_session tm r user_id device_id now =
     \<lparr>s_session_id = uuid (draw_session r), s_user_id = user_id, s_device_id = device_id,
      s_access_token_hash = HashToken tm (GenerateToken (draw_access r)),
      s_refresh_token_hash = HashToken tm (GenerateToken (draw_refresh r)),
      s_access_expires_at = i64 (now + access_lifetime_seconds tm),
      s_refresh_expires_at = i64 (now + refresh_lifetime_seconds tm),
      s_created_at = now, s_revoked_at = None\<rparr>"

definition IssueTokens ::
    "TokenManager \<Rightarrow> sqlite \<Rightarrow> token_draws \<Rightarrow> UserId \<Rightarrow> DeviceId \<Rightarrow> Timestamp \<Rightarrow> db \<Rightarrow>
     TokenPair Result \<times> db" where
  "IssueTokens tm sq r user_id device_id now d =
     and_then (CreateSession sq (new_session tm r user_id device_id now) d) (\<lambda>_ d'.
       (Inr \<lparr>tp_access_token = GenerateToken (draw_access r),
             tp_refresh_token = GenerateToken (draw_refresh r)\<rparr>, d'))"

definition ValidateAccessToken ::
    "TokenManager \<Rightarrow> string \<Rightarrow> Timestamp \<Rightarrow> db \<Rightarrow> SessionRecord Result" where
  "ValidateAccessToken tm access_token now d =
     (case FindByAccessToken (HashToken tm access_token) d of
        None \<Rightarrow> unexpected kUnauthorized ''Invalid access token''
      | Some session \<Rightarrow>
          if s_access_expires_at session \<le> now then unexpected kExpired ''Access token expired''
          else Inr session)"

definition RefreshTokens ::
    "TokenManager \<Rightarrow> sqlite \<Rightarrow> token_draws \<Rightarrow> string \<Rightarrow> DeviceId \<Rightarrow> Timestamp \<Rightarrow> db \<Rightarrow>
     RefreshResult Result \<times> db" where
  "RefreshTokens tm sq r refresh_token device_id now d =
     (case FindByRefreshToken (HashToken tm refresh_token) d of
        None \<Rightarrow> (unexpected kUnauthorized ''Invalid refresh token'', d)
      | Some session \<Rightarrow>
          if s_refresh_expires_at session \<le> now
          then (unexpected kExpired ''Refresh token expired'', d)
          else if s_device_id session \<noteq> device_id
          then (unexpected kForbidden ''Device mismatch on refresh'', d)
          else and_then (Session_RevokeSession (s_session_id session) now d) (\<lambda>_ d1.
               and_then (IssueTokens tm sq r (s_user_id session) device_id now d1) (\<lambda>pair d2.
                 (Inr \<lparr>rr_tokens = pair, rr_user_id = s_user_id session\<rparr>, d2))))"

definition Token_RevokeSession :: "string \<Rightarrow> Timestamp \<Rightarrow> db \<Rightarrow> VoidResult \<times> db" where
  "Token_RevokeSession session_id now d = Session_RevokeSession session_id now d"

definition RevokeByAccessToken ::
    "TokenManager \<Rightarrow> string \<Rightarrow> Timestamp \<Rightarrow> db \<Rightarrow> VoidResult \<times> db" where
  "RevokeByAccessToken tm access_token now d =
     (case ValidateAccessToken tm access_token now d of
        Inl e \<Rightarrow> (Inl e, d)
      | Inr session \<Rightarrow> Token_RevokeSession (s_session_id session) now d)"

definition Token_RevokeAllForUser :: "UserId \<Rightarrow> Timestamp \<Rightarrow> db \<Rightarrow> VoidResult \<times> db" where
  "Token_RevokeAllForUser user_id now d = Session_RevokeAllForUser user_id now d"

definition Token_RevokeAllForDevice ::
    "UserId \<Rightarrow> DeviceId \<Rightarrow> Timestamp \<Rightarrow> db \<Rightarrow> VoidResult \<times> db" where
  "Token_RevokeAllForDevice user_id device_id now d =
     Session_RevokeAllForDevice user_id device_id now d"

lemma new_session_sel [simp]:
  "s_user_id (new_session tm r u v now) = u" "s_device_id (new_session tm r u v now) = v"
  "s_access_token_hash (new_session tm r u v now) = HashToken tm (GenerateToken (draw_access r))"
  "s_refresh_token_hash (new_session tm r u v now) = HashToken tm (GenerateToken (draw_refresh r))"
  "s_access_expires_at (new_session tm r u v now) = i64 (now + access_lifetime_seconds tm)"
  "s_refresh_expires_at (new_session tm r u v now) = i64 (now + refresh_lifetime_seconds tm)"
  "s_revoked_at (new_session tm r u v now) = None"
  "(new_session tm r u v now)\<lparr>s_revoked_at := None\<rparr> = new_session tm r u v now"
  "s_dev (new_session tm r u v now) = (u, v)"
  by (simp_all add: new_session_def s_dev_def)

section \<open>Constraints kept\<close>

lemma snd_IssueTokens:
  "snd (IssueTokens tm sq r u v now d) = snd (CreateSession sq (new_session tm r u v now) d)"
  by (simp add: IssueTokens_def snd_and_then split: sum.split)

lemma IssueTokens_Inr:
  "fst (IssueTokens tm sq r u v now d) = Inr p \<longleftrightarrow>
     fst (CreateSession sq (new_session tm r u v now) d) = Inr () \<and>
     p = \<lparr>tp_access_token = GenerateToken (draw_access r),
          tp_refresh_token = GenerateToken (draw_refresh r)\<rparr>"
  by (auto simp: IssueTokens_def fst_and_then_Inr)

lemma IssueTokens_keeps [keeps]: "db_ok d \<Longrightarrow> db_ok (snd (IssueTokens tm sq r u v now d))"
  by (simp add: snd_IssueTokens CreateSession_keeps)

lemma RefreshTokens_keeps [keeps]: "db_ok d \<Longrightarrow> db_ok (snd (RefreshTokens tm sq r t v now d))"
  by (simp add: RefreshTokens_def keeps db_ok_and_then split: option.split)

lemma Token_Revoke_keeps [keeps]:
  "db_ok d \<Longrightarrow> db_ok (snd (RevokeByAccessToken tm t now d))"
  "db_ok d \<Longrightarrow> db_ok (snd (Token_RevokeAllForUser u now d))"
  "db_ok d \<Longrightarrow> db_ok (snd (Token_RevokeAllForDevice u v now d))"
  by (simp_all add: RevokeByAccessToken_def Token_RevokeSession_def Token_RevokeAllForUser_def
      Token_RevokeAllForDevice_def keeps split: sum.split)

section \<open>Issuing\<close>

lemma ValidateAccessToken_Inr:
  "ValidateAccessToken tm t now d = Inr s \<longleftrightarrow>
     FindByAccessToken (HashToken tm t) d = Some s \<and> now < s_access_expires_at s"
  by (auto simp: ValidateAccessToken_def split: option.split)

text \<open>
  C29: An issued access token authenticates its user and device until it expires, at the
  moment \<open>now + access_lifetime_seconds\<close> and not before, and \<open>IssueTokens\<close> changes the
  answer for no access token that hashes differently.
\<close>

theorem IssueTokens_valid:
  assumes "db_ok d" and "fst (IssueTokens tm sq r u v now d) = Inr p"
    and "in_i64 (now + access_lifetime_seconds tm)"
  shows "ValidateAccessToken tm (tp_access_token p) t (snd (IssueTokens tm sq r u v now d)) =
      (if t < now + access_lifetime_seconds tm then Inr (new_session tm r u v now)
       else unexpected kExpired ''Access token expired'') \<and>
    (\<forall>tok. HashToken tm tok \<noteq> HashToken tm (tp_access_token p) \<longrightarrow>
       ValidateAccessToken tm tok t (snd (IssueTokens tm sq r u v now d)) =
         ValidateAccessToken tm tok t d)"
proof -
  have ok: "fst (CreateSession sq (new_session tm r u v now) d) = Inr ()"
    and p: "tp_access_token p = GenerateToken (draw_access r)"
    using assms(2) by (simp_all add: IssueTokens_Inr)
  show ?thesis
    using assms(3)
    by (auto simp: ValidateAccessToken_def snd_IssueTokens Find_CreateSession [OF ok] p)
qed

definition sample_tm :: TokenManager where
  "sample_tm = \<lparr>access_lifetime_seconds = 3600, refresh_lifetime_seconds = 86400,
     session_token_pepper = ''pepper''\<rparr>"

definition sample_draws :: token_draws where
  "sample_draws = \<lparr>draw_access = (1, 2, 3, 4), draw_refresh = (5, 6, 7, 8), draw_session = (9, 10)\<rparr>"

lemma sample_issue:
  "fst (IssueTokens sample_tm rowid_order sample_draws ''u1'' ''p'' 100 one_phone) =
     Inr \<lparr>tp_access_token = GenerateToken (1, 2, 3, 4), tp_refresh_token = GenerateToken (5, 6, 7, 8)\<rparr>"
proof -
  have "sessions one_phone = []" "map u_user_id (users one_phone) = [''u1'', ''u2'']"
    "device_keys one_phone = [(''u1'', ''p'')]"
    by code_simp+
  then show ?thesis
    by (simp add: IssueTokens_Inr CreateSession_ok_iff insert_session_def sample_draws_def
        del: set_map)
qed

theorem IssueTokens_valid_witness:
  "ValidateAccessToken sample_tm (GenerateToken (1, 2, 3, 4)) 3000
     (snd (IssueTokens sample_tm rowid_order sample_draws ''u1'' ''p'' 100 one_phone)) =
   Inr (new_session sample_tm sample_draws ''u1'' ''p'' 100)"
  using IssueTokens_valid [OF one_phone_ok sample_issue, of 3000]
  by (simp add: sample_tm_def in_i64_def)

section \<open>Rotation\<close>

lemma unknown_tokens:
  "FindByRefreshToken (HashToken tm t) d = None \<Longrightarrow>
     RefreshTokens tm sq r t v now d = (unexpected kUnauthorized ''Invalid refresh token'', d)"
  "FindByAccessToken (HashToken tm t) d = None \<Longrightarrow>
     ValidateAccessToken tm t now d = unexpected kUnauthorized ''Invalid access token''"
  by (simp_all add: RefreshTokens_def ValidateAccessToken_def)

lemma revoke_found:
  assumes "db_ok d" and "FindByRefreshToken h d = Some s"
  shows "Session_RevokeSession (s_session_id s) now d =
    (Inr (), revoke_where (\<lambda>x. s_session_id x = s_session_id s) now d)"
  using assms(2) unfolding FindByRefreshToken_iff [OF assms(1)]
  by (auto simp: Session_RevokeSession_def sql_simps)

lemma RefreshTokens_unfold:
  fixes r :: token_draws
  assumes ok:
    "db_ok d" and s: "FindByRefreshToken (HashToken tm t) d = Some s"
    and "now < s_refresh_expires_at s" and "s_device_id s = v"
  defines "n \<equiv> new_session tm r (s_user_id s) v now"
    and "d1 \<equiv> snd (Session_RevokeSession (s_session_id s) now d)"
  shows "snd (RefreshTokens tm sq r t v now d) = snd (CreateSession sq n d1)"
    and "fst (RefreshTokens tm sq r t v now d) =
      (case fst (CreateSession sq n d1) of
         Inl e \<Rightarrow> Inl e
       | Inr _ \<Rightarrow> Inr \<lparr>rr_tokens = \<lparr>tp_access_token = GenerateToken (draw_access r),
            tp_refresh_token = GenerateToken (draw_refresh r)\<rparr>, rr_user_id = s_user_id s\<rparr>)"
proof -
  obtain rc dc where c: "CreateSession sq n d1 = (rc, dc)" by (rule prod.exhaust)
  have "RefreshTokens tm sq r t v now d = (case rc of Inl e \<Rightarrow> (Inl e, dc)
      | Inr _ \<Rightarrow> (Inr \<lparr>rr_tokens = \<lparr>tp_access_token = GenerateToken (draw_access r),
            tp_refresh_token = GenerateToken (draw_refresh r)\<rparr>, rr_user_id = s_user_id s\<rparr>, dc))"
    using assms(2-4) c revoke_found [OF ok s, of now]
    by (cases rc) (simp_all add: RefreshTokens_def IssueTokens_def d1_def n_def)
  then show "snd (RefreshTokens tm sq r t v now d) = snd (CreateSession sq n d1)"
    "fst (RefreshTokens tm sq r t v now d) =
      (case fst (CreateSession sq n d1) of
         Inl e \<Rightarrow> Inl e
       | Inr _ \<Rightarrow> Inr \<lparr>rr_tokens = \<lparr>tp_access_token = GenerateToken (draw_access r),
            tp_refresh_token = GenerateToken (draw_refresh r)\<rparr>, rr_user_id = s_user_id s\<rparr>)"
    using c by (simp_all split: sum.split)
qed

text \<open>After a refresh that passed the checks, whether or not the new session was stored.\<close>

definition old_session_dead :: "TokenManager \<Rightarrow> string \<Rightarrow> SessionRecord \<Rightarrow> db \<Rightarrow> bool" where
  "old_session_dead tm t s d \<longleftrightarrow>
     FindByRefreshToken (HashToken tm t) d = None \<and> FindByAccessToken (s_access_token_hash s) d = None"

definition other_sessions_kept :: "SessionRecord \<Rightarrow> db \<Rightarrow> db \<Rightarrow> bool" where
  "other_sessions_kept s d d' \<longleftrightarrow>
     (\<forall>x \<in> set (sessions d). s_session_id x \<noteq> s_session_id s \<longrightarrow> x \<in> set (sessions d'))"

lemma others_revoke: "other_sessions_kept s d (revoke_where (\<lambda>x. s_session_id x = s_session_id s) now d)"
  by (auto simp: other_sessions_kept_def revoke_where_def set_sql_update)

lemma CreateSession_fails:
  assumes "fst (CreateSession sq n d) = Inl e"
  shows "e = \<lparr>err_code = kInternal, err_message = what sq\<rparr> \<and> snd (CreateSession sq n d) = d \<and>
    (s_user_id n \<in> set (user_keys d) \<and> s_dev n \<in> set (device_keys d) \<longrightarrow>
      s_session_id n \<in> set (map s_session_id (sessions d)) \<or>
      used_access_hash (s_access_token_hash n) d \<or> used_refresh_hash (s_refresh_token_hash n) d)"
  using assms
  by (auto simp: CreateSession_def insert_session_def used_access_hash_def used_refresh_hash_def
      s_dev_def simp del: set_map split: if_splits)

lemma session_fks:
  assumes "db_ok d" and "s \<in> set (sessions d)"
  shows "s_user_id s \<in> set (user_keys d)" "s_dev s \<in> set (device_keys d)"
  using assms by (auto simp: db_ok_def sessions_ok_def)

lemma revoke_where_other [simp]:
  "users (revoke_where P now d) = users d" "devices (revoke_where P now d) = devices d"
  "map s_session_id (sessions (revoke_where P now d)) = map s_session_id (sessions d)"
  by (simp_all add: revoke_where_def sql_simps)

text \<open>
  C1: What a refresh does on every branch. An unknown or revoked token, an expired one and one
  presented by another device are refused and change nothing. Otherwise the old refresh token
  and the access token of its session are dead afterwards and every other session is kept;
  the new pair belongs to the same user and device and is valid from then on, and the only
  failure left is a collision of a freshly drawn identifier or token hash.
\<close>

theorem RefreshTokens_correct:
  assumes "db_ok d"
  shows "let (res, d') = RefreshTokens tm sq r t v now d in
    case FindByRefreshToken (HashToken tm t) d of
      None \<Rightarrow> res = unexpected kUnauthorized ''Invalid refresh token'' \<and> d' = d
    | Some s \<Rightarrow>
        if s_refresh_expires_at s \<le> now then res = unexpected kExpired ''Refresh token expired'' \<and> d' = d
        else if s_device_id s \<noteq> v
        then res = unexpected kForbidden ''Device mismatch on refresh'' \<and> d' = d
        else old_session_dead tm t s d' \<and> other_sessions_kept s d d' \<and>
          (case res of
             Inr rr \<Rightarrow> rr_user_id rr = s_user_id s \<and>
               FindByRefreshToken (HashToken tm (tp_refresh_token (rr_tokens rr))) d' =
                 Some (new_session tm r (s_user_id s) v now) \<and>
               FindByAccessToken (HashToken tm (tp_access_token (rr_tokens rr))) d' =
                 Some (new_session tm r (s_user_id s) v now)
           | Inl e \<Rightarrow> err_code e = kInternal \<and>
               (uuid (draw_session r) \<in> set (map s_session_id (sessions d)) \<or>
                used_access_hash (HashToken tm (GenerateToken (draw_access r))) d \<or>
                used_refresh_hash (HashToken tm (GenerateToken (draw_refresh r))) d))"
proof (cases "\<exists>s. FindByRefreshToken (HashToken tm t) d = Some s \<and> now < s_refresh_expires_at s \<and>
    s_device_id s = v")
  case False
  then show ?thesis by (auto simp: RefreshTokens_def split: option.split)
next
  case True
  then obtain s where s: "FindByRefreshToken (HashToken tm t) d = Some s"
    "now < s_refresh_expires_at s" "s_device_id s = v" by blast
  define n where "n = new_session tm r (s_user_id s) v now"
  define d1 where "d1 = snd (Session_RevokeSession (s_session_id s) now d)"
  define d' where "d' = snd (RefreshTokens tm sq r t v now d)"
  define res where "res = fst (RefreshTokens tm sq r t v now d)"
  note unf = RefreshTokens_unfold [OF assms s, of sq r, folded n_def d1_def d'_def res_def]
  have d1: "d1 = revoke_where (\<lambda>x. s_session_id x = s_session_id s) now d"
    by (simp add: d1_def snd_RevokeSession)
  have in_d: "s \<in> set (sessions d)" using s(1) by (simp add: FindByRefreshToken_iff [OF assms])
  have sel: "s_session_id n = uuid (draw_session r)" by (simp add: n_def new_session_def)
  have "old_session_dead tm t s d' \<and> other_sessions_kept s d d' \<and> (case res of
      Inr rr \<Rightarrow> rr_user_id rr = s_user_id s \<and>
        FindByRefreshToken (HashToken tm (tp_refresh_token (rr_tokens rr))) d' = Some n \<and>
        FindByAccessToken (HashToken tm (tp_access_token (rr_tokens rr))) d' = Some n
    | Inl e \<Rightarrow> err_code e = kInternal \<and>
        (s_session_id n \<in> set (map s_session_id (sessions d)) \<or>
         used_access_hash (s_access_token_hash n) d \<or> used_refresh_hash (s_refresh_token_hash n) d))"
  proof (cases "fst (CreateSession sq n d1)")
    case (Inr x)
    then have ok: "fst (CreateSession sq n d1) = Inr ()" by simp
    note rot = store.rotation [OF assms s(1), of sq n now, folded d1_def, OF ok, folded unf(1)]
    have "sessions d' = sessions d1 @ [n\<lparr>s_revoked_at := None\<rparr>]"
      unfolding unf(1) CreateSession_success(1) [OF ok] by simp
    then have "other_sessions_kept s d d'"
      using others_revoke [of s d now] by (simp add: other_sessions_kept_def flip: d1)
    with rot(2-5) unf(2) Inr show ?thesis by (simp add: old_session_dead_def n_def)
  next
    case (Inl e)
    note fail = CreateSession_fails [OF Inl]
    then have "d' = d1" using unf(1) by simp
    moreover have "s_user_id n \<in> set (user_keys d1)" "s_dev n \<in> set (device_keys d1)"
      using session_fks [OF assms in_d] s(3) by (simp_all add: d1 n_def s_dev_def)
    moreover have "FindByRefreshToken (HashToken tm t) d1 = None"
        "FindByAccessToken (s_access_token_hash s) d1 = None"
      using s(1) store.same_session [OF assms s(1)] by (simp_all add: d1 Find_revoke_where [OF assms])
    ultimately show ?thesis
      using fail unf(2) Inl others_revoke [of s d now]
      by (simp add: old_session_dead_def d1 used_revoke_where del: set_map)
  qed
  moreover have "RefreshTokens tm sq r t v now d = (res, d')" by (simp add: res_def d'_def)
  ultimately show ?thesis using s unfolding sel unfolding n_def new_session_sel by simp
qed

theorem RefreshTokens_correct_witness:
  "let d = snd (IssueTokens sample_tm rowid_order sample_draws ''u1'' ''p'' 100 one_phone);
       (res, d') = RefreshTokens sample_tm rowid_order sample_draws (GenerateToken (5, 6, 7, 8)) ''q'' 200 d
   in res = unexpected kForbidden ''Device mismatch on refresh'' \<and> d' = d"
proof -
  let ?d = "snd (IssueTokens sample_tm rowid_order sample_draws ''u1'' ''p'' 100 one_phone)"
  have ok: "fst (CreateSession rowid_order (new_session sample_tm sample_draws ''u1'' ''p'' 100) one_phone)
      = Inr ()"
    using sample_issue by (simp add: IssueTokens_Inr)
  have "FindByRefreshToken (HashToken sample_tm (GenerateToken (5, 6, 7, 8))) ?d =
      Some (new_session sample_tm sample_draws ''u1'' ''p'' 100)"
    by (simp add: snd_IssueTokens Find_CreateSession [OF ok]) (simp add: sample_draws_def)
  moreover have "i64 (100 + refresh_lifetime_seconds sample_tm) = 86500"
    by (simp add: sample_tm_def in_i64_def)
  moreover have "db_ok ?d" by (simp add: keeps)
  ultimately show ?thesis
    using RefreshTokens_correct [of ?d sample_tm rowid_order sample_draws
        "GenerateToken (5, 6, 7, 8)" "''q''" 200]
    by (simp add: Let_def split: prod.splits)
qed

section \<open>Revocation\<close>

text \<open>
  C30: Revoking the sessions of a user, or of one device of a user, takes effect at once and
  on nothing else: afterwards an access token authenticates exactly the sessions it did before
  that do not belong to the user, respectively the device, and likewise for refresh tokens.
\<close>

theorem RevokeAll_correct:
  assumes "db_ok d"
  shows "(ValidateAccessToken tm a t (snd (Token_RevokeAllForUser u now d)) = Inr s \<longleftrightarrow>
      ValidateAccessToken tm a t d = Inr s \<and> s_user_id s \<noteq> u) \<and>
    (ValidateAccessToken tm a t (snd (Token_RevokeAllForDevice u v now d)) = Inr s \<longleftrightarrow>
      ValidateAccessToken tm a t d = Inr s \<and> (s_user_id s \<noteq> u \<or> s_device_id s \<noteq> v)) \<and>
    (FindByRefreshToken h (snd (Token_RevokeAllForUser u now d)) = Some s \<longleftrightarrow>
      FindByRefreshToken h d = Some s \<and> s_user_id s \<noteq> u) \<and>
    (FindByRefreshToken h (snd (Token_RevokeAllForDevice u v now d)) = Some s \<longleftrightarrow>
      FindByRefreshToken h d = Some s \<and> (s_user_id s \<noteq> u \<or> s_device_id s \<noteq> v))"
  by (auto simp: ValidateAccessToken_Inr Token_RevokeAllForUser_def Token_RevokeAllForDevice_def
      Session_RevokeAllForUser_def Session_RevokeAllForDevice_def Find_revoke_where [OF assms]
      split: option.splits if_splits)

theorem RevokeAll_correct_witness:
  "let d = snd (IssueTokens sample_tm rowid_order sample_draws ''u1'' ''p'' 100 one_phone)
   in ValidateAccessToken sample_tm (GenerateToken (1, 2, 3, 4)) 200
        (snd (Token_RevokeAllForDevice ''u1'' ''p'' 150 d)) \<noteq>
      Inr (new_session sample_tm sample_draws ''u1'' ''p'' 100)"
  using RevokeAll_correct [of "snd (IssueTokens sample_tm rowid_order sample_draws ''u1'' ''p'' 100 one_phone)"
      sample_tm "GenerateToken (1, 2, 3, 4)" 200]
  by (simp add: keeps Let_def)

end
