(* ===== verification/Ws_Push.thy ===== *)
theory Ws_Push
  imports Token_Manager Json Shard_Map
begin

text \<open>
  \<open>WsPushRegistry\<close> (\<open>lib/vox_net/ws_registry.cpp\<close>) and \<open>WebSocketSession\<close>
  (\<open>lib/vox_net/http_session.cpp\<close>). A session is an object with an identity; the sender that it
  registers holds a weak pointer, here the identity, and does nothing once the object is gone. The
  handlers that the code gives to the io_context are the operations of the model: each runs as one
  step, at any later time, and the closures that \<open>PostSend\<close> has posted are kept as a multiset
  because several threads run the io_context without a strand. What the library does with a socket
  is kept as whether the session is still open and which messages it was told to write.
\<close>

section \<open>The registry\<close>

record WebSocketSession =
  wss_user_id :: UserId
  wss_device_id :: DeviceId
  wss_deferred_auth_active :: bool
  wss_outbound :: "string list"
  wss_write_in_progress :: bool
  wss_written :: "string list"
  wss_open :: bool

record ws_state =
  ws_senders :: "(string, nat) unordered_map"
  ws_sessions :: "nat \<rightharpoonup> WebSocketSession"
  ws_posted :: "(nat \<times> string) multiset"

definition ws_new :: ws_state where
  "ws_new = \<lparr>ws_senders = [], ws_sessions = Map.empty, ws_posted = {#}\<rparr>"

definition Ws_Register :: "string \<Rightarrow> nat \<Rightarrow> ws_state \<Rightarrow> ws_state" where
  "Ws_Register device_id send st = st\<lparr>ws_senders := umap_store device_id send (ws_senders st)\<rparr>"

definition Ws_Unregister :: "string \<Rightarrow> ws_state \<Rightarrow> ws_state" where
  "Ws_Unregister device_id st = st\<lparr>ws_senders := snd (umap_erase device_id (ws_senders st))\<rparr>"

text \<open>The sender of a session: \<open>PostSend\<close> if the weak pointer can be locked.\<close>

definition ws_send :: "nat \<Rightarrow> string \<Rightarrow> ws_state \<Rightarrow> ws_state" where
  "ws_send i msg st = (if ws_sessions st i = None then st else st\<lparr>ws_posted := add_mset (i, msg) (ws_posted st)\<rparr>)"

definition Notify :: "string \<Rightarrow> string \<Rightarrow> ws_state \<Rightarrow> ws_state" where
  "Notify device_id json_text st =
     (case umap_find device_id (ws_senders st) of None \<Rightarrow> st | Some fn \<Rightarrow> ws_send fn json_text st)"

section \<open>A session\<close>

definition WebSocketSession_new :: WebSocketSession where
  "WebSocketSession_new = \<lparr>wss_user_id = [], wss_device_id = [], wss_deferred_auth_active = False,
     wss_outbound = [], wss_write_in_progress = False, wss_written = [], wss_open = True\<rparr>"

definition put_session :: "nat \<Rightarrow> WebSocketSession \<Rightarrow> ws_state \<Rightarrow> ws_state" where
  "put_session i s st = st\<lparr>ws_sessions := (ws_sessions st)(i \<mapsto> s)\<rparr>"

definition FailTcpConnection :: "WebSocketSession \<Rightarrow> WebSocketSession" where
  "FailTcpConnection s = s\<lparr>wss_open := False\<rparr>"

definition FinishAuth :: "TokenManager \<Rightarrow> db \<Rightarrow> Timestamp \<Rightarrow> nat \<Rightarrow> string \<Rightarrow> WebSocketSession \<Rightarrow> ws_state \<Rightarrow> ws_state" where
  "FinishAuth tm d now i token s st =
     (case ValidateAccessToken tm token now d of
        Inl _ \<Rightarrow> put_session i (FailTcpConnection s) st
      | Inr session \<Rightarrow>
          Ws_Register (DeviceScopeKey (s_user_id session) (s_device_id session)) i
            (put_session i (s\<lparr>wss_user_id := s_user_id session, wss_device_id := s_device_id session\<rparr>) st))"

text \<open>\<open>OnAccept\<close> with the bearer token of the upgrade request, or without one.\<close>

definition OnAccept :: "TokenManager \<Rightarrow> db \<Rightarrow> Timestamp \<Rightarrow> string option \<Rightarrow> nat \<Rightarrow> WebSocketSession \<Rightarrow> ws_state \<Rightarrow> ws_state" where
  "OnAccept tm d now token_opt i s st =
     (case token_opt of
        Some token \<Rightarrow> FinishAuth tm d now i token s st
      | None \<Rightarrow> put_session i (s\<lparr>wss_deferred_auth_active := True\<rparr>) st)"

definition on_auth_timer :: "WebSocketSession \<Rightarrow> WebSocketSession" where
  "on_auth_timer s =
     (if wss_deferred_auth_active s then s\<lparr>wss_deferred_auth_active := False, wss_open := False\<rparr> else s)"

text \<open>The first frame of a session without a bearer token; \<open>None\<close> is a read error or a binary frame.\<close>

definition auth_token :: "json_lib \<Rightarrow> string option \<Rightarrow> string option" where
  "auth_token js frame =
     (case frame of
        None \<Rightarrow> None
      | Some data \<Rightarrow>
          (case json_parse js data of
             Inr (JObject o') \<Rightarrow>
               (case (JsonString o' ''type'', JsonString o' ''access_token'') of
                  (Some typ, Some token) \<Rightarrow> if typ \<noteq> ''auth'' then None else Some token
                | _ \<Rightarrow> None)
           | _ \<Rightarrow> None))"

definition on_auth_frame ::
    "TokenManager \<Rightarrow> json_lib \<Rightarrow> db \<Rightarrow> Timestamp \<Rightarrow> string option \<Rightarrow> nat \<Rightarrow> WebSocketSession \<Rightarrow> ws_state \<Rightarrow> ws_state" where
  "on_auth_frame tm js d now frame i s st =
     (if \<not> wss_deferred_auth_active s then st
      else let s' = s\<lparr>wss_deferred_auth_active := False\<rparr>
           in case auth_token js frame of
                None \<Rightarrow> put_session i (FailTcpConnection s') st
              | Some token \<Rightarrow> FinishAuth tm d now i token s' st)"

definition Ws_Shutdown :: "nat \<Rightarrow> WebSocketSession \<Rightarrow> ws_state \<Rightarrow> ws_state" where
  "Ws_Shutdown i s st =
     (let st' = (if wss_device_id s \<noteq> [] then Ws_Unregister (DeviceScopeKey (wss_user_id s) (wss_device_id s)) st else st);
          s' = (if wss_device_id s \<noteq> [] then s\<lparr>wss_device_id := [], wss_user_id := []\<rparr> else s)
      in put_session i (s'\<lparr>wss_open := False\<rparr>) st')"

definition PumpOutbound :: "WebSocketSession \<Rightarrow> WebSocketSession" where
  "PumpOutbound s =
     (if wss_write_in_progress s then s
      else case wss_outbound s of
             [] \<Rightarrow> s
           | chunk # rest \<Rightarrow> s\<lparr>wss_write_in_progress := True, wss_outbound := rest, wss_written := wss_written s @ [chunk]\<rparr>)"

text \<open>The closure that \<open>PostSend\<close> posts, and the completion of a write.\<close>

definition run_posted :: "nat \<Rightarrow> nat \<Rightarrow> string \<Rightarrow> WebSocketSession \<Rightarrow> ws_state \<Rightarrow> ws_state" where
  "run_posted max_ws_outbound_queue i msg s st =
     (if max_ws_outbound_queue > 0 \<and> length (wss_outbound s) \<ge> max_ws_outbound_queue then Ws_Shutdown i s st
      else put_session i (PumpOutbound (s\<lparr>wss_outbound := wss_outbound s @ [msg]\<rparr>)) st)"

definition on_write :: "bool \<Rightarrow> nat \<Rightarrow> WebSocketSession \<Rightarrow> ws_state \<Rightarrow> ws_state" where
  "on_write ec i s st =
     (let s' = s\<lparr>wss_write_in_progress := False\<rparr>
      in if ec then Ws_Shutdown i s' st else put_session i (PumpOutbound s') st)"

text \<open>A frame of an authenticated client is dropped; a read error ends the session.\<close>

definition on_read :: "bool \<Rightarrow> nat \<Rightarrow> WebSocketSession \<Rightarrow> ws_state \<Rightarrow> ws_state" where
  "on_read ec i s st = (if ec then Ws_Shutdown i s st else st)"

section \<open>Interleavings\<close>

text \<open>
  The steps of the push layer, in any order: a new connection, a notification, one of the posted
  closures, and the handlers of a session. A session without a bearer token is waited for only while
  it is not authenticated; the object goes away when its socket is closed and no closure holds it.
  The database and the clock may be any at each step; a session row has a device id because
  \<open>Register\<close> and \<open>Login\<close> replace an empty one.
\<close>

definition devices_named :: "db \<Rightarrow> bool" where
  "devices_named d \<longleftrightarrow> (\<forall>x \<in> set (sessions d). s_device_id x \<noteq> [])"

inductive ws_step :: "TokenManager \<Rightarrow> json_lib \<Rightarrow> nat \<Rightarrow> ws_state \<Rightarrow> ws_state \<Rightarrow> bool"
  for tm :: TokenManager and js :: json_lib and mx :: nat where
  accept: "ws_sessions st i = None \<Longrightarrow> devices_named d \<Longrightarrow>
    ws_step tm js mx st (OnAccept tm d now token_opt i WebSocketSession_new st)"
| notify: "ws_step tm js mx st (Notify key msg st)"
| posted: "(i, msg) \<in># ws_posted st \<Longrightarrow> ws_sessions st i = Some s \<Longrightarrow>
    ws_step tm js mx st (run_posted mx i msg s (st\<lparr>ws_posted := ws_posted st - {#(i, msg)#}\<rparr>))"
| timer: "ws_sessions st i = Some s \<Longrightarrow> ws_step tm js mx st (put_session i (on_auth_timer s) st)"
| auth: "ws_sessions st i = Some s \<Longrightarrow> devices_named d \<Longrightarrow>
    ws_step tm js mx st (on_auth_frame tm js d now frame i s st)"
| written: "ws_sessions st i = Some s \<Longrightarrow> wss_write_in_progress s \<Longrightarrow> ws_step tm js mx st (on_write ec i s st)"
| reading: "ws_sessions st i = Some s \<Longrightarrow> \<not> wss_deferred_auth_active s \<Longrightarrow> ws_step tm js mx st (on_read ec i s st)"
| gone: "ws_sessions st i = Some s \<Longrightarrow> \<not> wss_open s \<Longrightarrow> (\<forall>m. (i, m) \<notin># ws_posted st) \<Longrightarrow>
    ws_step tm js mx st (st\<lparr>ws_sessions := (ws_sessions st)(i := None)\<rparr>)"

definition ws_reachable :: "TokenManager \<Rightarrow> json_lib \<Rightarrow> nat \<Rightarrow> ws_state \<Rightarrow> bool" where
  "ws_reachable tm js mx st \<longleftrightarrow> (ws_step tm js mx)\<^sup>*\<^sup>* ws_new st"

text \<open>
  What holds of every session: the queue is bounded, messages wait only behind a write, an
  authenticated session is open, and one that waits for its token has nothing to send.
\<close>

definition session_ok :: "nat \<Rightarrow> WebSocketSession \<Rightarrow> bool" where
  "session_ok mx s \<longleftrightarrow> (0 < mx \<longrightarrow> length (wss_outbound s) \<le> mx) \<and>
     (wss_open s \<and> wss_outbound s \<noteq> [] \<longrightarrow> wss_write_in_progress s) \<and>
     (wss_device_id s \<noteq> [] \<longrightarrow> wss_open s) \<and>
     (wss_deferred_auth_active s \<longrightarrow> wss_open s \<and> wss_device_id s = [] \<and> \<not> wss_write_in_progress s \<and> wss_outbound s = [])"

definition owner_key :: "WebSocketSession \<Rightarrow> string option" where
  "owner_key s = (if wss_device_id s = [] then None else Some (DeviceScopeKey (wss_user_id s) (wss_device_id s)))"

definition ws_ok :: "nat \<Rightarrow> ws_state \<Rightarrow> bool" where
  "ws_ok mx st \<longleftrightarrow> umap_ok (ws_senders st) \<and> (\<forall>i s. ws_sessions st i = Some s \<longrightarrow> session_ok mx s) \<and>
     (\<forall>k i. umap_find k (ws_senders st) = Some i \<longrightarrow> (\<exists>s. ws_sessions st i = Some s \<and> owner_key s = Some k)) \<and>
     (\<forall>i m. (i, m) \<in># ws_posted st \<longrightarrow> (\<exists>s. ws_sessions st i = Some s \<and> \<not> wss_deferred_auth_active s))"

lemma ws_okD:
  assumes "ws_ok mx st"
  shows "umap_ok (ws_senders st)" "ws_sessions st i = Some s \<Longrightarrow> session_ok mx s"
    "umap_find k (ws_senders st) = Some i \<Longrightarrow> \<exists>s. ws_sessions st i = Some s \<and> owner_key s = Some k"
    "(i, m) \<in># ws_posted st \<Longrightarrow> \<exists>s. ws_sessions st i = Some s \<and> \<not> wss_deferred_auth_active s"
  using assms unfolding ws_ok_def by blast+

lemma put_session_sel [simp]:
  "ws_senders (put_session i s st) = ws_senders st" "ws_posted (put_session i s st) = ws_posted st"
  "ws_sessions (put_session i s st) = (ws_sessions st)(i \<mapsto> s)"
  by (simp_all add: put_session_def)

text \<open>A session is replaced by one that every sender with its identity still fits.\<close>

lemma put_session_ok:
  assumes ok: "ws_ok mx st" and "session_ok mx s" "wss_deferred_auth_active s \<longrightarrow> ws_sessions st i = None"
    and "\<And>k. umap_find k (ws_senders st) = Some i \<Longrightarrow> owner_key s = Some k"
  shows "ws_ok mx (put_session i s st)"
  unfolding ws_ok_def
  using assms ws_okD [OF ok] by (auto split: if_splits) (metis option.distinct(1))+

lemma owner_registered:
  assumes "ws_ok mx st" "ws_sessions st i = Some s" "umap_find k (ws_senders st) = Some i"
  shows "owner_key s = Some k"
  using ws_okD(3) [OF assms(1,3)] assms(2) by auto

lemma put_same_owner_ok:
  assumes "ws_ok mx st" "ws_sessions st i = Some s0" "owner_key s = owner_key s0" "session_ok mx s"
    "\<not> wss_deferred_auth_active s"
  shows "ws_ok mx (put_session i s st)"
  using assms owner_registered [OF assms(1,2)] by (intro put_session_ok) auto

lemma Ws_Unregister_sel [simp]:
  "ws_sessions (Ws_Unregister k st) = ws_sessions st" "ws_posted (Ws_Unregister k st) = ws_posted st"
  by (simp_all add: Ws_Unregister_def)

lemma find_Unregister:
  "umap_ok (ws_senders st) \<Longrightarrow> umap_find k' (ws_senders (Ws_Unregister k st)) = (if k' = k then None else umap_find k' (ws_senders st))"
  by (simp add: Ws_Unregister_def umap.find_erase)

lemma Ws_Unregister_ok: "ws_ok mx st \<Longrightarrow> ws_ok mx (Ws_Unregister k st)"
  unfolding ws_ok_def by (simp add: find_Unregister) (simp add: Ws_Unregister_def umap.valid_erase)

lemma Ws_Shutdown_ok:
  assumes ok: "ws_ok mx st" and s: "ws_sessions st i = Some s0" "owner_key s = owner_key s0"
    and q: "0 < mx \<longrightarrow> length (wss_outbound s) \<le> mx" "\<not> wss_deferred_auth_active s"
  shows "ws_ok mx (Ws_Shutdown i s st)"
proof -
  define st' where "st' = (if wss_device_id s \<noteq> [] then Ws_Unregister (DeviceScopeKey (wss_user_id s) (wss_device_id s)) st else st)"
  have "umap_find k (ws_senders st') \<noteq> Some i" for k
    using owner_registered [OF ok s(1), of k] s(2) ws_okD(1) [OF ok]
    by (auto simp: st'_def find_Unregister owner_key_def split: if_splits)
  moreover have "ws_ok mx st'" using ok by (simp add: st'_def Ws_Unregister_ok)
  ultimately show ?thesis
    using q by (auto simp: Ws_Shutdown_def Let_def simp flip: st'_def intro!: put_session_ok simp: session_ok_def)
qed

lemma PumpOutbound_same [simp]:
  "owner_key (PumpOutbound s) = owner_key s"
  "wss_deferred_auth_active (PumpOutbound s) = wss_deferred_auth_active s"
  by (simp_all add: PumpOutbound_def owner_key_def split: list.split)

lemma PumpOutbound_ok:
  assumes "0 < mx \<and> wss_write_in_progress s \<longrightarrow> length (wss_outbound s) \<le> mx"
    and "0 < mx \<longrightarrow> length (wss_outbound s) \<le> Suc mx"
    and "wss_device_id s \<noteq> [] \<longrightarrow> wss_open s" "\<not> wss_deferred_auth_active s"
  shows "session_ok mx (PumpOutbound s)"
  using assms by (auto simp: session_ok_def PumpOutbound_def split: list.split)

lemma FinishAuth_ok:
  assumes ok: "ws_ok mx st" and s: "session_ok mx s" "owner_key s = None" "wss_open s" "\<not> wss_deferred_auth_active s"
    and i: "\<And>k. umap_find k (ws_senders st) \<noteq> Some i" and d: "devices_named d"
  shows "ws_ok mx (FinishAuth tm d now i token s st)"
proof (cases "ValidateAccessToken tm token now d")
  case (Inl e)
  then show ?thesis
    using assms by (auto simp: FinishAuth_def FailTcpConnection_def session_ok_def owner_key_def intro!: put_session_ok split: if_splits)
next
  case (Inr x)
  then have "x \<in> set (sessions d)"
    by (auto simp: ValidateAccessToken_def FindByAccessToken_def first_row_def split: option.splits if_splits list.splits
        dest!: filter_eq_ConsD)
  then have dev: "s_device_id x \<noteq> []" using d by (simp add: devices_named_def)
  let ?s = "s\<lparr>wss_user_id := s_user_id x, wss_device_id := s_device_id x\<rparr>"
  have "ws_ok mx (put_session i ?s st)"
    using assms dev by (intro put_session_ok) (auto simp: session_ok_def)
  then show ?thesis
    using Inr dev by (auto simp: FinishAuth_def ws_ok_def Ws_Register_def umap.find_store umap.valid_store owner_key_def split: if_splits)
qed

lemma Notify_posted:
  "Notify k m st = (case umap_find k (ws_senders st) of
     None \<Rightarrow> st
   | Some i \<Rightarrow> if ws_sessions st i = None then st else st\<lparr>ws_posted := add_mset (i, m) (ws_posted st)\<rparr>)"
  by (simp add: Notify_def ws_send_def split: option.split)

lemma Notify_ok:
  assumes "ws_ok mx st"
  shows "ws_ok mx (Notify k m st)"
proof (cases "umap_find k (ws_senders st)")
  case (Some i)
  obtain s where s: "ws_sessions st i = Some s" "owner_key s = Some k" using ws_okD(3) [OF assms Some] by blast
  then have "\<not> wss_deferred_auth_active s"
    using ws_okD(2) [OF assms s(1)] by (auto simp: session_ok_def owner_key_def split: if_splits)
  with assms s Some show ?thesis by (auto simp: Notify_posted ws_ok_def)
qed (use assms in \<open>simp add: Notify_posted\<close>)

lemma run_posted_ok:
  assumes "ws_ok mx st" "ws_sessions st i = Some s" "(i, m) \<in># ws_posted st"
  shows "ws_ok mx (run_posted mx i m s (st\<lparr>ws_posted := ws_posted st - {#(i, m)#}\<rparr>))"
proof -
  have s: "session_ok mx s" "\<not> wss_deferred_auth_active s"
    using ws_okD(2) [OF assms(1,2)] ws_okD(4) [OF assms(1,3)] assms(2) by auto
  have "ws_ok mx (st\<lparr>ws_posted := ws_posted st - {#(i, m)#}\<rparr>)"
    using assms(1) unfolding ws_ok_def by auto (meson in_diffD)
  moreover have "owner_key (s\<lparr>wss_outbound := x\<rparr>) = owner_key s" for x by (simp add: owner_key_def)
  ultimately show ?thesis
    using s assms(2) unfolding run_posted_def
    by (auto simp: session_ok_def intro!: Ws_Shutdown_ok put_same_owner_ok PumpOutbound_ok)
qed

lemma on_write_ok:
  assumes "ws_ok mx st" "ws_sessions st i = Some s" "wss_write_in_progress s"
  shows "ws_ok mx (on_write ec i s st)"
proof -
  have s: "session_ok mx s" "\<not> wss_deferred_auth_active s"
    using ws_okD(2) [OF assms(1,2)] assms(3) by (auto simp: session_ok_def)
  have "owner_key (s\<lparr>wss_write_in_progress := x\<rparr>) = owner_key s" for x by (simp add: owner_key_def)
  then show ?thesis
    using s assms(1,2) unfolding on_write_def Let_def
    by (auto simp: session_ok_def intro!: Ws_Shutdown_ok put_same_owner_ok PumpOutbound_ok)
qed

lemma on_auth_frame_ok:
  assumes "ws_ok mx st" "ws_sessions st i = Some s" "devices_named d"
  shows "ws_ok mx (on_auth_frame tm js d now frame i s st)"
proof (cases "wss_deferred_auth_active s")
  case True
  then have s: "session_ok mx s" "owner_key s = None" "wss_open s"
    using ws_okD(2) [OF assms(1,2)] by (auto simp: session_ok_def owner_key_def)
  then have "umap_find k (ws_senders st) \<noteq> Some i" for k
    using owner_registered [OF assms(1,2)] by auto
  with s True assms(1,3) show ?thesis
    by (auto simp: on_auth_frame_def Let_def session_ok_def owner_key_def FailTcpConnection_def
        intro!: FinishAuth_ok put_session_ok split: option.split)
qed (use assms in \<open>simp add: on_auth_frame_def\<close>)

lemma OnAccept_ok:
  assumes "ws_ok mx st" "ws_sessions st i = None" "devices_named d"
  shows "ws_ok mx (OnAccept tm d now token_opt i WebSocketSession_new st)"
proof -
  have "umap_find k (ws_senders st) \<noteq> Some i" for k using ws_okD(3) [OF assms(1)] assms(2) by fastforce
  then show ?thesis using assms
    by (auto simp: OnAccept_def WebSocketSession_new_def session_ok_def owner_key_def
        intro!: FinishAuth_ok put_session_ok split: option.split)
qed

lemma ws_step_ok: "ws_step tm js mx st st' \<Longrightarrow> ws_ok mx st \<Longrightarrow> ws_ok mx st'"
proof (induction rule: ws_step.induct)
  case (timer st i s)
  then have "session_ok mx s" by (auto dest: ws_okD)
  then have "session_ok mx (on_auth_timer s)" "owner_key (on_auth_timer s) = owner_key s"
    "\<not> wss_deferred_auth_active (on_auth_timer s)"
    by (auto simp: on_auth_timer_def session_ok_def owner_key_def)
  with timer show ?case by (intro put_same_owner_ok)
next
  case (reading st i s ec)
  then show ?case by (auto simp: on_read_def session_ok_def intro!: Ws_Shutdown_ok dest: ws_okD)
next
  case (gone st i s)
  then have "owner_key s = None" by (auto simp: session_ok_def owner_key_def dest!: ws_okD(2))
  then have "umap_find k (ws_senders st) \<noteq> Some i" for k using owner_registered [OF gone(4,1)] by auto
  with gone show ?case unfolding ws_ok_def by auto
qed (simp_all add: OnAccept_ok Notify_ok run_posted_ok on_auth_frame_ok on_write_ok)

lemma ws_reachable_ok: "ws_reachable tm js mx st \<Longrightarrow> ws_ok mx st"
  unfolding ws_reachable_def
  by (induction rule: rtranclp_induct) (simp add: ws_new_def ws_ok_def umap_defs, rule ws_step_ok)


text \<open>Two connections of one device, with the same valid token.\<close>

definition online_session :: SessionRecord where
  "online_session = \<lparr>s_session_id = ''s'', s_user_id = ''u1'', s_device_id = ''p'',
     s_access_token_hash = HashToken sample_tm ''tok'', s_refresh_token_hash = [], s_access_expires_at = 100,
     s_refresh_expires_at = 100, s_created_at = 0, s_revoked_at = None\<rparr>"

definition online_db :: db where
  "online_db = one_phone\<lparr>sessions := [online_session]\<rparr>"

lemma online_session_sel [simp]:
  "s_session_id online_session = ''s''" "s_user_id online_session = ''u1''" "s_device_id online_session = ''p''"
  "s_access_expires_at online_session = 100" "s_revoked_at online_session = None"
  by (simp_all add: online_session_def)

lemma online_valid: "now < 100 \<Longrightarrow> sessions d = [online_session] \<Longrightarrow> ValidateAccessToken sample_tm ''tok'' now d = Inr online_session"
  by (simp add: ValidateAccessToken_def FindByAccessToken_def online_session_def first_row_def)

definition connect :: "nat \<Rightarrow> ws_state \<Rightarrow> ws_state" where
  "connect i st = OnAccept sample_tm online_db 5 (Some ''tok'') i WebSocketSession_new st"

lemma connect_eq:
  "connect i st = Ws_Register (DeviceScopeKey ''u1'' ''p'') i
     (put_session i (WebSocketSession_new\<lparr>wss_user_id := ''u1'', wss_device_id := ''p''\<rparr>) st)"
  by (simp add: connect_def OnAccept_def FinishAuth_def online_valid online_db_def)

lemma connect_step: "ws_sessions st i = None \<Longrightarrow> ws_step sample_tm js mx st (connect i st)"
  unfolding connect_def by (rule accept) (simp_all add: devices_named_def online_db_def)


text \<open>
  C36: The end of an old connection of a device cuts off the new one: \<open>Shutdown\<close> erases the sender
  of its key, also when a later connection of the same device has registered over it. The later
  connection stays open, and notifications for the device are dropped.
\<close>

theorem stale_shutdown_unregisters:
  assumes "umap_ok (ws_senders st)" and "ws_sessions st i = Some s" "i \<noteq> j"
    and "wss_device_id s \<noteq> []" and "key = DeviceScopeKey (wss_user_id s) (wss_device_id s)"
    and "umap_find key (ws_senders st) = Some j"
  shows "ws_sessions (Ws_Shutdown i s st) j = ws_sessions st j \<and>
    Notify key msg (Ws_Shutdown i s st) = Ws_Shutdown i s st"
  using assms by (simp add: Ws_Shutdown_def Notify_posted find_Unregister)

theorem stale_shutdown_unregisters_witness:
  "let st = connect 2 (connect 1 ws_new); st' = on_read True 1 (the (ws_sessions st 1)) st
   in ws_reachable sample_tm (fixed_json JNull) 4 st' \<and>
      (\<exists>s. ws_sessions st' 2 = Some s \<and> wss_open s \<and> owner_key s = Some (DeviceScopeKey ''u1'' ''p'')) \<and>
      Notify (DeviceScopeKey ''u1'' ''p'') ''hi'' st' = st'"
proof -
  define st where "st = connect 2 (connect 1 ws_new)"
  define s where "s = WebSocketSession_new\<lparr>wss_user_id := ''u1'', wss_device_id := ''p''\<rparr>"
  have st: "ws_sessions st 1 = Some s" "ws_sessions st 2 = Some s" "umap_ok (ws_senders st)"
    "umap_find (DeviceScopeKey ''u1'' ''p'') (ws_senders st) = Some 2"
    by (simp_all add: st_def s_def connect_eq Ws_Register_def ws_new_def umap_defs)
  have s: "wss_user_id s = ''u1''" "wss_device_id s = ''p''" "wss_open s" "\<not> wss_deferred_auth_active s"
    by (simp_all add: s_def WebSocketSession_new_def)
  have "ws_step sample_tm (fixed_json JNull) 4 ws_new (connect 1 ws_new)"
    "ws_step sample_tm (fixed_json JNull) 4 (connect 1 ws_new) st"
    unfolding st_def by (rule connect_step; simp add: connect_eq Ws_Register_def ws_new_def)+
  moreover have "ws_step sample_tm (fixed_json JNull) 4 st (on_read True 1 s st)"
    using st(1) s(4) by (rule reading)
  ultimately have "ws_reachable sample_tm (fixed_json JNull) 4 (on_read True 1 s st)"
    unfolding ws_reachable_def by (blast intro: rtranclp.rtrancl_into_rtrancl rtranclp.rtrancl_refl)
  moreover have "ws_sessions (Ws_Shutdown 1 s st) 2 = ws_sessions st 2 \<and>
      Notify (DeviceScopeKey ''u1'' ''p'') ''hi'' (Ws_Shutdown 1 s st) = Ws_Shutdown 1 s st"
    using st s by (intro stale_shutdown_unregisters) simp_all
  ultimately show ?thesis
    unfolding st_def [symmetric] Let_def using st s by (auto simp: on_read_def owner_key_def)
qed

end
