(* ===== verification/Auth_Service.thy ===== *)
theory Auth_Service
  imports Token_Manager
begin

text \<open>
  \<open>PasswordHasher\<close> (\<open>lib/vox_auth/password_hasher.cpp\<close>) and \<open>AuthService\<close>
  (\<open>lib/vox_auth/auth_service.cpp\<close>). Argon2id is a library, so \<open>argon2id_hash_raw\<close> is a
  parameter: a function of the costs, the password and the salt, to an error code or 32 bytes.
  The salt that \<open>FillRandomBytes\<close> draws and the clock are arguments. The work that the
  service submits to its thread pool is waited for at once, so it is part of the call.
  \<open>std::stoul\<close> throws on text that is not hex; a call that throws is \<open>None\<close>.
\<close>

section \<open>Password hashing\<close>

record argon2 =
  argon2id_hash_raw :: "nat \<Rightarrow> nat \<Rightarrow> nat \<Rightarrow> string \<Rightarrow> byte_t list \<Rightarrow> int + byte_t list"
  argon2_error_message :: "int \<Rightarrow> string"

record PasswordHasher =
  time_cost :: nat
  memory_cost :: nat
  parallelism :: nat
  lib :: argon2

record HashResult =
  hr_salt :: string
  hr_verifier :: string

definition BytesToHex :: "byte_t list \<Rightarrow> string" where
  "BytesToHex bytes = concat (map (\<lambda>b. fmt_hex 2 (unat b)) bytes)"

fun HexToBytes :: "string \<Rightarrow> byte_t list option" where
  "HexToBytes [] = Some []"
| "HexToBytes [c] = map_option (\<lambda>v. [word_of_int v]) (strto 16 [c])"
| "HexToBytes (c1 # c2 # cs) =
     (case strto 16 [c1, c2] of
        None \<Rightarrow> None
      | Some v \<Rightarrow> map_option (\<lambda>bs. word_of_int v # bs) (HexToBytes cs))"

definition GenerateRandomSalt :: "byte_t list option \<Rightarrow> byte_t list Result" where
  "GenerateRandomSalt draw =
     (case draw of None \<Rightarrow> unexpected kInternal ''Failed to generate random salt''
      | Some salt \<Rightarrow> Inr salt)"

definition run_argon2 :: "PasswordHasher \<Rightarrow> string \<Rightarrow> byte_t list \<Rightarrow> int + byte_t list" where
  "run_argon2 h pw salt =
     argon2id_hash_raw (lib h) (time_cost h) (memory_cost h) (parallelism h) pw salt"

definition Hash :: "PasswordHasher \<Rightarrow> byte_t list option \<Rightarrow> string \<Rightarrow> HashResult Result" where
  "Hash h draw password_derived_value =
     (case GenerateRandomSalt draw of
        Inl e \<Rightarrow> Inl e
      | Inr salt \<Rightarrow>
          (case run_argon2 h password_derived_value salt of
             Inl code \<Rightarrow> unexpected kInternal
               (''Argon2 hash failed: '' @ argon2_error_message (lib h) code)
           | Inr hash \<Rightarrow> Inr \<lparr>hr_salt = BytesToHex salt, hr_verifier = BytesToHex hash\<rparr>))"

definition Verify :: "PasswordHasher \<Rightarrow> string \<Rightarrow> string \<Rightarrow> string \<Rightarrow> bool option" where
  "Verify h password_derived_value salt verifier =
     (case HexToBytes salt of
        None \<Rightarrow> None
      | Some salt_bytes \<Rightarrow>
          (case run_argon2 h password_derived_value salt_bytes of
             Inl _ \<Rightarrow> Some False
           | Inr hash \<Rightarrow> Some (BytesToHex hash = verifier)))"

lemma strto_hex_byte: "strto 16 (fmt_hex 2 (unat (b :: byte_t))) = Some (uint b)"
proof -
  have b: "unat b < 256" using unsigned_less [of b] by simp
  then have d: "unat b div 16 < 16" "unat b mod 16 < 16" by auto
  have v: "digit_value (digit_char (unat b div 16)) = Some (unat b div 16)"
    "digit_value (digit_char (unat b mod 16)) = Some (unat b mod 16)"
    using d by (intro digit_value_digit_char; simp)+
  then have dig: "is_digit 16 (digit_char (unat b div 16))" "is_digit 16 (digit_char (unat b mod 16))"
    using d by (simp_all add: is_digit_def)
  have nosign: "c \<noteq> CHR ''-'' \<and> c \<noteq> CHR ''+'' \<and> \<not> isspace c" if "is_digit 16 c" for c
    using that by (auto simp: is_digit_def digit_value_def isspace_def Let_def split: if_splits)
  have "fmt_hex 2 (unat b) = [digit_char (unat b div 16), digit_char (unat b mod 16)]"
    unfolding fmt_hex_fixed [OF unat_byte_less_16 zero_less_numeral] using d(1)
    by (simp add: numeral_2_eq_2)
  moreover have "int (unat b div 16) * 16 + int (unat b mod 16) = uint b"
    by (metis (mono_tags, opaque_lifting) div_mult_mod_eq of_nat_add of_nat_mult of_nat_numeral
        uint_nat)
  ultimately show ?thesis
    using nosign [OF dig(1)] dig v by (simp add: strto_def digits_value_def Let_def)
qed

lemma fmt_hex_byte: "\<exists>c1 c2. fmt_hex 2 (unat (b :: byte_t)) = [c1, c2]"
  unfolding fmt_hex_fixed [OF unat_byte_less_16 zero_less_numeral] by (simp add: numeral_2_eq_2)

text \<open>The stored salt reads back as the bytes that were drawn.\<close>

lemma HexToBytes_BytesToHex [simp]: "HexToBytes (BytesToHex bs) = Some bs"
proof (induction bs)
  case (Cons b bs)
  obtain c1 c2 where c: "fmt_hex 2 (unat b) = [c1, c2]" using fmt_hex_byte by blast
  have "strto 16 [c1, c2] = Some (uint b)" using strto_hex_byte [of b] c by simp
  with Cons c show ?case by (simp add: BytesToHex_def)
qed (simp add: BytesToHex_def)

lemma BytesToHex_inj: "BytesToHex bs = BytesToHex cs \<Longrightarrow> bs = cs"
  by (metis HexToBytes_BytesToHex option.inject)

text \<open>
  A hash verifies for exactly the passwords that Argon2id maps to the same bytes under the
  same salt.
\<close>

lemma Verify_Hash:
  assumes "Hash h draw pw = Inr res"
  shows "Verify h pw' (hr_salt res) (hr_verifier res) =
    Some (\<exists>salt. draw = Some salt \<and> (\<exists>x. run_argon2 h pw salt = Inr x \<and> run_argon2 h pw' salt = Inr x))"
proof -
  obtain salt hash where s: "draw = Some salt" "run_argon2 h pw salt = Inr hash"
    "res = \<lparr>hr_salt = BytesToHex salt, hr_verifier = BytesToHex hash\<rparr>"
    using assms by (auto simp: Hash_def GenerateRandomSalt_def split: option.splits sum.splits)
  then show ?thesis
    by (auto simp: Verify_def dest: BytesToHex_inj split: sum.split)
qed

section \<open>Operations\<close>

record RegisterRequest =
  rq_username :: string
  rq_password_derived_value :: string
  rq_device_id :: string
  rq_device_label :: string
  rq_identity_key_public :: string
  rq_signed_prekey_public :: string
  rq_signed_prekey_signature :: string
  rq_wrapped_sync_key :: string
  rq_sync_wrap_salt :: string
  rq_sync_wrap_params :: string

record RegisterResponse =
  rs_user_id :: UserId
  rs_tokens :: TokenPair
  rs_device_status :: string
  rs_sync_key_version :: int

record LoginRequest =
  lq_username :: string
  lq_password_derived_value :: string
  lq_device_id :: string
  lq_device_label :: string
  lq_identity_key_public :: string
  lq_signed_prekey_public :: string
  lq_signed_prekey_signature :: string

record LoginResponse =
  ls_user_id :: UserId
  ls_tokens :: TokenPair
  ls_device_status :: string
  ls_sync_key_version :: int

record RefreshRequest =
  fq_refresh_token :: string
  fq_device_id :: string

record ChangePasswordRequest =
  cq_current_password_derived_value :: string
  cq_new_password_derived_value :: string
  cq_wrapped_sync_key :: string
  cq_sync_wrap_salt :: string
  cq_sync_wrap_params :: string

text \<open>The dependencies of the service, and what one call draws from outside.\<close>

record AuthService =
  as_hasher :: PasswordHasher
  as_tokens :: TokenManager
  as_sqlite :: sqlite

record auth_draws =
  ad_now :: Timestamp
  ad_salt :: "byte_t list option"
  ad_user_id :: uuid_draw
  ad_device_id :: uuid_draw
  ad_tokens :: token_draws

definition registered_user :: "RegisterRequest \<Rightarrow> HashResult \<Rightarrow> auth_draws \<Rightarrow> UserRecord" where
  "registered_user request hash r =
     \<lparr>u_user_id = uuid (ad_user_id r), u_username = rq_username request,
      u_password_salt = hr_salt hash, u_password_verifier = hr_verifier hash,
      u_created_at = ad_now r, u_disabled_at = None, u_sync_key_version = 1,
      u_wrapped_sync_key = rq_wrapped_sync_key request,
      u_sync_wrap_salt = rq_sync_wrap_salt request,
      u_sync_wrap_params = rq_sync_wrap_params request\<rparr>"

definition register_device_id :: "RegisterRequest \<Rightarrow> auth_draws \<Rightarrow> DeviceId" where
  "register_device_id request r =
     (if rq_device_id request = [] then uuid (ad_device_id r) else rq_device_id request)"

definition registered_device :: "RegisterRequest \<Rightarrow> auth_draws \<Rightarrow> DeviceRecord" where
  "registered_device request r =
     \<lparr>d_device_id = register_device_id request r, d_user_id = uuid (ad_user_id r),
      d_identity_key_public = rq_identity_key_public request,
      d_signed_prekey_public = rq_signed_prekey_public request,
      d_signed_prekey_signature = rq_signed_prekey_signature request,
      d_last_prekey_refresh_at = None, d_client_protocol_version = 1,
      d_device_label = rq_device_label request,
      d_created_at = ad_now r, d_last_seen_at = ad_now r, d_revoked_at = None\<rparr>"

definition Register ::
    "AuthService \<Rightarrow> auth_draws \<Rightarrow> RegisterRequest \<Rightarrow> db \<Rightarrow> RegisterResponse Result \<times> db" where
  "Register as r request d =
     (if rq_username request = [] \<or> rq_password_derived_value request = []
      then (unexpected kInvalidArgument ''Username and password are required'', d)
      else if rq_wrapped_sync_key request = [] \<or> rq_sync_wrap_salt request = [] \<or>
              rq_sync_wrap_params request = []
      then (unexpected kInvalidArgument
              ''wrapped_sync_key, sync_wrap_salt, and sync_wrap_params are required'', d)
      else if rq_identity_key_public request = [] \<or> rq_signed_prekey_public request = [] \<or>
              rq_signed_prekey_signature request = []
      then (unexpected kInvalidArgument ''Device public key material is required'', d)
      else if FindByUsername (as_sqlite as) (rq_username request) d \<noteq> None
      then (unexpected kAlreadyExists ''Username already taken'', d)
      else and_then (Hash (as_hasher as) (ad_salt r) (rq_password_derived_value request), d) (\<lambda>hash d.
           and_then (CreateUser (registered_user request hash r) d) (\<lambda>_ d.
           and_then (RegisterDevice (registered_device request r) d) (\<lambda>_ d.
           and_then (IssueTokens (as_tokens as) (as_sqlite as) (ad_tokens r) (uuid (ad_user_id r))
                       (register_device_id request r) (ad_now r) d) (\<lambda>tokens d.
             (Inr \<lparr>rs_user_id = uuid (ad_user_id r), rs_tokens = tokens,
                   rs_device_status = ''created'', rs_sync_key_version = 1\<rparr>, d))))))"

definition login_device_id :: "LoginRequest \<Rightarrow> auth_draws \<Rightarrow> DeviceId" where
  "login_device_id request r =
     (if lq_device_id request = [] then uuid (ad_device_id r) else lq_device_id request)"

text \<open>
  The part of \<open>Login\<close> after the password check: an unknown device is registered, a known one
  has its \<open>last_seen_at\<close> updated; the result says which.
\<close>

definition login_device ::
    "auth_draws \<Rightarrow> LoginRequest \<Rightarrow> UserId \<Rightarrow> db \<Rightarrow> string Result \<times> db" where
  "login_device r request user_id d =
     (let device_id = login_device_id request r
      in case FindByUserAndDevice user_id device_id d of
           None \<Rightarrow>
             if lq_identity_key_public request = [] \<or> lq_signed_prekey_public request = [] \<or>
                lq_signed_prekey_signature request = []
             then (unexpected kInvalidArgument ''identity_key_public, signed_prekey_public, and signed_prekey_signature are required for a new device'', d)
             else and_then (RegisterDevice
                    \<lparr>d_device_id = device_id, d_user_id = user_id,
                     d_identity_key_public = lq_identity_key_public request,
                     d_signed_prekey_public = lq_signed_prekey_public request,
                     d_signed_prekey_signature = lq_signed_prekey_signature request,
                     d_last_prekey_refresh_at = None, d_client_protocol_version = 1,
                     d_device_label = lq_device_label request,
                     d_created_at = ad_now r, d_last_seen_at = ad_now r, d_revoked_at = None\<rparr> d)
                    (\<lambda>_ d. (Inr ''created'', d))
         | Some _ \<Rightarrow> and_then (UpdateLastSeen user_id device_id (ad_now r) d)
                       (\<lambda>_ d. (Inr ''existing'', d)))"

definition Login ::
    "AuthService \<Rightarrow> auth_draws \<Rightarrow> LoginRequest \<Rightarrow> db \<Rightarrow> LoginResponse Result option \<times> db" where
  "Login as r request d =
     (case FindByUsername (as_sqlite as) (lq_username request) d of
        None \<Rightarrow> (Some (unexpected kUnauthorized ''Invalid credentials''), d)
      | Some user \<Rightarrow>
          if u_disabled_at user \<noteq> None then (Some (unexpected kForbidden ''Account is disabled''), d)
          else (case Verify (as_hasher as) (lq_password_derived_value request)
                       (u_password_salt user) (u_password_verifier user) of
             None \<Rightarrow> (None, d)
           | Some False \<Rightarrow> (Some (unexpected kUnauthorized ''Invalid credentials''), d)
           | Some True \<Rightarrow> apfst Some
               (and_then (login_device r request (u_user_id user) d) (\<lambda>device_status d.
                and_then (IssueTokens (as_tokens as) (as_sqlite as) (ad_tokens r) (u_user_id user)
                            (login_device_id request r) (ad_now r) d) (\<lambda>tokens d.
                  (Inr \<lparr>ls_user_id = u_user_id user, ls_tokens = tokens,
                        ls_device_status = device_status,
                        ls_sync_key_version = u_sync_key_version user\<rparr>, d))))))"

definition Logout :: "string \<Rightarrow> Timestamp \<Rightarrow> db \<Rightarrow> VoidResult \<times> db" where
  "Logout session_id now d = Token_RevokeSession session_id now d"

definition LogoutWithAccessToken :: "AuthService \<Rightarrow> string \<Rightarrow> Timestamp \<Rightarrow> db \<Rightarrow> VoidResult \<times> db" where
  "LogoutWithAccessToken as access_token now d =
     RevokeByAccessToken (as_tokens as) access_token now d"

definition Refresh ::
    "AuthService \<Rightarrow> token_draws \<Rightarrow> RefreshRequest \<Rightarrow> Timestamp \<Rightarrow> db \<Rightarrow> TokenPair Result \<times> db" where
  "Refresh as r request now d =
     and_then (RefreshTokens (as_tokens as) (as_sqlite as) r (fq_refresh_token request)
                 (fq_device_id request) now d) (\<lambda>result d.
     and_then (UpdateLastSeen (rr_user_id result) (fq_device_id request) now d) (\<lambda>_ d.
       (Inr (rr_tokens result), d)))"

definition ChangePassword ::
    "AuthService \<Rightarrow> byte_t list option \<Rightarrow> UserId \<Rightarrow> ChangePasswordRequest \<Rightarrow> db \<Rightarrow>
     int Result option \<times> db" where
  "ChangePassword as salt user_id request d =
     (case User_FindById user_id d of
        None \<Rightarrow> (Some (unexpected kNotFound ''User not found''), d)
      | Some user \<Rightarrow>
          if cq_wrapped_sync_key request = [] \<or> cq_sync_wrap_salt request = [] \<or>
             cq_sync_wrap_params request = []
          then (Some (unexpected kInvalidArgument
                 ''wrapped_sync_key, sync_wrap_salt, and sync_wrap_params are required''), d)
          else (case Verify (as_hasher as) (cq_current_password_derived_value request)
                       (u_password_salt user) (u_password_verifier user) of
             None \<Rightarrow> (None, d)
           | Some False \<Rightarrow> (Some (unexpected kUnauthorized ''Invalid credentials''), d)
           | Some True \<Rightarrow> apfst Some
               (and_then (Hash (as_hasher as) salt (cq_new_password_derived_value request), d) (\<lambda>hash d.
                and_then (UpdatePasswordCredentials user_id (hr_salt hash) (hr_verifier hash) d) (\<lambda>_ d.
                  let new_ver = i32 (u_sync_key_version user + 1)
                  in and_then (SetSyncKeyBundle user_id
                           \<lparr>sb_sync_key_version = new_ver,
                            sb_wrapped_sync_key = cq_wrapped_sync_key request,
                            sb_sync_wrap_salt = cq_sync_wrap_salt request,
                            sb_sync_wrap_params = cq_sync_wrap_params request\<rparr> d) (\<lambda>_ d.
                       (Inr new_ver, d)))))))"

section \<open>Constraints kept\<close>

lemma Register_keeps [keeps]: "db_ok d \<Longrightarrow> db_ok (snd (Register as r request d))"
  by (simp add: Register_def keeps db_ok_and_then)

lemma login_device_keeps [keeps]: "db_ok d \<Longrightarrow> db_ok (snd (login_device r request u d))"
  by (simp add: login_device_def Let_def keeps db_ok_and_then split: option.split)

lemma Login_keeps [keeps]: "db_ok d \<Longrightarrow> db_ok (snd (Login as r request d))"
  by (simp add: Login_def keeps db_ok_and_then split: option.split bool.split)

lemma Logout_keeps [keeps]:
  "db_ok d \<Longrightarrow> db_ok (snd (Logout s now d))" "db_ok d \<Longrightarrow> db_ok (snd (LogoutWithAccessToken as t now d))"
  by (simp_all add: Logout_def LogoutWithAccessToken_def Token_RevokeSession_def keeps)

lemma Refresh_keeps [keeps]: "db_ok d \<Longrightarrow> db_ok (snd (Refresh as r request now d))"
  by (simp add: Refresh_def keeps db_ok_and_then)

lemma ChangePassword_keeps [keeps]: "db_ok d \<Longrightarrow> db_ok (snd (ChangePassword as salt u request d))"
  by (simp add: ChangePassword_def Let_def keeps db_ok_and_then split: option.split bool.split)

section \<open>Registration\<close>

lemma register_device_id_nonempty: "register_device_id request r \<noteq> []"
  using length_GenerateUuid [of "fst (ad_device_id r)" "snd (ad_device_id r)"]
  by (auto simp: register_device_id_def simp del: length_GenerateUuid)

text \<open>A user that does not exist has no devices, so the first device is always accepted.\<close>

lemma RegisterDevice_new_user:
  assumes "db_ok d" and "d_user_id v \<notin> set (user_keys d)" and "u_user_id u = d_user_id v"
  shows "RegisterDevice v (d\<lparr>users := users d @ [u]\<rparr>) =
    (Inr (), d\<lparr>users := users d @ [u], devices := devices d @ [v]\<rparr>)"
proof -
  have "set (map d_user_id (devices d)) \<subseteq> set (user_keys d)"
    using assms(1) by (simp add: db_ok_def devices_ok_def)
  then have "dev_key v \<notin> set (device_keys d)"
    using assms(2) by (auto simp: dev_key_def)
  then show ?thesis using assms(3) by (simp add: RegisterDevice_def insert_device_def)
qed

definition after_register :: "RegisterRequest \<Rightarrow> HashResult \<Rightarrow> auth_draws \<Rightarrow> db \<Rightarrow> db" where
  "after_register request hash r d =
     d\<lparr>users := users d @ [registered_user request hash r],
       devices := devices d @ [registered_device request r]\<rparr>"

lemma Register_unfold:
  assumes ok: "db_ok d"
  shows "(\<exists>e. Register as r request d = (Inl e, d)) \<or>
    (\<exists>hash. Hash (as_hasher as) (ad_salt r) (rq_password_derived_value request) = Inr hash \<and>
       uuid (ad_user_id r) \<notin> set (user_keys d) \<and>
       (\<forall>v \<in> set (users d). \<not> same_username (rq_username request) v) \<and>
       Register as r request d = and_then (IssueTokens (as_tokens as) (as_sqlite as) (ad_tokens r)
          (uuid (ad_user_id r)) (register_device_id request r) (ad_now r)
          (after_register request hash r d)) (\<lambda>tokens d.
            (Inr \<lparr>rs_user_id = uuid (ad_user_id r), rs_tokens = tokens,
                  rs_device_status = ''created'', rs_sync_key_version = 1\<rparr>, d)))"
proof (cases "Hash (as_hasher as) (ad_salt r) (rq_password_derived_value request)")
  case (Inl e)
  then show ?thesis by (simp add: Register_def unexpected_def)
next
  case (Inr hash)
  let ?u = "registered_user request hash r" and ?v = "registered_device request r"
  obtain rc dc where c: "CreateUser ?u d = (rc, dc)" by (rule prod.exhaust)
  from ok c show ?thesis
  proof (cases rule: CreateUser_cases)
    case taken
    then show ?thesis using c Inr by (simp add: Register_def unexpected_def)
  next
    case created
    have dc: "dc = d\<lparr>users := users d @ [?u]\<rparr>"
      using created by (simp add: registered_user_def)
    have "RegisterDevice ?v dc = (Inr (), after_register request hash r d)"
      unfolding dc after_register_def
      using created by (intro RegisterDevice_new_user [OF ok])
        (simp_all add: registered_user_def registered_device_def)
    with c created Inr show ?thesis
      by (simp add: Register_def unexpected_def) (simp add: registered_user_def)
  qed
qed

text \<open>
  Registration is all or nothing up to the session. A successful \<open>Register\<close> adds exactly
  one user, that user's one device and one session, to a name that no account had in any
  capitalisation; a failed one leaves the database unchanged, unless a freshly drawn session
  identifier or token hash was already in use, when the user and the device exist without a
  session.
\<close>

theorem Register_effect:
  assumes "db_ok d"
  shows "case Register as r request d of
      (Inr resp, d') \<Rightarrow>
        (\<exists>hash. Hash (as_hasher as) (ad_salt r) (rq_password_derived_value request) = Inr hash \<and>
           d' = d\<lparr>users := users d @ [registered_user request hash r],
                  devices := devices d @ [registered_device request r],
                  sessions := sessions d @ [new_session (as_tokens as) (ad_tokens r) (rs_user_id resp)
                    (register_device_id request r) (ad_now r)]\<rparr>) \<and>
        (\<forall>v \<in> set (users d). nocase (u_username v) \<noteq> nocase (rq_username request)) \<and>
        rs_user_id resp \<notin> set (user_keys d)
    | (Inl e, d') \<Rightarrow> d' = d \<or>
        (err_code e = kInternal \<and> users d' \<noteq> users d \<and> sessions d' = sessions d \<and>
         (uuid (draw_session (ad_tokens r)) \<in> set (map s_session_id (sessions d)) \<or>
          used_access_hash (HashToken (as_tokens as) (GenerateToken (draw_access (ad_tokens r)))) d \<or>
          used_refresh_hash (HashToken (as_tokens as) (GenerateToken (draw_refresh (ad_tokens r)))) d))"
  using Register_unfold [OF assms, of as r request]
proof (elim disjE exE conjE)
  fix e assume "Register as r request d = (Inl e, d)"
  then show ?thesis by simp
next
  fix hash
  let ?d1 = "after_register request hash r d"
  let ?n = "new_session (as_tokens as) (ad_tokens r) (uuid (ad_user_id r)) (register_device_id request r) (ad_now r)"
  assume h: "Hash (as_hasher as) (ad_salt r) (rq_password_derived_value request) = Inr hash"
    and new: "uuid (ad_user_id r) \<notin> set (user_keys d)"
    and name: "\<forall>v \<in> set (users d). \<not> same_username (rq_username request) v"
    and reg: "Register as r request d = and_then (IssueTokens (as_tokens as) (as_sqlite as) (ad_tokens r)
          (uuid (ad_user_id r)) (register_device_id request r) (ad_now r) ?d1) (\<lambda>tokens d.
            (Inr \<lparr>rs_user_id = uuid (ad_user_id r), rs_tokens = tokens,
                  rs_device_status = ''created'', rs_sync_key_version = 1\<rparr>, d))"
  obtain rc dc where c: "CreateSession (as_sqlite as) ?n ?d1 = (rc, dc)" by (rule prod.exhaust)
  show ?thesis
  proof (cases rc)
    case (Inl e)
    then have "fst (CreateSession (as_sqlite as) ?n ?d1) = Inl e" using c by simp
    note fail = CreateSession_fails [OF this]
    have "uuid (draw_session (ad_tokens r)) = s_session_id ?n" by (simp add: new_session_def)
    with fail c Inl reg show ?thesis
      by (simp add: IssueTokens_def after_register_def registered_user_def registered_device_def
          dev_key_def used_access_hash_def used_refresh_hash_def)
  next
    case (Inr x)
    then have ok: "fst (CreateSession (as_sqlite as) ?n ?d1) = Inr ()" using c by simp
    have "dc = ?d1\<lparr>sessions := sessions ?d1 @ [?n]\<rparr>"
      using CreateSession_success(1) [OF ok] c by simp
    with Inr c reg h new name show ?thesis
      by (simp add: IssueTokens_def after_register_def same_username_def)
  qed
qed

text \<open>A concrete service: an Argon2id that returns the bytes of the password.\<close>

definition sample_as :: AuthService where
  "sample_as = \<lparr>as_hasher = \<lparr>time_cost = 3, memory_cost = 65536, parallelism = 1,
       lib = \<lparr>argon2id_hash_raw = (\<lambda>t m p pw salt. Inr (string_bytes pw @ salt)),
              argon2_error_message = (\<lambda>_. ''error'')\<rparr>\<rparr>,
     as_tokens = sample_tm, as_sqlite = rowid_order\<rparr>"

definition sample_ad :: auth_draws where
  "sample_ad = \<lparr>ad_now = 100, ad_salt = Some [1, 2], ad_user_id = (11, 12), ad_device_id = (13, 14),
     ad_tokens = sample_draws\<rparr>"

definition sample_register :: RegisterRequest where
  "sample_register = \<lparr>rq_username = ''Carol'', rq_password_derived_value = ''pw'',
     rq_device_id = ''tablet'', rq_device_label = '''', rq_identity_key_public = ''ik'',
     rq_signed_prekey_public = ''sk'', rq_signed_prekey_signature = ''sig'',
     rq_wrapped_sync_key = ''w'', rq_sync_wrap_salt = ''s'', rq_sync_wrap_params = ''p''\<rparr>"

lemma sample_sel [simp]:
  "as_tokens sample_as = sample_tm" "as_sqlite sample_as = rowid_order"
  "ad_now sample_ad = 100" "ad_salt sample_ad = Some [1, 2]" "ad_tokens sample_ad = sample_draws"
  "rq_username sample_register = ''Carol''" "rq_device_id sample_register = ''tablet''"
  "rq_password_derived_value sample_register = ''pw''"
  "run_argon2 (as_hasher sample_as) pw salt = Inr (string_bytes pw @ salt)"
  by (simp_all add: sample_as_def sample_ad_def sample_register_def run_argon2_def)

lemma sample_register_ok:
  "\<exists>resp. Register sample_as sample_ad sample_register CreateSchema =
     (Inr resp, snd (Register sample_as sample_ad sample_register CreateSchema)) \<and>
     rs_user_id resp = uuid (ad_user_id sample_ad)"
proof -
  have "Hash (as_hasher sample_as) (ad_salt sample_ad) ''pw'' =
      Inr \<lparr>hr_salt = BytesToHex [1, 2], hr_verifier = BytesToHex (string_bytes ''pw'' @ [1, 2])\<rparr>"
    by (simp add: Hash_def GenerateRandomSalt_def)
  moreover have "scan_users rowid_order t = t" for t by (simp add: rowid_order_def)
  ultimately show ?thesis
    by (simp add: Register_def sample_register_def FindByUsername_def CreateSchema_def CreateUser_def
        insert_user_def RegisterDevice_def insert_device_def registered_user_def registered_device_def
        IssueTokens_def CreateSession_def insert_session_def dev_key_def register_device_id_def)
qed

theorem Register_effect_witness:
  "let d' = snd (Register sample_as sample_ad sample_register CreateSchema)
   in length (users d') = 1 \<and> length (devices d') = 1 \<and> length (sessions d') = 1"
proof -
  obtain resp where resp: "Register sample_as sample_ad sample_register CreateSchema =
      (Inr resp, snd (Register sample_as sample_ad sample_register CreateSchema))"
    using sample_register_ok by blast
  show ?thesis
    using Register_effect [OF CreateSchema_ok, of sample_ad sample_as sample_register]
    by (subst (asm) resp) (auto simp: Let_def CreateSchema_def)
qed

section \<open>Login\<close>

lemma Register_success:
  assumes "db_ok d" and "fst (Register as r request d) = Inr resp"
  obtains hash n where
    "Hash (as_hasher as) (ad_salt r) (rq_password_derived_value request) = Inr hash"
    "snd (Register as r request d) = (after_register request hash r d)\<lparr>sessions := sessions d @ [n]\<rparr>"
    "rs_user_id resp = uuid (ad_user_id r)"
  using Register_unfold [OF assms(1), of as r request]
proof (elim disjE exE conjE)
  fix e assume "Register as r request d = (Inl e, d)"
  with assms(2) show thesis by simp
next
  fix hash
  let ?n = "new_session (as_tokens as) (ad_tokens r) (uuid (ad_user_id r)) (register_device_id request r) (ad_now r)"
  assume h: "Hash (as_hasher as) (ad_salt r) (rq_password_derived_value request) = Inr hash"
    and reg: "Register as r request d = and_then (IssueTokens (as_tokens as) (as_sqlite as) (ad_tokens r)
          (uuid (ad_user_id r)) (register_device_id request r) (ad_now r)
          (after_register request hash r d)) (\<lambda>tokens d.
            (Inr \<lparr>rs_user_id = uuid (ad_user_id r), rs_tokens = tokens,
                  rs_device_status = ''created'', rs_sync_key_version = 1\<rparr>, d))"
  obtain p where p: "fst (IssueTokens (as_tokens as) (as_sqlite as) (ad_tokens r)
      (uuid (ad_user_id r)) (register_device_id request r) (ad_now r) (after_register request hash r d)) = Inr p"
      "resp = \<lparr>rs_user_id = uuid (ad_user_id r), rs_tokens = p, rs_device_status = ''created'',
        rs_sync_key_version = 1\<rparr>"
    using assms(2) unfolding reg by (auto simp: fst_and_then_Inr)
  then have ok: "fst (CreateSession (as_sqlite as) ?n (after_register request hash r d)) = Inr ()"
    by (simp add: IssueTokens_Inr)
  have "snd (Register as r request d) = snd (CreateSession (as_sqlite as) ?n (after_register request hash r d))"
    using p unfolding reg by (simp add: snd_and_then snd_IssueTokens)
  also have "\<dots> = (after_register request hash r d)\<lparr>sessions := sessions d @ [?n]\<rparr>"
    unfolding CreateSession_success(1) [OF ok] by (simp add: after_register_def)
  finally show thesis using that h p(2) by simp
qed

text \<open>
  C2: The account that \<open>Register\<close> creates can log in from its device under any capitalisation
  of its name with exactly the passwords that Argon2id hashes, under the stored salt, to the
  same bytes as the registered one: those reach the issue of tokens for that user and device,
  with status "existing" and sync key version 1, and every other password is refused with
  \<open>kUnauthorized\<close> and no effect.
\<close>

theorem Login_after_Register:
  assumes "db_ok d" and "sqlite_ok (as_sqlite as)" and "fst (Register as r request d) = Inr resp"
    and "nocase (lq_username lr) = nocase (rq_username request)"
    and "lq_device_id lr = register_device_id request r"
  shows "let d1 = snd (Register as r request d);
      same = (\<exists>salt x. ad_salt r = Some salt \<and>
        run_argon2 (as_hasher as) (rq_password_derived_value request) salt = Inr x \<and>
        run_argon2 (as_hasher as) (lq_password_derived_value lr) salt = Inr x)
    in Login as r2 lr d1 =
      (if same
       then apfst Some (and_then (IssueTokens (as_tokens as) (as_sqlite as) (ad_tokens r2)
              (rs_user_id resp) (lq_device_id lr) (ad_now r2)
              (snd (UpdateLastSeen (rs_user_id resp) (lq_device_id lr) (ad_now r2) d1)))
              (\<lambda>tokens d. (Inr \<lparr>ls_user_id = rs_user_id resp, ls_tokens = tokens,
                 ls_device_status = ''existing'', ls_sync_key_version = 1\<rparr>, d)))
       else (Some (unexpected kUnauthorized ''Invalid credentials''), d1))"
proof -
  define d1 where "d1 = snd (Register as r request d)"
  from assms(1,3) obtain hash n where
    h: "Hash (as_hasher as) (ad_salt r) (rq_password_derived_value request) = Inr hash"
    and d1: "d1 = (after_register request hash r d)\<lparr>sessions := sessions d @ [n]\<rparr>"
    and uid: "rs_user_id resp = uuid (ad_user_id r)"
    unfolding d1_def by (rule Register_success)
  let ?u = "registered_user request hash r" and ?v = "registered_device request r"
  have ok: "db_ok d1" unfolding d1_def using assms(1) by (rule Register_keeps)
  have "?u \<in> set (users d1)" by (simp add: d1 after_register_def)
  then have user: "FindByUsername (as_sqlite as) (lq_username lr) d1 = Some ?u"
    unfolding FindByUsername_iff [OF ok assms(2)] using assms(4)
    by (simp add: same_username_def registered_user_def)
  have "?v \<in> set (devices d1)" by (simp add: d1 after_register_def)
  then have dev: "FindByUserAndDevice (uuid (ad_user_id r)) (register_device_id request r) d1 = Some ?v"
    unfolding FindByUserAndDevice_iff [OF ok] by (simp add: registered_device_def)
  have id: "login_device_id lr r2 = register_device_id request r"
    using assms(5) register_device_id_nonempty [of request r] by (simp add: login_device_id_def)
  have verify: "Verify (as_hasher as) pw (u_password_salt ?u) (u_password_verifier ?u) =
      Some (\<exists>salt x. ad_salt r = Some salt \<and>
        run_argon2 (as_hasher as) (rq_password_derived_value request) salt = Inr x \<and>
        run_argon2 (as_hasher as) pw salt = Inr x)" for pw
    using Verify_Hash [OF h, of pw] by (simp add: registered_user_def)
  have sel: "u_disabled_at ?u = None" "u_user_id ?u = uuid (ad_user_id r)" "u_sync_key_version ?u = 1"
    by (simp_all add: registered_user_def)
  have step: "login_device r2 lr (uuid (ad_user_id r)) d1 = (Inr ''existing'',
      snd (UpdateLastSeen (uuid (ad_user_id r)) (register_device_id request r) (ad_now r2) d1))"
    by (simp add: login_device_def id dev Let_def UpdateLastSeen_def)
  show ?thesis
    unfolding d1_def [symmetric] Let_def Login_def user option.case sel verify
    by (simp only: bool.case_eq_if step id uid assms(5) and_then_simps simp_thms if_True if_False)
qed

definition sample_login :: "string \<Rightarrow> LoginRequest" where
  "sample_login pw = \<lparr>lq_username = ''CAROL'', lq_password_derived_value = pw, lq_device_id = ''tablet'',
     lq_device_label = '''', lq_identity_key_public = '''', lq_signed_prekey_public = '''',
     lq_signed_prekey_signature = ''''\<rparr>"

theorem Login_after_Register_witness:
  "let d = snd (Register sample_as sample_ad sample_register CreateSchema)
   in Login sample_as sample_ad (sample_login ''no'') d =
        (Some (unexpected kUnauthorized ''Invalid credentials''), d)"
proof -
  obtain resp where resp: "fst (Register sample_as sample_ad sample_register CreateSchema) = Inr resp"
    using sample_register_ok by (metis fst_conv)
  have "nocase ''CAROL'' = nocase ''Carol''" "string_bytes ''pw'' \<noteq> string_bytes ''no''"
    by code_simp+
  then show ?thesis
    using Login_after_Register [of CreateSchema sample_as sample_ad sample_register, OF _ _ resp,
        of "sample_login ''no''" sample_ad]
    by (simp add: sample_login_def register_device_id_def Let_def)
qed

section \<open>Changing the password\<close>

definition changed_user ::
    "ChangePasswordRequest \<Rightarrow> HashResult \<Rightarrow> UserRecord \<Rightarrow> UserRecord" where
  "changed_user request hash u =
     u\<lparr>u_password_salt := hr_salt hash, u_password_verifier := hr_verifier hash,
       u_sync_key_version := i32 (u_sync_key_version u + 1),
       u_wrapped_sync_key := cq_wrapped_sync_key request,
       u_sync_wrap_salt := cq_sync_wrap_salt request,
       u_sync_wrap_params := cq_sync_wrap_params request\<rparr>"

lemma update_known_user:
  assumes "User_FindById i d = Some u"
  shows "fst (UpdatePasswordCredentials i s v d) = Inr ()" "fst (SetSyncKeyBundle i b d) = Inr ()"
proof -
  have "u \<in> set (users d)" "u_user_id u = i" using User_FindById_Some [OF assms] by simp_all
  then have "sql_count (\<lambda>u. u_user_id u = i) (users d) \<noteq> 0" by (auto simp: sql_count_0)
  then show "fst (UpdatePasswordCredentials i s v d) = Inr ()" "fst (SetSyncKeyBundle i b d) = Inr ()"
    by (simp_all add: UpdatePasswordCredentials_def SetSyncKeyBundle_def Let_def)
qed

lemma find_after_update:
  "User_FindById i (snd (UpdatePasswordCredentials j s v d)) =
     map_option (\<lambda>u. if i = j then u\<lparr>u_password_salt := s, u_password_verifier := v\<rparr> else u)
       (User_FindById i d)"
  "User_FindById i (snd (SetSyncKeyBundle j b d)) =
     map_option (\<lambda>u. if i = j then u\<lparr>u_sync_key_version := sb_sync_key_version b,
        u_wrapped_sync_key := sb_wrapped_sync_key b, u_sync_wrap_salt := sb_sync_wrap_salt b,
        u_sync_wrap_params := sb_sync_wrap_params b\<rparr> else u) (User_FindById i d)"
  by (simp_all add: UpdatePasswordCredentials_def SetSyncKeyBundle_def Let_def User_FindById_update)

lemma ChangePassword_result:
  assumes "ChangePassword as salt i request d = (res, d')"
  shows "case res of
      Some (Inr ver) \<Rightarrow> (\<exists>u hash.
        User_FindById i d = Some u \<and>
        Verify (as_hasher as) (cq_current_password_derived_value request)
          (u_password_salt u) (u_password_verifier u) = Some True \<and>
        Hash (as_hasher as) salt (cq_new_password_derived_value request) = Inr hash \<and>
        ver = i32 (u_sync_key_version u + 1) \<and> sessions d' = sessions d \<and>
        (\<forall>j. User_FindById j d' =
           (if j = i then Some (changed_user request hash u) else User_FindById j d)) \<and>
        (\<forall>pw. Verify (as_hasher as) pw (hr_salt hash) (hr_verifier hash) =
           Some (\<exists>s x. salt = Some s \<and>
             run_argon2 (as_hasher as) (cq_new_password_derived_value request) s = Inr x \<and>
             run_argon2 (as_hasher as) pw s = Inr x)))
    | _ \<Rightarrow> d' = d"
proof (cases "\<exists>u. User_FindById i d = Some u \<and>
    \<not> (cq_wrapped_sync_key request = [] \<or> cq_sync_wrap_salt request = [] \<or> cq_sync_wrap_params request = []) \<and>
    Verify (as_hasher as) (cq_current_password_derived_value request) (u_password_salt u)
      (u_password_verifier u) = Some True")
  case False
  then have "d' = d \<and> (\<forall>v. res \<noteq> Some (Inr v))"
    using assms by (simp add: ChangePassword_def split: option.splits if_splits bool.splits) auto
  then show ?thesis by (auto split: option.split sum.split)
next
  case True
  then obtain u where u: "User_FindById i d = Some u"
    and ok: "\<not> (cq_wrapped_sync_key request = [] \<or> cq_sync_wrap_salt request = [] \<or> cq_sync_wrap_params request = [])"
    and v: "Verify (as_hasher as) (cq_current_password_derived_value request) (u_password_salt u)
      (u_password_verifier u) = Some True" by blast
  show ?thesis
  proof (cases "Hash (as_hasher as) salt (cq_new_password_derived_value request)")
    case (Inl e)
    then have "res = Some (Inl e) \<and> d' = d" using assms u ok v by (simp add: ChangePassword_def)
    then show ?thesis by simp
  next
    case (Inr hash)
    define d1 where "d1 = snd (UpdatePasswordCredentials i (hr_salt hash) (hr_verifier hash) d)"
    let ?b = "\<lparr>sb_sync_key_version = i32 (u_sync_key_version u + 1),
      sb_wrapped_sync_key = cq_wrapped_sync_key request, sb_sync_wrap_salt = cq_sync_wrap_salt request,
      sb_sync_wrap_params = cq_sync_wrap_params request\<rparr>"
    define d2 where "d2 = snd (SetSyncKeyBundle i ?b d1)"
    have s1: "UpdatePasswordCredentials i (hr_salt hash) (hr_verifier hash) d = (Inr (), d1)"
      using update_known_user(1) [OF u] by (simp add: d1_def prod_eq_iff)
    have "User_FindById i d1 = Some (u\<lparr>u_password_salt := hr_salt hash, u_password_verifier := hr_verifier hash\<rparr>)"
      by (simp add: d1_def find_after_update u)
    from update_known_user(2) [OF this, of ?b]
    have s2: "SetSyncKeyBundle i ?b d1 = (Inr (), d2)"
      by (simp add: prod_eq_iff d2_def)
    have eq: "res = Some (Inr (i32 (u_sync_key_version u + 1)))" "d' = snd (SetSyncKeyBundle i ?b d1)"
      using assms u ok v Inr s1 s2 by (simp_all add: ChangePassword_def Let_def)
    have "User_FindById j d' =
        (if j = i then Some (changed_user request hash u) else User_FindById j d)" for j
      unfolding eq(2) find_after_update d1_def using u
      by (simp add: changed_user_def option.map_comp comp_def option.map_ident)
    moreover have "sessions d' = sessions d"
      unfolding eq(2) d1_def by (simp add: SetSyncKeyBundle_def UpdatePasswordCredentials_def Let_def)
    ultimately show ?thesis using eq u v Inr Verify_Hash [OF Inr] by simp
  qed
qed


end
