(* ===== verification/Rate_Limiter.thy ===== *)
theory Rate_Limiter
  imports Shard_Map
begin

text \<open>
  \<open>AuthRateLimiter\<close> (\<open>lib/vox_net/rate_limiter.cpp\<close>), the fixed-window limiter that guards the
  authentication routes per client address and, under the name \<open>AccountRateLimiter\<close>, the heavy
  routes per account. A reading of the steady clock is an argument, in nanoseconds. Calls are
  serialised by the mutex, so a history of the limiter is a list of calls. The lemmas count how
  many calls of a key a limiter accepts.
\<close>

section \<open>The limiter\<close>

record WindowState =
  window_start :: int
  win_count :: nat

record AuthRateLimiter =
  rl_max_events :: nat
  rl_window :: int
  rl_by_key :: "(string, WindowState) unordered_map"

definition AuthRateLimiter_new :: "nat \<Rightarrow> int \<Rightarrow> AuthRateLimiter" where
  "AuthRateLimiter_new max_events_per_window window =
     \<lparr>rl_max_events = max_events_per_window, rl_window = window, rl_by_key = []\<rparr>"

text \<open>\<open>std::chrono::seconds\<close> compared with a difference of two readings of the clock.\<close>

definition window_ns :: "AuthRateLimiter \<Rightarrow> int" where
  "window_ns rl = rl_window rl * 1000000000"

definition Allow :: "string \<Rightarrow> int \<Rightarrow> AuthRateLimiter \<Rightarrow> bool \<times> AuthRateLimiter" where
  "Allow client_key now rl =
     (let w = (case umap_find client_key (rl_by_key rl) of
                 None \<Rightarrow> \<lparr>window_start = 0, win_count = 0\<rparr> | Some w \<Rightarrow> w);
          keep = (\<lambda>w. rl\<lparr>rl_by_key := umap_store client_key w (rl_by_key rl)\<rparr>)
      in if win_count w = 0 then (True, keep \<lparr>window_start = now, win_count = 1\<rparr>)
         else if now - window_start w \<ge> window_ns rl
         then (True, keep \<lparr>window_start = now, win_count = 1\<rparr>)
         else if win_count w \<ge> rl_max_events rl then (False, keep w)
         else (True, keep (w\<lparr>win_count := win_count w + 1\<rparr>)))"

section \<open>How many calls are accepted\<close>

definition limiter_ok :: "AuthRateLimiter \<Rightarrow> bool" where
  "limiter_ok rl \<longleftrightarrow> umap_ok (rl_by_key rl) \<and> (\<forall>k w. umap_find k (rl_by_key rl) = Some w \<longrightarrow> 0 < win_count w)"

text \<open>The number of accepted calls for a key in a list of calls, each a time and a key.\<close>

fun accepted :: "string \<Rightarrow> (int \<times> string) list \<Rightarrow> AuthRateLimiter \<Rightarrow> nat" where
  "accepted k [] rl = 0"
| "accepted k ((now, client_key) # es) rl =
     (if client_key = k \<and> fst (Allow client_key now rl) then 1 else 0) +
     accepted k es (snd (Allow client_key now rl))"

definition calls :: "string \<Rightarrow> (int \<times> string) list \<Rightarrow> nat" where
  "calls k es = length (filter (\<lambda>e. snd e = k) es)"

lemma calls_simps [simp]: "calls k [] = 0" "calls k (e # es) = (if snd e = k then 1 else 0) + calls k es"
  by (simp_all add: calls_def)

lemma limiter_ok_new [simp]: "limiter_ok (AuthRateLimiter_new n w)"
  by (simp add: limiter_ok_def AuthRateLimiter_new_def umap_defs)

lemma Allow_same [simp]:
  "limiter_ok rl \<Longrightarrow> limiter_ok (snd (Allow k now rl))"
  "rl_max_events (snd (Allow k now rl)) = rl_max_events rl"
  "window_ns (snd (Allow k now rl)) = window_ns rl"
  by (auto simp: Allow_def Let_def limiter_ok_def window_ns_def umap.valid_store umap.find_store split: option.splits)

lemma Allow_other:
  "limiter_ok rl \<Longrightarrow> k' \<noteq> k \<Longrightarrow> umap_find k (rl_by_key (snd (Allow k' now rl))) = umap_find k (rl_by_key rl)"
  by (auto simp: Allow_def Let_def limiter_ok_def umap.find_store)

text \<open>The first call of a key, and one after its window, open a window.\<close>

lemma Allow_opens:
  assumes "limiter_ok rl"
    and "umap_find k (rl_by_key rl) = None \<or> (\<exists>w. umap_find k (rl_by_key rl) = Some w \<and>
      window_ns rl \<le> now - window_start w)"
  shows "fst (Allow k now rl)"
    "umap_find k (rl_by_key (snd (Allow k now rl))) = Some \<lparr>window_start = now, win_count = 1\<rparr>"
  using assms by (auto simp: Allow_def Let_def limiter_ok_def umap.find_store)

lemma Allow_within:
  assumes "limiter_ok rl" and "umap_find k (rl_by_key rl) = Some w"
    and "0 < win_count w" "now - window_start w < window_ns rl"
  shows "fst (Allow k now rl) \<longleftrightarrow> win_count w < rl_max_events rl"
    "umap_find k (rl_by_key (snd (Allow k now rl))) =
      Some (if win_count w < rl_max_events rl then w\<lparr>win_count := win_count w + 1\<rparr> else w)"
proof -
  have "umap_ok (rl_by_key rl)" using assms(1) by (simp add: limiter_ok_def)
  then show "fst (Allow k now rl) \<longleftrightarrow> win_count w < rl_max_events rl"
    "umap_find k (rl_by_key (snd (Allow k now rl))) =
      Some (if win_count w < rl_max_events rl then w\<lparr>win_count := win_count w + 1\<rparr> else w)"
    using assms(2-4) by (auto simp: Allow_def Let_def umap.find_store)
qed

text \<open>In an open window, as many calls pass as the limit leaves.\<close>

lemma accepted_within:
  assumes "limiter_ok rl" and "umap_find k (rl_by_key rl) = Some w" and "0 < win_count w"
    and "\<forall>e \<in> set es. fst e - window_start w < window_ns rl"
  shows "accepted k es rl = min (calls k es) (rl_max_events rl - win_count w)"
  using assms
proof (induction es arbitrary: rl w)
  case (Cons e es)
  obtain now k' where e: "e = (now, k')" by (cases e)
  show ?case
  proof (cases "k' = k")
    case True
    note a = Allow_within [OF Cons.prems(1-3), of now]
    have t: "now - window_start w < window_ns rl" using Cons.prems(4) e by simp
    show ?thesis
      using Cons.IH [OF Allow_same(1) [OF Cons.prems(1)] a(2) [OF t]] Cons.prems a(1) [OF t] True
      by (auto simp: e)
  next
    case False
    then show ?thesis
      using Cons.IH [of "snd (Allow k' now rl)" w] Cons.prems Allow_other [OF Cons.prems(1) False, of now]
      by (auto simp: e)
  qed
qed simp

text \<open>A stretch of calls no longer than the window opens at most one window.\<close>

lemma accepted_opens:
  assumes "limiter_ok rl" and "\<forall>e \<in> set es. t \<le> fst e \<and> fst e < t + window_ns rl"
    and "t \<le> now" "umap_find k (rl_by_key rl) = Some \<lparr>window_start = now, win_count = 1\<rparr>"
  shows "accepted k es rl = min (calls k es) (rl_max_events rl - 1)"
proof -
  have "\<forall>e \<in> set es. fst e - now < window_ns rl" using assms(2,3) by auto
  then show ?thesis using accepted_within [OF assms(1,4)] by simp
qed

lemma accepted_fresh:
  assumes "limiter_ok rl" and "\<forall>e \<in> set es. t \<le> fst e \<and> fst e < t + window_ns rl"
    and "umap_find k (rl_by_key rl) = None"
  shows "accepted k es rl = min (calls k es) (max 1 (rl_max_events rl))"
  using assms
proof (induction es arbitrary: rl)
  case (Cons e es)
  obtain now k' where e: "e = (now, k')" by (cases e)
  show ?case
  proof (cases "k' = k")
    case True
    note a = Allow_opens [OF Cons.prems(1), of k now]
    have "accepted k es (snd (Allow k now rl)) = min (calls k es) (rl_max_events rl - 1)"
      using Cons.prems a(2) accepted_opens [of "snd (Allow k now rl)" es t now k] by (simp add: e)
    then show ?thesis using a(1) Cons.prems(3) True by (auto simp: e min_def max_def)
  next
    case False
    then show ?thesis
      using Cons.IH [of "snd (Allow k' now rl)"] Cons.prems Allow_other [OF Cons.prems(1) False, of now]
      by (simp add: e)
  qed
qed simp

lemma accepted_at_most:
  assumes "limiter_ok rl" and "\<forall>e \<in> set es. t \<le> fst e \<and> fst e < t + window_ns rl"
  shows "accepted k es rl \<le> 2 * max 1 (rl_max_events rl)"
proof (cases "umap_find k (rl_by_key rl)")
  case (Some w)
  then have w: "umap_find k (rl_by_key rl) = Some w" "0 < win_count w"
    using assms(1) by (simp_all add: limiter_ok_def)
  have "accepted k es rl \<le> (rl_max_events rl - win_count w) + max 1 (rl_max_events rl)"
    using assms w
  proof (induction es arbitrary: rl w)
    case (Cons e es)
    obtain now k' where e: "e = (now, k')" by (cases e)
    let ?rl = "snd (Allow k' now rl)"
    have ok: "limiter_ok ?rl" "\<forall>e \<in> set es. t \<le> fst e \<and> fst e < t + window_ns ?rl"
      using Cons.prems(1,2) by simp_all
    consider "k' \<noteq> k" | "k' = k" "window_ns rl \<le> now - window_start w" | "k' = k" "now - window_start w < window_ns rl"
      by linarith
    then show ?case
    proof cases
      case 1
      then show ?thesis using Cons.IH [OF ok, of w] Cons.prems Allow_other [OF Cons.prems(1) 1, of now] by (simp add: e)
    next
      case 2
      note a = Allow_opens [OF Cons.prems(1), of k now]
      have "accepted k es ?rl = min (calls k es) (rl_max_events rl - 1)"
        using accepted_opens [OF ok, of now k] a(2) Cons.prems 2 by (simp add: e)
      then show ?thesis using 2 by (auto simp: e)
    next
      case 3
      note a = Allow_within [OF Cons.prems(1,3,4) 3(2)]
      show ?thesis using Cons.IH [OF ok, of "if win_count w < rl_max_events rl then w\<lparr>win_count := win_count w + 1\<rparr> else w"]
          a Cons.prems 3 by (auto simp: e split: if_splits)
    qed
  qed simp
  then show ?thesis by linarith
next
  case None
  then show ?thesis using accepted_fresh [OF assms] by simp
qed



end
