(* ===== verification/Http_Server.thy ===== *)
theory Http_Server
  imports Http_Messages Http_Paths Ws_Push Auth_Service Conversation_Service Attachment_Service Admin_Service
    Sync_State_Repository Rate_Limiter
begin

text \<open>
  What the handlers of \<open>lib/vox_net/http_dispatch.cpp\<close> share: the server context
  (\<open>server_context.hpp\<close>) with the state behind its references, the notifications over WebSocket, and
  the hook that \<open>bin/main.cpp\<close> installs in the delivery manager. The services are those of the other
  theories, on one database, one delivery manager and one blob directory. What a request draws from
  outside (readings of the clocks, random numbers) is an argument. An exception that leaves a handler
  is the reply \<open>Throws\<close>.
\<close>

section \<open>Context and state\<close>

record ServerContext =
  cx_config :: ServerConfig
  cx_auth :: AuthService
  cx_json :: json_lib
  cx_raw :: "UserId \<Rightarrow> db \<Rightarrow> VoidResult \<times> db"
  cx_ws_push :: bool

definition cx_sqlite :: "ServerContext \<Rightarrow> sqlite" where
  "cx_sqlite cx = as_sqlite (cx_auth cx)"

definition cx_tokens :: "ServerContext \<Rightarrow> TokenManager" where
  "cx_tokens cx = as_tokens (cx_auth cx)"

record server =
  sv_db :: db
  sv_delivery :: DeliveryManager
  sv_files :: files
  sv_ws :: ws_state
  sv_auth_limiter :: "AuthRateLimiter option"
  sv_account_limiter :: "AuthRateLimiter option"

text \<open>The state that \<open>main\<close> builds from a configuration, on an opened database and blob directory.\<close>

definition server_new :: "ServerConfig \<Rightarrow> (string \<Rightarrow> nat) \<Rightarrow> db \<Rightarrow> files \<Rightarrow> server" where
  "server_new config hash d fs =
     \<lparr>sv_db = d,
      sv_delivery = SetEnqueueHook (DeliveryManager_new hash (max_queue_depth_per_device config)),
      sv_files = fs, sv_ws = ws_new,
      sv_auth_limiter = (if auth_rate_limit_max config > 0
        then Some (AuthRateLimiter_new (auth_rate_limit_max config) (auth_rate_limit_window_seconds config)) else None),
      sv_account_limiter = (if account_rate_limit_max config > 0
        then Some (AuthRateLimiter_new (account_rate_limit_max config) (account_rate_limit_window_seconds config)) else None)\<rparr>"

text \<open>The readings of the system clock in order, the steady clock, and the random draws.\<close>

record request_draws =
  rx_clock :: "nat \<Rightarrow> Timestamp"
  rx_steady :: int
  rx_uuid :: uuid_draw
  rx_auth :: auth_draws

abbreviation rx_now :: "request_draws \<Rightarrow> Timestamp" where
  "rx_now rx \<equiv> rx_clock rx 0"

datatype reply = Reply HttpResponse | NoMatch | Throws

type_synonym handler = "server \<Rightarrow> reply \<times> server"

section \<open>Operations on the parts\<close>

definition on_db :: "(db \<Rightarrow> 'a \<times> db) \<Rightarrow> server \<Rightarrow> 'a \<times> server" where
  "on_db f sv = (case f (sv_db sv) of (r, d) \<Rightarrow> (r, sv\<lparr>sv_db := d\<rparr>))"

definition on_files :: "(files \<times> db \<Rightarrow> 'a \<times> files \<times> db) \<Rightarrow> server \<Rightarrow> 'a \<times> server" where
  "on_files f sv = (case f (sv_files sv, sv_db sv) of (r, fs, d) \<Rightarrow> (r, sv\<lparr>sv_files := fs, sv_db := d\<rparr>))"

text \<open>
  The delivery manager calls its hook, installed in \<open>main\<close>, for each envelope that it queues; the
  calls that an operation adds to the record of the manager are run.
\<close>

definition enqueue_hook :: "json_lib \<Rightarrow> string \<times> QueuedEnvelope \<Rightarrow> ws_state \<Rightarrow> ws_state" where
  "enqueue_hook js = (\<lambda>(device_scope_key, q).
     Notify device_scope_key (json_serialize js (JObject (
       [(''type'', JString ''envelope''), (''envelope_id'', JString (q_envelope_id q)),
        (''conversation_id'', JString (q_conversation_id q)), (''sender_user_id'', JString (q_sender_user_id q)),
        (''sender_device_id'', JString (q_sender_device_id q)), (''ciphertext'', JString (q_ciphertext q)),
        (''server_timestamp'', JInt (q_server_timestamp q)), (''envelope_type'', JInt (q_envelope_type q))] @
       json_if ''ordering_epoch'' JInt (q_ordering_epoch q)))))"

definition on_relay :: "json_lib \<Rightarrow> (relay_state \<Rightarrow> 'a \<times> relay_state) \<Rightarrow> server \<Rightarrow> 'a \<times> server" where
  "on_relay js f sv =
     (case f (sv_delivery sv, sv_db sv) of (r, dm, d) \<Rightarrow>
        (r, sv\<lparr>sv_delivery := dm, sv_db := d,
               sv_ws := fold (enqueue_hook js)
                 (drop (length (dm_hook_calls (sv_delivery sv))) (dm_hook_calls dm)) (sv_ws sv)\<rparr>))"

section \<open>Replies\<close>

definition ok_reply :: "ServerContext \<Rightarrow> json \<Rightarrow> handler" where
  "ok_reply cx v sv = (Reply (JsonRes (cx_json cx) 200 v), sv)"

definition error_reply :: "ServerContext \<Rightarrow> Error \<Rightarrow> handler" where
  "error_reply cx e sv = (Reply (error_response (cx_json cx) e), sv)"

definition own_reply :: "ServerContext \<Rightarrow> ErrorCode \<Rightarrow> string \<Rightarrow> handler" where
  "own_reply cx c m sv = (Reply (own_error (cx_json cx) c m), sv)"

definition no_match :: handler where
  "no_match sv = (NoMatch, sv)"

definition with_body :: "ServerContext \<Rightarrow> HttpRequest \<Rightarrow> (json_object \<Rightarrow> handler) \<Rightarrow> handler" where
  "with_body cx req k sv =
     (case parse_body (cx_json cx) req of Inl res \<Rightarrow> (Reply res, sv) | Inr o' \<Rightarrow> k o' sv)"

definition checked :: "ServerContext \<Rightarrow> 'a Result \<times> server \<Rightarrow> ('a \<Rightarrow> handler) \<Rightarrow> reply \<times> server" where
  "checked cx rs k = (case rs of (Inl e, sv) \<Rightarrow> error_reply cx e sv | (Inr x, sv) \<Rightarrow> k x sv)"

text \<open>The same for a call that may throw.\<close>

definition checked_opt :: "ServerContext \<Rightarrow> 'a Result option \<times> server \<Rightarrow> ('a \<Rightarrow> handler) \<Rightarrow> reply \<times> server" where
  "checked_opt cx rs k = (case rs of (None, sv) \<Rightarrow> (Throws, sv) | (Some r, sv) \<Rightarrow> checked cx (r, sv) k)"

text \<open>A numeric query parameter with a default; \<open>std::stoull\<close> and \<open>std::stoll\<close> throw.\<close>

definition size_param :: "HttpRequest \<Rightarrow> string \<Rightarrow> nat \<Rightarrow> nat option" where
  "size_param req key dflt = (case QueryParam (rq_target req) key of None \<Rightarrow> Some dflt | Some l \<Rightarrow> stoull l)"

definition int_param :: "HttpRequest \<Rightarrow> string \<Rightarrow> int \<Rightarrow> int option" where
  "int_param req key dflt = (case QueryParam (rq_target req) key of None \<Rightarrow> Some dflt | Some l \<Rightarrow> stoll l)"

definition text_param :: "HttpRequest \<Rightarrow> string \<Rightarrow> string" where
  "text_param req key = (case QueryParam (rq_target req) key of None \<Rightarrow> [] | Some v \<Rightarrow> v)"

definition or_throw :: "'a option \<Rightarrow> ('a \<Rightarrow> handler) \<Rightarrow> handler" where
  "or_throw x k sv = (case x of None \<Rightarrow> (Throws, sv) | Some y \<Rightarrow> k y sv)"

section \<open>Notifications\<close>

definition notify_devices :: "sqlite \<Rightarrow> db \<Rightarrow> string \<Rightarrow> (DeviceRecord \<Rightarrow> bool) \<Rightarrow> UserId \<Rightarrow> ws_state \<Rightarrow> ws_state" where
  "notify_devices sq d json_line skip uid ws =
     fold (\<lambda>v ws. if d_revoked_at v \<noteq> None then ws else if skip v then ws
                  else Notify (DeviceScopeKey (d_user_id v) (d_device_id v)) json_line ws)
       (GetDevicesForUser sq uid d) ws"

definition NotifyUserDevicesExcept ::
    "ServerContext \<Rightarrow> UserId \<Rightarrow> UserId \<Rightarrow> DeviceId \<Rightarrow> json \<Rightarrow> server \<Rightarrow> server" where
  "NotifyUserDevicesExcept cx user_id except_user_id except_device evt sv =
     (if \<not> cx_ws_push cx then sv
      else sv\<lparr>sv_ws := notify_devices (cx_sqlite cx) (sv_db sv) (json_serialize (cx_json cx) evt)
                (\<lambda>v. d_user_id v = except_user_id \<and> d_device_id v = except_device) user_id (sv_ws sv)\<rparr>)"

fun notify_users :: "sqlite \<Rightarrow> db \<Rightarrow> string \<Rightarrow> UserId list \<Rightarrow> UserId list \<Rightarrow> ws_state \<Rightarrow> UserId list \<times> ws_state" where
  "notify_users sq d json_line seen [] ws = (seen, ws)"
| "notify_users sq d json_line seen (uid # uids) ws =
     (if uid \<in> set seen then notify_users sq d json_line seen uids ws
      else notify_users sq d json_line (uid # seen) uids (notify_devices sq d json_line (\<lambda>_. False) uid ws))"

definition membership_event :: "ConversationId \<Rightarrow> conversation_row \<Rightarrow> json" where
  "membership_event conv_id conv = JObject
     [(''type'', JString ''conversation_membership_changed''), (''conversation_id'', JString conv_id),
      (''membership_version'', JInt (c_membership_version conv))]"

text \<open>The members, and the subscribers of a channel that are not members.\<close>

definition notify_conversation ::
    "sqlite \<Rightarrow> db \<Rightarrow> string \<Rightarrow> ConversationId \<Rightarrow> ConversationType \<Rightarrow> ws_state \<Rightarrow> ws_state" where
  "notify_conversation sq d json_line conv_id typ ws =
     (case notify_users sq d json_line [] (map m_user_id (GetMembers sq conv_id d)) ws of
        (seen, ws') \<Rightarrow>
          if typ = kChannel then snd (notify_users sq d json_line seen (GetSubscribers sq conv_id d) ws') else ws')"

definition NotifyConversationMembershipChanged :: "ServerContext \<Rightarrow> ConversationId \<Rightarrow> server \<Rightarrow> server" where
  "NotifyConversationMembershipChanged cx conv_id sv =
     (if \<not> cx_ws_push cx then sv
      else case Conv_FindById conv_id (sv_db sv) of
        None \<Rightarrow> sv
      | Some conv \<Rightarrow>
          sv\<lparr>sv_ws := notify_conversation (cx_sqlite cx) (sv_db sv)
               (json_serialize (cx_json cx) (membership_event conv_id conv)) conv_id (c_type conv) (sv_ws sv)\<rparr>)"

definition devices_changed :: "SessionRecord \<Rightarrow> json" where
  "devices_changed sess = JObject [(''type'', JString ''user_devices_changed''), (''user_id'', JString (s_user_id sess))]"

end
