(* ===== verification/Http_Public.thy ===== *)
theory Http_Public
  imports Http_Server
begin

text \<open>
  The routes of \<open>lib/vox_net/http_dispatch.cpp\<close> that need no session: registration, login and refresh
  (\<open>TryPublicAuth\<close>) and the administration with its own token (\<open>TryAdmin\<close>).
\<close>

section \<open>Registration, login and refresh\<close>

definition register_request :: "json_lib \<Rightarrow> json_object \<Rightarrow> RegisterRequest" where
  "register_request js o' =
     \<lparr>rq_username = field o' ''username'', rq_password_derived_value = field o' ''password_derived_value'',
      rq_device_id = field o' ''device_id'', rq_device_label = field o' ''device_label'',
      rq_identity_key_public = field o' ''identity_key_public'',
      rq_signed_prekey_public = field o' ''signed_prekey_public'',
      rq_signed_prekey_signature = field o' ''signed_prekey_signature'',
      rq_wrapped_sync_key = field o' ''wrapped_sync_key'', rq_sync_wrap_salt = field o' ''sync_wrap_salt'',
      rq_sync_wrap_params = SerializeSyncWrapParams js o'\<rparr>"

definition login_request :: "json_object \<Rightarrow> LoginRequest" where
  "login_request o' =
     \<lparr>lq_username = field o' ''username'', lq_password_derived_value = field o' ''password_derived_value'',
      lq_device_id = field o' ''device_id'', lq_device_label = field o' ''device_label'',
      lq_identity_key_public = field o' ''identity_key_public'',
      lq_signed_prekey_public = field o' ''signed_prekey_public'',
      lq_signed_prekey_signature = field o' ''signed_prekey_signature''\<rparr>"

definition account_json :: "UserId \<Rightarrow> TokenPair \<Rightarrow> string \<Rightarrow> int \<Rightarrow> json" where
  "account_json user_id tokens device_status sync_key_version = JObject
     [(''user_id'', JString user_id), (''access_token'', JString (tp_access_token tokens)),
      (''refresh_token'', JString (tp_refresh_token tokens)), (''device_status'', JString device_status),
      (''sync_key_version'', JInt sync_key_version)]"

definition post_register :: "ServerContext \<Rightarrow> request_draws \<Rightarrow> HttpRequest \<Rightarrow> handler" where
  "post_register cx rx req = with_body cx req (\<lambda>o' sv.
     checked cx (on_db (Register (cx_auth cx) (rx_auth rx) (register_request (cx_json cx) o')) sv) (\<lambda>result.
       ok_reply cx (account_json (rs_user_id result) (rs_tokens result) (rs_device_status result)
         (rs_sync_key_version result))))"

definition post_login :: "ServerContext \<Rightarrow> request_draws \<Rightarrow> HttpRequest \<Rightarrow> handler" where
  "post_login cx rx req = with_body cx req (\<lambda>o' sv.
     checked_opt cx (on_db (Login (cx_auth cx) (rx_auth rx) (login_request o')) sv) (\<lambda>result.
       ok_reply cx (account_json (ls_user_id result) (ls_tokens result) (ls_device_status result)
         (ls_sync_key_version result))))"

definition post_refresh :: "ServerContext \<Rightarrow> request_draws \<Rightarrow> HttpRequest \<Rightarrow> handler" where
  "post_refresh cx rx req = with_body cx req (\<lambda>o' sv.
     checked cx (on_db (Refresh (cx_auth cx) (ad_tokens (rx_auth rx))
         \<lparr>fq_refresh_token = field o' ''refresh_token'', fq_device_id = field o' ''device_id''\<rparr> (rx_now rx)) sv) (\<lambda>result.
       ok_reply cx (JObject [(''access_token'', JString (tp_access_token result)),
         (''refresh_token'', JString (tp_refresh_token result))])))"

definition TryPublicAuth :: "ServerContext \<Rightarrow> request_draws \<Rightarrow> HttpRequest \<Rightarrow> string \<Rightarrow> handler" where
  "TryPublicAuth cx rx req path =
     (if rq_method req \<noteq> verb_post then no_match
      else if path = ''/v1/register'' then post_register cx rx req
      else if path = ''/v1/login'' then post_login cx rx req
      else if path = ''/v1/refresh'' then post_refresh cx rx req
      else no_match)"

section \<open>Administration\<close>

definition get_admin_stats :: "ServerContext \<Rightarrow> request_draws \<Rightarrow> handler" where
  "get_admin_stats cx rx sv =
     (let stats = GetServerStats (rx_now rx) (sv_db sv)
      in ok_reply cx (JObject
        [(''user_count'', JInt (size_to_i64 (st_user_count stats))),
         (''device_count'', JInt (size_to_i64 (st_device_count stats))),
         (''active_session_count'', JInt (size_to_i64 (st_active_session_count stats))),
         (''conversation_count'', JInt (size_to_i64 (st_conversation_count stats))),
         (''pending_envelope_count'', JInt (size_to_i64 (st_pending_envelope_count stats))),
         (''total_storage_bytes'', JInt (st_total_storage_bytes stats))]) sv)"

definition delete_admin_user :: "ServerContext \<Rightarrow> UserId \<Rightarrow> handler" where
  "delete_admin_user cx uid sv =
     checked cx (on_db (DeleteUser (cx_sqlite cx) (cx_raw cx) uid) sv) (\<lambda>_. ok_reply cx empty_object)"

definition is_admin :: "ServerContext \<Rightarrow> HttpRequest \<Rightarrow> bool" where
  "is_admin cx req \<longleftrightarrow> admin_token (cx_config cx) \<noteq> [] \<and>
     find_field req ''X-Admin-Token'' = Some (admin_token (cx_config cx))"

definition TryAdmin :: "ServerContext \<Rightarrow> request_draws \<Rightarrow> HttpRequest \<Rightarrow> string \<Rightarrow> handler" where
  "TryAdmin cx rx req path =
     (if \<not> is_admin cx req then no_match
      else if rq_method req = verb_get \<and> path = ''/v1/admin/stats'' then get_admin_stats cx rx
      else if rq_method req = verb_delete \<and> prefix ''/v1/admin/users/'' path
      then delete_admin_user cx (drop (length ''/v1/admin/users/'') path)
      else no_match)"

end
