(* ===== verification/Http_Post.thy ===== *)
theory Http_Post
  imports Http_Server
begin

text \<open>
  The POST routes of \<open>HandleAuthenticated\<close> in \<open>lib/vox_net/http_dispatch.cpp\<close>, one definition for each
  route and their order. A route is a handler or nothing, when its condition on the path fails; the
  first one that applies is taken.
\<close>

section \<open>Accounts and messages\<close>

definition post_logout :: "ServerContext \<Rightarrow> request_draws \<Rightarrow> SessionRecord \<Rightarrow> handler" where
  "post_logout cx rx sess sv =
     checked cx (on_db (Logout (s_session_id sess) (rx_now rx)) sv) (\<lambda>_. ok_reply cx empty_object)"

definition change_password_request :: "json_lib \<Rightarrow> json_object \<Rightarrow> ChangePasswordRequest" where
  "change_password_request js o' =
     \<lparr>cq_current_password_derived_value = field o' ''current_password_derived_value'',
      cq_new_password_derived_value = field o' ''new_password_derived_value'',
      cq_wrapped_sync_key = field o' ''wrapped_sync_key'', cq_sync_wrap_salt = field o' ''sync_wrap_salt'',
      cq_sync_wrap_params = SerializeSyncWrapParams js o'\<rparr>"

definition post_change_password :: "ServerContext \<Rightarrow> request_draws \<Rightarrow> HttpRequest \<Rightarrow> SessionRecord \<Rightarrow> handler" where
  "post_change_password cx rx req sess = with_body cx req (\<lambda>o' sv.
     checked_opt cx (on_db (ChangePassword (cx_auth cx) (ad_salt (rx_auth rx)) (s_user_id sess)
         (change_password_request (cx_json cx) o')) sv) (\<lambda>sync_key_version.
       ok_reply cx (JObject [(''sync_key_version'', JInt sync_key_version)])))"

text \<open>
  A request for a message. \<open>static_cast<int>\<close> of the type wraps; without one it is 0, the default of
  the field.
\<close>

definition send_request :: "SessionRecord \<Rightarrow> json_object \<Rightarrow> SendMessageRequest" where
  "send_request sess o' =
     \<lparr>sm_sender_user_id = s_user_id sess, sm_sender_device_id = field o' ''device_id'',
      sm_conversation_id = field o' ''conversation_id'', sm_ciphertext = field o' ''ciphertext'',
      sm_envelope_id = field o' ''envelope_id'',
      sm_envelope_type = (case JsonInt o' ''envelope_type'' of None \<Rightarrow> 0 | Some et \<Rightarrow> i32 et),
      sm_ordering_epoch = JsonInt o' ''ordering_epoch''\<rparr>"

definition post_send :: "ServerContext \<Rightarrow> request_draws \<Rightarrow> HttpRequest \<Rightarrow> SessionRecord \<Rightarrow> handler" where
  "post_send cx rx req sess = with_body cx req (\<lambda>o' sv.
     if field o' ''device_id'' \<noteq> s_device_id sess
     then own_reply cx kForbidden ''device_id must match session device'' sv
     else checked cx (on_relay (cx_json cx) (SendEnvelope (cx_sqlite cx) (cx_config cx) (rx_uuid rx) (rx_now rx)
              (send_request sess o')) sv) (\<lambda>result.
            ok_reply cx (JObject [(''envelope_id'', JString (smr_envelope_id result)),
              (''server_timestamp'', JInt (smr_server_timestamp result)),
              (''delivered_to_count'', JInt (size_to_i64 (smr_delivered_to_count result)))])))"

definition post_ack :: "ServerContext \<Rightarrow> request_draws \<Rightarrow> HttpRequest \<Rightarrow> SessionRecord \<Rightarrow> handler" where
  "post_ack cx rx req sess = with_body cx req (\<lambda>o' sv.
     if field o' ''device_id'' \<noteq> s_device_id sess
     then own_reply cx kForbidden ''device_id must match session device'' sv
     else checked cx (on_db (AcknowledgeEnvelope (s_user_id sess) (field o' ''device_id'')
              (field o' ''envelope_id'') (rx_now rx)) sv) (\<lambda>_. ok_reply cx empty_object))"

section \<open>Conversations\<close>

definition conversation_created :: "ServerContext \<Rightarrow> ConversationId \<Rightarrow> handler" where
  "conversation_created cx conv_id sv =
     ok_reply cx (JObject [(''conversation_id'', JString conv_id)]) (NotifyConversationMembershipChanged cx conv_id sv)"

definition post_conversations :: "ServerContext \<Rightarrow> request_draws \<Rightarrow> HttpRequest \<Rightarrow> SessionRecord \<Rightarrow> handler" where
  "post_conversations cx rx req sess = with_body cx req (\<lambda>o' sv.
     let typ = field o' ''type''; sq = cx_sqlite cx
     in if typ = ''dm''
        then checked cx (on_db (CreateDm sq (rx_uuid rx) (rx_now rx) (s_user_id sess) (field o' ''peer_user_id'')
               (s_user_id sess)) sv) (conversation_created cx)
        else if typ = ''group''
        then checked cx (on_db (CreateGroup sq (cx_config cx) (rx_uuid rx) (rx_now rx) (s_user_id sess)
               (string_list o' ''members'')) sv) (conversation_created cx)
        else if typ = ''channel''
        then checked cx (on_db (CreateChannel sq (cx_config cx) (rx_uuid rx) (rx_now rx) (s_user_id sess)
               (string_list o' ''admins'') (string_list o' ''subscribers'')) sv) (conversation_created cx)
        else own_reply cx kInvalidArgument ''type must be dm, group, or channel'' sv)"

fun ParseMemberRole :: "string \<Rightarrow> MemberRole" where
  "ParseMemberRole s = (if s = ''owner'' then kOwner else if s = ''admin'' then kAdmin else kMember)"

definition membership_changed :: "ServerContext \<Rightarrow> ConversationId \<Rightarrow> handler" where
  "membership_changed cx conv_id sv = ok_reply cx empty_object (NotifyConversationMembershipChanged cx conv_id sv)"

definition post_member :: "ServerContext \<Rightarrow> request_draws \<Rightarrow> HttpRequest \<Rightarrow> SessionRecord \<Rightarrow> ConversationId \<Rightarrow> handler" where
  "post_member cx rx req sess conv_id = with_body cx req (\<lambda>o' sv.
     checked cx (on_db (AddMember (cx_sqlite cx) (cx_config cx) (rx_now rx) conv_id (s_user_id sess)
         (field o' ''user_id'') (ParseMemberRole (string_or o' ''role'' ''member''))) sv)
       (\<lambda>_. membership_changed cx conv_id))"

definition post_subscribe :: "ServerContext \<Rightarrow> request_draws \<Rightarrow> SessionRecord \<Rightarrow> ConversationId \<Rightarrow> handler" where
  "post_subscribe cx rx sess conv_id sv =
     checked cx (on_db (SubscribeChannel (cx_sqlite cx) (cx_config cx) (rx_now rx) conv_id (s_user_id sess)) sv)
       (\<lambda>_. membership_changed cx conv_id)"

definition post_unsubscribe :: "ServerContext \<Rightarrow> request_draws \<Rightarrow> SessionRecord \<Rightarrow> ConversationId \<Rightarrow> handler" where
  "post_unsubscribe cx rx sess conv_id sv =
     checked cx (on_relay (cx_json cx) (UnsubscribeChannel (cx_sqlite cx) (rx_now rx) conv_id (s_user_id sess)) sv)
       (\<lambda>_. membership_changed cx conv_id)"

section \<open>Prekeys and attachments\<close>

text \<open>The device that a path of prekeys names; the short form is a device of the session's user.\<close>

definition device_scope :: "SessionRecord \<Rightarrow> string \<Rightarrow> string \<Rightarrow> (UserId \<times> DeviceId) option" where
  "device_scope sess path suf =
     (case SplitUserDeviceSubPath path suf of
        Some ud \<Rightarrow> Some ud
      | None \<Rightarrow> map_option (\<lambda>legacy_id. (s_user_id sess, legacy_id)) (SplitDeviceSubPath path suf))"

definition prekey_list :: "DeviceId \<Rightarrow> json_object \<Rightarrow> PrekeyRecord list" where
  "prekey_list dev_id o' =
     (case json_find o' ''prekeys'' of
        Some (JArray vs) \<Rightarrow> List.map_filter (\<lambda>v. case v of
            JObject po \<Rightarrow> Some \<lparr>pr_prekey_id = field po ''prekey_id'', pr_device_id = dev_id,
              pr_prekey_public = field po ''prekey_public'', pr_consumed_at = None\<rparr>
          | _ \<Rightarrow> None) vs
      | _ \<Rightarrow> [])"

definition post_prekeys ::
    "ServerContext \<Rightarrow> request_draws \<Rightarrow> HttpRequest \<Rightarrow> SessionRecord \<Rightarrow> UserId \<times> DeviceId \<Rightarrow> handler" where
  "post_prekeys cx rx req sess = (\<lambda>(owner_uid, dev_id) sv.
     if owner_uid \<noteq> s_user_id sess \<or> dev_id \<noteq> s_device_id sess
     then own_reply cx kForbidden ''Can only upload prekeys for own device'' sv
     else with_body cx req (\<lambda>o' sv.
       checked cx (on_db (StorePrekeys (cx_sqlite cx) owner_uid dev_id (prekey_list dev_id o') (rx_now rx)) sv)
         (\<lambda>_. ok_reply cx empty_object)) sv)"

definition post_upload_init :: "ServerContext \<Rightarrow> request_draws \<Rightarrow> HttpRequest \<Rightarrow> SessionRecord \<Rightarrow> handler" where
  "post_upload_init cx rx req sess = with_body cx req (\<lambda>o' sv.
     checked cx (on_db (InitUpload (cx_sqlite cx) (cx_config cx) (rx_uuid rx) (rx_now rx) (s_user_id sess)
         (field o' ''conversation_id'') (case JsonInt o' ''file_size'' of None \<Rightarrow> 0 | Some n \<Rightarrow> n)
         (field o' ''mime_hint'')) sv) (\<lambda>result.
       ok_reply cx (JObject [(''attachment_id'', JString (iu_attachment_id result)),
         (''blob_path'', JString (iu_blob_path result))])))"

definition post_finalize :: "ServerContext \<Rightarrow> HttpRequest \<Rightarrow> AttachmentId \<Rightarrow> handler" where
  "post_finalize cx req attachment_id = with_body cx req (\<lambda>o' sv.
     checked cx (on_files (FinalizeUpload attachment_id (field o' ''ciphertext_hash'')) sv)
       (\<lambda>_. ok_reply cx empty_object))"

section \<open>The routes in order\<close>

definition route :: "bool \<Rightarrow> 'h \<Rightarrow> 'h option" where
  "route b h = (if b then Some h else None)"

fun first_route :: "handler option list \<Rightarrow> handler" where
  "first_route [] = no_match"
| "first_route (None # rs) = first_route rs"
| "first_route (Some h # rs) = h"

definition post_routes ::
    "ServerContext \<Rightarrow> request_draws \<Rightarrow> HttpRequest \<Rightarrow> string \<Rightarrow> SessionRecord \<Rightarrow> handler option list" where
  "post_routes cx rx req path sess =
    [route (path = ''/v1/logout'') (post_logout cx rx sess),
     route (path = ''/v1/account/change-password'') (post_change_password cx rx req sess),
     route (path = ''/v1/messages/send'') (post_send cx rx req sess),
     route (path = ''/v1/messages/ack'') (post_ack cx rx req sess),
     route (path = ''/v1/conversations'') (post_conversations cx rx req sess),
     (case SplitConvSubPath path of
        None \<Rightarrow> None
      | Some (conv_id, tail) \<Rightarrow>
          if tail = ''members'' then Some (post_member cx rx req sess conv_id)
          else if tail = ''subscribe'' then Some (post_subscribe cx rx sess conv_id)
          else if tail = ''unsubscribe'' then Some (post_unsubscribe cx rx sess conv_id)
          else None),
     map_option (post_prekeys cx rx req sess) (device_scope sess path ''prekeys''),
     route (path = ''/v1/attachments/upload-init'') (post_upload_init cx rx req sess),
     (if prefix ''/v1/attachments/'' path \<and> suffix ''/finalize'' path
      then map_option (post_finalize cx req) (SplitAttachmentSubPath path) else None)]"

end
