(* ===== verification/Http_Get.thy ===== *)
theory Http_Get
  imports Http_Post
begin

text \<open>
  The GET routes of \<open>HandleAuthenticated\<close> in \<open>lib/vox_net/http_dispatch.cpp\<close> and their order. Only the
  routes for prekey bundles change the state.
\<close>

section \<open>Users\<close>

definition get_me :: "ServerContext \<Rightarrow> SessionRecord \<Rightarrow> handler" where
  "get_me cx sess sv =
     (case User_FindById (s_user_id sess) (sv_db sv) of
        None \<Rightarrow> own_reply cx kNotFound ''User not found'' sv
      | Some u \<Rightarrow> ok_reply cx (JObject
          [(''user_id'', JString (s_user_id sess)), (''username'', JString (u_username u)),
           (''current_device_id'', JString (s_device_id sess)), (''sync_key_version'', JInt (u_sync_key_version u))]) sv)"

definition own_device_json :: "SessionRecord \<Rightarrow> DeviceRecord \<Rightarrow> json" where
  "own_device_json sess v = JObject
     [(''device_id'', JString (d_device_id v)), (''device_label'', JString (d_device_label v)),
      (''created_at'', JInt (d_created_at v)), (''last_seen_at'', JInt (d_last_seen_at v)),
      (''is_current'', JBool (d_device_id v = s_device_id sess)), (''is_revoked'', JBool (d_revoked_at v \<noteq> None))]"

definition get_me_devices :: "ServerContext \<Rightarrow> SessionRecord \<Rightarrow> handler" where
  "get_me_devices cx sess sv =
     ok_reply cx (JObject [(''devices'',
       JArray (map (own_device_json sess) (GetDevicesForUser (cx_sqlite cx) (s_user_id sess) (sv_db sv))))]) sv"

definition get_key_bundle :: "ServerContext \<Rightarrow> SessionRecord \<Rightarrow> handler" where
  "get_key_bundle cx sess sv =
     (case GetSyncKeyBundle (s_user_id sess) (sv_db sv) of
        None \<Rightarrow> own_reply cx kNotFound ''User not found'' sv
      | Some b \<Rightarrow> ok_reply cx (JObject
          [(''sync_key_version'', JInt (sb_sync_key_version b)), (''wrapped_sync_key'', JString (sb_wrapped_sync_key b)),
           (''sync_wrap_salt'', JString (sb_sync_wrap_salt b)),
           (''sync_wrap_params'', (case json_parse (cx_json cx) (sb_sync_wrap_params b) of
              Inl _ \<Rightarrow> empty_object | Inr v \<Rightarrow> v))]) sv)"

definition change_json :: "SyncRecordRow \<Rightarrow> json" where
  "change_json c = JObject
     [(''record_id'', JString (sc_record_id c)), (''ciphertext'', JString (sc_ciphertext c)),
      (''content_hash'', JString (sc_content_hash c)), (''version'', JInt (sc_version c)),
      (''server_updated_at'', JInt (sc_server_updated_at c)), (''deleted'', JBool (sc_deleted c))]"

definition kDefaultPaginationLimit :: nat where "kDefaultPaginationLimit = 100"
definition kDefaultUserSearchLimit :: nat where "kDefaultUserSearchLimit = 20"
definition kMaxUserSearchLimit :: nat where "kMaxUserSearchLimit = 50"
definition kMaxUserBatchIds :: nat where "kMaxUserBatchIds = 100"

definition get_sync_changes :: "ServerContext \<Rightarrow> HttpRequest \<Rightarrow> SessionRecord \<Rightarrow> handler" where
  "get_sync_changes cx req sess sv =
     (let coll = text_param req ''collection''
      in if coll = [] then own_reply cx kInvalidArgument ''collection required'' sv
         else or_throw (size_param req ''limit'' kDefaultPaginationLimit) (\<lambda>limit sv.
           let page = ListChangesAfterCursor (s_user_id sess) coll (text_param req ''cursor'') limit (sv_db sv)
           in ok_reply cx (JObject
                [(''collection'', JString coll), (''changes'', JArray (map change_json (sg_changes page))),
                 (''next_cursor'', JString (sg_next_cursor page)), (''has_more'', JBool (sg_has_more page))]) sv) sv)"

definition user_json :: "UserId \<Rightarrow> string \<Rightarrow> json" where
  "user_json user_id username = JObject [(''user_id'', JString user_id), (''username'', JString username)]"

definition get_users :: "ServerContext \<Rightarrow> HttpRequest \<Rightarrow> handler" where
  "get_users cx req sv =
     (let raw_ids = ParseIdsQuery (rq_target req)
      in if length raw_ids > kMaxUserBatchIds then own_reply cx kInvalidArgument ''too many ids'' sv
         else ok_reply cx (JObject [(''users'', JArray (map (\<lambda>p. user_json (up_user_id p) (up_username p))
                (FindPublicProfilesByIds (cx_sqlite cx) raw_ids (sv_db sv))))]) sv)"

text \<open>\<open>if (!u || u->disabled_at.has_value())\<close> with its error.\<close>

definition with_active_user :: "ServerContext \<Rightarrow> UserRecord option \<Rightarrow> (UserRecord \<Rightarrow> handler) \<Rightarrow> handler" where
  "with_active_user cx found k sv =
     (case found of
        None \<Rightarrow> own_reply cx kNotFound ''User not found'' sv
      | Some u \<Rightarrow> if u_disabled_at u \<noteq> None then own_reply cx kNotFound ''User not found'' sv else k u sv)"

definition get_by_username :: "ServerContext \<Rightarrow> string \<Rightarrow> handler" where
  "get_by_username cx uname sv =
     with_active_user cx (FindByUsername (cx_sqlite cx) uname (sv_db sv)) (\<lambda>u.
       ok_reply cx (user_json (u_user_id u) (u_username u))) sv"

definition get_search :: "ServerContext \<Rightarrow> HttpRequest \<Rightarrow> handler" where
  "get_search cx req =
     or_throw (map_option (\<lambda>lim. if QueryParam (rq_target req) ''limit'' \<noteq> None \<and> lim > kMaxUserSearchLimit
                                  then kMaxUserSearchLimit else lim)
         (size_param req ''limit'' kDefaultUserSearchLimit)) (\<lambda>lim sv.
       ok_reply cx (JObject [(''users'', JArray (map (\<lambda>u. user_json (u_user_id u) (u_username u))
         (SearchByUsernamePrefix (cx_sqlite cx) (text_param req ''q'') lim (sv_db sv))))]) sv)"

definition get_user :: "ServerContext \<Rightarrow> UserId \<Rightarrow> handler" where
  "get_user cx uid sv =
     with_active_user cx (User_FindById uid (sv_db sv)) (\<lambda>u. ok_reply cx (user_json (u_user_id u) (u_username u))) sv"

section \<open>Devices\<close>

definition bundle_fields :: "PrekeyBundle \<Rightarrow> json_object" where
  "bundle_fields pb =
     [(''identity_key_public'', JString (pb_identity_key_public pb)),
      (''signed_prekey_public'', JString (pb_signed_prekey_public pb)),
      (''signed_prekey_signature'', JString (pb_signed_prekey_signature pb))] @
     json_if ''one_time_prekey_public'' JString (pb_one_time_prekey_public pb) @
     json_if ''one_time_prekey_id'' JString (pb_one_time_prekey_id pb)"

text \<open>The loop over the devices of a user; the n-th call of \<open>GetPrekeyBundle\<close> reads the clock.\<close>

fun collect_bundles ::
    "ServerContext \<Rightarrow> request_draws \<Rightarrow> UserId \<Rightarrow> nat \<Rightarrow> DeviceRecord list \<Rightarrow> json list \<Rightarrow> server \<Rightarrow> json list \<times> server" where
  "collect_bundles cx rx uid n [] bundles sv = (bundles, sv)"
| "collect_bundles cx rx uid n (v # vs) bundles sv =
     (if d_revoked_at v \<noteq> None then collect_bundles cx rx uid n vs bundles sv
      else case on_db (GetPrekeyBundle (cx_sqlite cx) uid (d_device_id v) (rx_clock rx n)) sv of
        (Inl _, sv') \<Rightarrow> collect_bundles cx rx uid (n + 1) vs bundles sv'
      | (Inr pb, sv') \<Rightarrow> collect_bundles cx rx uid (n + 1) vs
          (bundles @ [JObject ([(''device_id'', JString (d_device_id v)), (''device_label'', JString (d_device_label v))] @
             bundle_fields pb)]) sv')"

definition get_user_bundles :: "ServerContext \<Rightarrow> request_draws \<Rightarrow> UserId \<Rightarrow> handler" where
  "get_user_bundles cx rx uid sv =
     with_active_user cx (User_FindById uid (sv_db sv)) (\<lambda>u sv.
       case collect_bundles cx rx uid 0 (GetDevicesForUser (cx_sqlite cx) uid (sv_db sv)) [] sv of
         (bundles, sv') \<Rightarrow> ok_reply cx (JObject
           [(''user_id'', JString (u_user_id u)), (''username'', JString (u_username u)),
            (''bundles'', JArray bundles)]) sv') sv"

definition device_json :: "db \<Rightarrow> UserId \<Rightarrow> DeviceRecord \<Rightarrow> json" where
  "device_json d uid v = JObject
     [(''device_id'', JString (d_device_id v)), (''device_label'', JString (d_device_label v)),
      (''is_revoked'', JBool False),
      (''has_prekeys'', JBool (CountAvailableOneTimePrekeys uid (d_device_id v) d > 0))]"

definition get_user_devices :: "ServerContext \<Rightarrow> UserId \<Rightarrow> handler" where
  "get_user_devices cx uid sv =
     with_active_user cx (User_FindById uid (sv_db sv)) (\<lambda>u sv.
       ok_reply cx (JObject [(''devices'', JArray (map (device_json (sv_db sv) uid)
         (filter (\<lambda>v. d_revoked_at v = None) (GetDevicesForUser (cx_sqlite cx) uid (sv_db sv)))))]) sv) sv"

definition bundle_of :: "ServerContext \<Rightarrow> request_draws \<Rightarrow> UserId \<Rightarrow> DeviceId \<Rightarrow> handler" where
  "bundle_of cx rx user_id device_id sv =
     checked cx (on_db (GetPrekeyBundle (cx_sqlite cx) user_id device_id (rx_now rx)) sv) (\<lambda>result.
       ok_reply cx (JObject ([(''user_id'', JString user_id), (''device_id'', JString device_id)] @ bundle_fields result)))"

definition get_user_device_bundle :: "ServerContext \<Rightarrow> request_draws \<Rightarrow> UserId \<times> DeviceId \<Rightarrow> handler" where
  "get_user_device_bundle cx rx ud = bundle_of cx rx (fst ud) (snd ud)"

definition get_device_bundle :: "ServerContext \<Rightarrow> request_draws \<Rightarrow> DeviceId \<Rightarrow> handler" where
  "get_device_bundle cx rx device_id sv =
     (case FindAllByDeviceId (cx_sqlite cx) device_id (sv_db sv) of
        [] \<Rightarrow> own_reply cx kNotFound ''Device not found'' sv
      | [v] \<Rightarrow> bundle_of cx rx (d_user_id v) device_id sv
      | _ \<Rightarrow> own_reply cx kInvalidArgument
          ''device_id is ambiguous; use /v1/users/{user_id}/devices/{device_id}/prekey-bundle'' sv)"

section \<open>Conversations\<close>

definition role_text :: "MemberRole \<Rightarrow> string" where
  "role_text r = (if r = kOwner then ''owner'' else if r = kAdmin then ''admin'' else ''member'')"

definition DmPeerUserId :: "MemberRecord list \<Rightarrow> UserId \<Rightarrow> UserId option" where
  "DmPeerUserId members self_user_id =
     (case filter (\<lambda>m. m_user_id m \<noteq> self_user_id) members of
        m # _ \<Rightarrow> Some (m_user_id m)
      | [] \<Rightarrow> (case filter (\<lambda>m. m_user_id m = self_user_id) members of
                 m # _ \<Rightarrow> Some (m_user_id m) | [] \<Rightarrow> None))"

definition UsernameMapFromProfiles :: "UserPublicProfile list \<Rightarrow> UserId \<rightharpoonup> string" where
  "UsernameMapFromProfiles profiles = fold (\<lambda>p m. m(up_user_id p \<mapsto> up_username p)) profiles Map.empty"

definition SetProfileField :: "(UserId \<rightharpoonup> string) \<Rightarrow> UserId \<Rightarrow> string \<Rightarrow> string \<times> json" where
  "SetProfileField names user_id json_key = (json_key, json_or_null JString (names user_id))"

text \<open>The two fields that only a channel shows.\<close>

definition channel_fields :: "json_object \<Rightarrow> json_object" where
  "channel_fields pol =
     [(''title'', (case json_find pol ''title'' of None \<Rightarrow> JString [] | Some v \<Rightarrow> v)),
      (''channel_post_policy'', JString (string_or pol ''channel_post_policy'' ''admins_only''))]"

definition conversation_json :: "ServerContext \<Rightarrow> db \<Rightarrow> SessionRecord \<Rightarrow> conversation_row \<Rightarrow> json" where
  "conversation_json cx d sess conv =
     (let sq = cx_sqlite cx; conv_id = c_conversation_id conv in JObject (
       [(''conversation_id'', JString conv_id), (''type'', JInt (type_number (c_type conv))),
        (''created_by'', JString (c_created_by conv)),
        (''created_by_username'', (case FindPublicProfilesByIds sq [c_created_by conv] d of
           [] \<Rightarrow> JNull | p # _ \<Rightarrow> JString (up_username p))),
        (''created_at'', JInt (c_created_at conv)), (''membership_version'', JInt (c_membership_version conv))] @
       (if c_type conv = kDm
        then [(''peer_user_id'', json_or_null JString (DmPeerUserId (GetMembers sq conv_id d) (s_user_id sess)))] else []) @
       (if c_type conv = kChannel then channel_fields (ParsePolicyBlob (cx_json cx) (c_policy_blob conv)) else []) @
       (case GetMember conv_id (s_user_id sess) d of
          Some mem \<Rightarrow> [(''my_role'', JString (role_text (m_role mem)))]
        | None \<Rightarrow> if c_type conv = kChannel then [(''my_role'', JString ''member'')] else [])))"

definition get_conversation :: "ServerContext \<Rightarrow> SessionRecord \<Rightarrow> ConversationId \<Rightarrow> handler" where
  "get_conversation cx sess conv_id sv =
     (case Conv_FindById conv_id (sv_db sv) of
        None \<Rightarrow> own_reply cx kNotFound ''Conversation not found'' sv
      | Some conv \<Rightarrow>
          if \<not> IsUserInConversation conv_id (s_user_id sess) (sv_db sv)
          then own_reply cx kForbidden ''Not a member of this conversation'' sv
          else ok_reply cx (conversation_json cx (sv_db sv) sess conv) sv)"

definition member_json :: "(UserId \<rightharpoonup> string) \<Rightarrow> MemberRecord \<Rightarrow> json" where
  "member_json names m = JObject [(''user_id'', JString (m_user_id m)),
     SetProfileField names (m_user_id m) ''username'', (''role'', JString (role_text (m_role m)))]"

definition roster_json :: "ServerContext \<Rightarrow> db \<Rightarrow> ConversationId \<Rightarrow> json_object" where
  "roster_json cx d conv_id =
     (let mems = GetMembers (cx_sqlite cx) conv_id d;
          names = UsernameMapFromProfiles (FindPublicProfilesByIds (cx_sqlite cx) (map m_user_id mems) d)
      in [(''members'', JArray (map (member_json names) mems))])"

text \<open>Of a channel everyone sees the administrators; the subscribers are listed only for them.\<close>

definition channel_roster_json :: "ServerContext \<Rightarrow> db \<Rightarrow> SessionRecord \<Rightarrow> ConversationId \<Rightarrow> json_object" where
  "channel_roster_json cx d sess conv_id =
     (let sq = cx_sqlite cx;
          admin = (case GetMember conv_id (s_user_id sess) d of
                     None \<Rightarrow> False | Some actor \<Rightarrow> m_role actor = kOwner \<or> m_role actor = kAdmin);
          admin_rows = GetMembers sq conv_id d;
          admin_ids = map m_user_id admin_rows;
          subs = filter (\<lambda>su. su \<notin> set admin_ids) (GetSubscribers sq conv_id d);
          uid_batch = admin_ids @ (if admin then subs else []);
          names = UsernameMapFromProfiles (FindPublicProfilesByIds sq uid_batch d)
      in [(''admins'', JArray (map (member_json names) admin_rows))] @
         (if admin
          then [(''subscribers'', JArray (map (\<lambda>su. JObject [(''user_id'', JString su),
                   SetProfileField names su ''username'', (''role'', JString ''member'')]) subs))]
          else [(''subscription_state'', JString ''subscribed''),
                (''member_count'', JInt (size_to_i64 (length (GetSubscribers sq conv_id d))))]))"

definition get_members :: "ServerContext \<Rightarrow> SessionRecord \<Rightarrow> ConversationId \<Rightarrow> handler" where
  "get_members cx sess conv_id sv =
     (if \<not> IsUserInConversation conv_id (s_user_id sess) (sv_db sv)
      then own_reply cx kForbidden ''Not a member of this conversation'' sv
      else case Conv_FindById conv_id (sv_db sv) of
        None \<Rightarrow> own_reply cx kNotFound ''Conversation not found'' sv
      | Some crec \<Rightarrow> ok_reply cx (JObject (
          [(''conversation_id'', JString conv_id), (''membership_version'', JInt (c_membership_version crec))] @
          (if c_type crec = kChannel then channel_roster_json cx (sv_db sv) sess conv_id
           else roster_json cx (sv_db sv) conv_id))) sv)"

definition listed_json :: "ServerContext \<Rightarrow> db \<Rightarrow> SessionRecord \<Rightarrow> (UserId \<rightharpoonup> string) \<Rightarrow> conversation_row \<times> Timestamp option \<Rightarrow> json" where
  "listed_json cx d sess names = (\<lambda>(c, last_activity). JObject (
     [(''conversation_id'', JString (c_conversation_id c)), (''type'', JInt (type_number (c_type c))),
      (''created_by'', JString (c_created_by c)), SetProfileField names (c_created_by c) ''created_by_username'',
      (''created_at'', JInt (c_created_at c)), (''membership_version'', JInt (c_membership_version c))] @
     (if c_type c = kDm
      then [(''peer_user_id'', json_or_null JString
              (DmPeerUserId (GetMembers (cx_sqlite cx) (c_conversation_id c) d) (s_user_id sess)))] else []) @
     [(''last_activity_at'', json_or_null JInt last_activity)]))"

definition get_conversations :: "ServerContext \<Rightarrow> SessionRecord \<Rightarrow> handler" where
  "get_conversations cx sess sv =
     (let sq = cx_sqlite cx; d = sv_db sv; lst = ListForUser sq (s_user_id sess) d;
          names = UsernameMapFromProfiles (FindPublicProfilesByIds sq (map (\<lambda>c. c_created_by (fst c)) lst) d)
      in ok_reply cx (JObject [(''conversations'', JArray (map (listed_json cx d sess names) lst))]) sv)"

section \<open>Envelopes and attachments\<close>

definition envelope_json :: "EnvelopeRecord \<Rightarrow> json" where
  "envelope_json e = JObject (
     [(''envelope_id'', JString (e_envelope_id e)), (''conversation_id'', JString (e_conversation_id e)),
      (''sender_user_id'', JString (e_sender_user_id e)), (''sender_device_id'', JString (e_sender_device_id e)),
      (''ciphertext'', JString (e_ciphertext e)), (''server_timestamp'', JInt (e_server_timestamp e)),
      (''envelope_type'', JInt (e_envelope_type e))] @ json_if ''ordering_epoch'' JInt (e_ordering_epoch e))"

definition envelopes_json :: "EnvelopeRecord list \<Rightarrow> string \<Rightarrow> bool \<Rightarrow> json" where
  "envelopes_json es next_cursor has_more = JObject
     [(''envelopes'', JArray (map envelope_json es)), (''next_cursor'', JString next_cursor),
      (''has_more'', JBool has_more)]"

definition page_json :: "EnvelopePage \<Rightarrow> json" where
  "page_json page = envelopes_json (ep_envelopes page) (ep_next_cursor page) (ep_has_more page)"

definition get_pending :: "ServerContext \<Rightarrow> HttpRequest \<Rightarrow> SessionRecord \<Rightarrow> handler" where
  "get_pending cx req sess =
     or_throw (size_param req ''limit'' kDefaultPaginationLimit) (\<lambda>limit sv.
       ok_reply cx (page_json (GetPendingForDeviceCursored (cx_sqlite cx) (s_user_id sess) (s_device_id sess)
         (text_param req ''cursor'') limit (sv_db sv))) sv)"

definition get_envelopes :: "ServerContext \<Rightarrow> HttpRequest \<Rightarrow> SessionRecord \<Rightarrow> ConversationId \<Rightarrow> handler" where
  "get_envelopes cx req sess conv_id sv =
     (if \<not> IsUserInConversation conv_id (s_user_id sess) (sv_db sv)
      then own_reply cx kForbidden ''Not a member of this conversation'' sv
      else or_throw (size_param req ''limit'' kDefaultPaginationLimit) (\<lambda>limit sv.
        let cursor = text_param req ''cursor''
        in if cursor = [] \<and> QueryParam (rq_target req) ''since'' \<noteq> None
           then or_throw (int_param req ''since'' 0) (\<lambda>since sv.
                  ok_reply cx (envelopes_json (ListForConversation (cx_sqlite cx) conv_id since limit (sv_db sv)) [] False) sv) sv
           else ok_reply cx (page_json (ListForConversationCursored (cx_sqlite cx) conv_id cursor limit (sv_db sv))) sv) sv)"

definition get_attachment :: "ServerContext \<Rightarrow> SessionRecord \<Rightarrow> AttachmentId \<Rightarrow> handler" where
  "get_attachment cx sess attachment_id sv =
     checked cx (GetAttachment attachment_id (s_user_id sess) (sv_db sv), sv) (\<lambda>path sv.
       case fs_blobs (sv_files sv) path of
         None \<Rightarrow> own_reply cx kInternal ''Cannot open attachment blob'' sv
       | Some content \<Rightarrow> (Reply (FileResponse 200 content), sv))"

section \<open>The routes in order\<close>

text \<open>The user id before the end of a path; where there is none the route ends the search.\<close>

definition user_before :: "string \<Rightarrow> string \<Rightarrow> (UserId \<Rightarrow> handler) \<Rightarrow> handler option" where
  "user_before suf path h =
     (if \<not> suffix suf path then None
      else let base = take (length path - length suf) path
           in if length path \<le> length suf then Some no_match
              else if \<not> prefix ''/v1/users/'' base then Some no_match
              else Some (h (drop (length ''/v1/users/'') base)))"

definition user_route :: "ServerContext \<Rightarrow> string \<Rightarrow> handler option" where
  "user_route cx path =
     (if \<not> prefix ''/v1/users/'' path then None
      else let rest = drop (length ''/v1/users/'') path
           in if CHR ''/'' \<in> set rest then Some no_match
              else if rest = ''search'' \<or> prefix ''by-username'' rest then Some no_match
              else Some (get_user cx rest))"

definition conv_route :: "string \<Rightarrow> string \<Rightarrow> (ConversationId \<Rightarrow> handler) \<Rightarrow> handler option" where
  "conv_route path tail h =
     (case SplitConvSubPath path of None \<Rightarrow> None | Some (conv_id, t) \<Rightarrow> if t = tail then Some (h conv_id) else None)"

definition get_routes ::
    "ServerContext \<Rightarrow> request_draws \<Rightarrow> HttpRequest \<Rightarrow> string \<Rightarrow> SessionRecord \<Rightarrow> handler option list" where
  "get_routes cx rx req path sess =
    [route (path = ''/v1/me'') (get_me cx sess),
     route (path = ''/v1/me/devices'') (get_me_devices cx sess),
     route (path = ''/v1/sync/key-bundle'') (get_key_bundle cx sess),
     route (prefix ''/v1/sync/changes'' path) (get_sync_changes cx req sess),
     route (path = ''/v1/users'') (get_users cx req),
     route (prefix ''/v1/users/by-username/'' path) (get_by_username cx (drop (length ''/v1/users/by-username/'') path)),
     route (path = ''/v1/users/search'') (get_search cx req),
     user_before ''/prekey-bundles'' path (get_user_bundles cx rx),
     user_before ''/devices'' path (get_user_devices cx),
     user_route cx path,
     map_option (get_conversation cx sess) (ConversationIdOnly path),
     conv_route path ''members'' (get_members cx sess),
     route (path = ''/v1/sync/pending'') (get_pending cx req sess),
     conv_route path ''envelopes'' (get_envelopes cx req sess),
     route (path = ''/v1/conversations'') (get_conversations cx sess),
     map_option (get_user_device_bundle cx rx) (SplitUserDeviceSubPath path ''prekey-bundle''),
     map_option (get_device_bundle cx rx) (SplitDeviceSubPath path ''prekey-bundle''),
     (if prefix ''/v1/attachments/'' path \<and> \<not> contains_text ''/chunk'' path \<and> \<not> contains_text ''/finalize'' path
      then map_option (get_attachment cx sess) (SplitAttachmentSubPath path) else None)]"

end
