(* ===== verification/Http_Dispatch.thy ===== *)
theory Http_Dispatch
  imports Http_Public Http_Get
begin

text \<open>
  The PUT and DELETE routes of \<open>HandleAuthenticated\<close>, \<open>HandleAuthenticated\<close> itself, the table of known
  routes and \<open>DispatchHttp\<close> of \<open>lib/vox_net/http_dispatch.cpp\<close>, and \<open>HttpSession::OnRead\<close> of
  \<open>http_session.cpp\<close>, which authenticates a request and turns an exception into a response.
\<close>

section \<open>PUT\<close>

definition put_key_bundle :: "ServerContext \<Rightarrow> HttpRequest \<Rightarrow> SessionRecord \<Rightarrow> handler" where
  "put_key_bundle cx req sess = with_body cx req (\<lambda>o' sv.
     case User_FindById (s_user_id sess) (sv_db sv) of
       None \<Rightarrow> own_reply cx kNotFound ''User not found'' sv
     | Some u \<Rightarrow>
         let version = i32 (u_sync_key_version u + 1)
         in checked cx (on_db (SetSyncKeyBundle (s_user_id sess)
              \<lparr>sb_sync_key_version = version, sb_wrapped_sync_key = field o' ''wrapped_sync_key'',
               sb_sync_wrap_salt = field o' ''sync_wrap_salt'',
               sb_sync_wrap_params = SerializeSyncWrapParams (cx_json cx) o'\<rparr>) sv) (\<lambda>_ sv.
              ok_reply cx (JObject [(''sync_key_version'', JInt version)])
                (NotifyUserDevicesExcept cx (s_user_id sess) (s_user_id sess) (s_device_id sess) (devices_changed sess) sv)))"

definition record_changed :: "string \<times> string \<Rightarrow> SyncPutResult \<Rightarrow> json" where
  "record_changed sr result = JObject
     [(''type'', JString ''sync_record_changed''), (''collection'', JString (fst sr)),
      (''record_id'', JString (snd sr)), (''version'', JInt (sp_version result))]"

definition base_version :: "json_object \<Rightarrow> int" where
  "base_version o' = i32 (case JsonInt o' ''base_version'' of None \<Rightarrow> 0 | Some v \<Rightarrow> v)"

definition client_updated_at :: "json_object \<Rightarrow> Timestamp \<Rightarrow> Timestamp" where
  "client_updated_at o' now = (case JsonInt o' ''client_updated_at'' of None \<Rightarrow> now | Some t \<Rightarrow> t)"

definition put_sync_record ::
    "ServerContext \<Rightarrow> request_draws \<Rightarrow> HttpRequest \<Rightarrow> SessionRecord \<Rightarrow> string \<times> string \<Rightarrow> handler" where
  "put_sync_record cx rx req sess sr = with_body cx req (\<lambda>o' sv.
     if field o' ''device_id'' \<noteq> s_device_id sess
     then own_reply cx kForbidden ''device_id must match session device'' sv
     else checked cx (on_db (UpsertRecord (cx_sqlite cx) (s_user_id sess) (fst sr) (snd sr) (field o' ''ciphertext'')
              (field o' ''content_hash'') (base_version o') (client_updated_at o' (rx_now rx)) (rx_now rx)) sv) (\<lambda>result sv.
            ok_reply cx (JObject [(''record_id'', JString (sp_record_id result)), (''version'', JInt (sp_version result)),
                (''server_updated_at'', JInt (sp_server_updated_at result))])
              (NotifyUserDevicesExcept cx (s_user_id sess) (s_user_id sess) (s_device_id sess) (record_changed sr result) sv)))"

definition put_signed_prekey ::
    "ServerContext \<Rightarrow> request_draws \<Rightarrow> HttpRequest \<Rightarrow> SessionRecord \<Rightarrow> UserId \<times> DeviceId \<Rightarrow> handler" where
  "put_signed_prekey cx rx req sess = (\<lambda>(owner_uid, dev_id) sv.
     if owner_uid \<noteq> s_user_id sess \<or> dev_id \<noteq> s_device_id sess
     then own_reply cx kForbidden ''Can only rotate signed prekey for own device'' sv
     else with_body cx req (\<lambda>o' sv.
       checked cx (on_db (UpdateSignedPrekey owner_uid dev_id (field o' ''signed_prekey_public'')
           (field o' ''signed_prekey_signature'') (rx_now rx)) sv) (\<lambda>_ sv.
         ok_reply cx empty_object
           (NotifyUserDevicesExcept cx (s_user_id sess) (s_user_id sess) (s_device_id sess) (devices_changed sess) sv))) sv)"

definition put_chunk :: "ServerContext \<Rightarrow> HttpRequest \<Rightarrow> AttachmentId \<Rightarrow> handler" where
  "put_chunk cx req attachment_id = or_throw (int_param req ''offset'' 0) (\<lambda>offset sv.
     checked cx (on_files (WriteChunk attachment_id offset (rq_body req)) sv) (\<lambda>_. ok_reply cx empty_object))"

definition put_routes ::
    "ServerContext \<Rightarrow> request_draws \<Rightarrow> HttpRequest \<Rightarrow> string \<Rightarrow> SessionRecord \<Rightarrow> handler option list" where
  "put_routes cx rx req path sess =
    [route (path = ''/v1/sync/key-bundle'') (put_key_bundle cx req sess),
     map_option (put_sync_record cx rx req sess) (SplitSyncRecordPath path),
     map_option (put_signed_prekey cx rx req sess) (device_scope sess path ''signed-prekey''),
     (if prefix ''/v1/attachments/'' path \<and> contains_text ''/chunk'' path
      then map_option (put_chunk cx req) (SplitAttachmentSubPath path) else None)]"

section \<open>DELETE\<close>

definition delete_device :: "ServerContext \<Rightarrow> request_draws \<Rightarrow> SessionRecord \<Rightarrow> DeviceId \<Rightarrow> handler" where
  "delete_device cx rx sess target sv =
     (if target = [] then no_match sv
      else if target = s_device_id sess then own_reply cx kInvalidArgument ''Cannot revoke current device'' sv
      else case FindByUserAndDevice (s_user_id sess) target (sv_db sv) of
        None \<Rightarrow> own_reply cx kNotFound ''Device not found'' sv
      | Some _ \<Rightarrow>
          checked cx (on_db (RevokeDevice (s_user_id sess) target (rx_now rx)) sv) (\<lambda>_ sv.
          checked cx (on_db (Token_RevokeAllForDevice (s_user_id sess) target (rx_now rx)) sv) (\<lambda>_ sv.
            ok_reply cx empty_object
              (NotifyUserDevicesExcept cx (s_user_id sess) (s_user_id sess) (s_device_id sess) (devices_changed sess) sv))))"

definition delete_sync_record ::
    "ServerContext \<Rightarrow> request_draws \<Rightarrow> HttpRequest \<Rightarrow> SessionRecord \<Rightarrow> string \<times> string \<Rightarrow> handler" where
  "delete_sync_record cx rx req sess sr = with_body cx req (\<lambda>o' sv.
     if field o' ''device_id'' \<noteq> s_device_id sess
     then own_reply cx kForbidden ''device_id must match session device'' sv
     else checked cx (on_db (TombstoneRecord (s_user_id sess) (fst sr) (snd sr) (base_version o')
              (client_updated_at o' (rx_now rx)) (rx_now rx)) sv) (\<lambda>result sv.
            ok_reply cx (JObject [(''record_id'', JString (sp_record_id result)), (''version'', JInt (sp_version result)),
                (''server_updated_at'', JInt (sp_server_updated_at result)), (''deleted'', JBool True)])
              (NotifyUserDevicesExcept cx (s_user_id sess) (s_user_id sess) (s_device_id sess) (record_changed sr result) sv)))"

definition delete_member :: "ServerContext \<Rightarrow> request_draws \<Rightarrow> SessionRecord \<Rightarrow> ConversationId \<Rightarrow> UserId \<Rightarrow> handler" where
  "delete_member cx rx sess conv_id target_user sv =
     checked cx (on_relay (cx_json cx) (RemoveMember (cx_sqlite cx) (rx_now rx) conv_id (s_user_id sess) target_user) sv)
       (\<lambda>_. membership_changed cx conv_id)"

definition delete_routes ::
    "ServerContext \<Rightarrow> request_draws \<Rightarrow> HttpRequest \<Rightarrow> string \<Rightarrow> SessionRecord \<Rightarrow> handler option list" where
  "delete_routes cx rx req path sess =
    [route (prefix ''/v1/me/devices/'' path) (delete_device cx rx sess (drop (length ''/v1/me/devices/'') path)),
     map_option (delete_sync_record cx rx req sess) (SplitSyncRecordPath path),
     (case SplitConvSubPath path of
        None \<Rightarrow> None
      | Some (conv_id, tail) \<Rightarrow>
          if prefix ''members/'' tail then Some (delete_member cx rx sess conv_id (drop (length ''members/'') tail)) else None)]"

section \<open>Dispatch\<close>

definition routes ::
    "ServerContext \<Rightarrow> request_draws \<Rightarrow> HttpRequest \<Rightarrow> string \<Rightarrow> SessionRecord \<Rightarrow> handler option list" where
  "routes cx rx req path sess =
     (case rq_method req of
        verb_post \<Rightarrow> post_routes cx rx req path sess
      | verb_get \<Rightarrow> get_routes cx rx req path sess
      | verb_put \<Rightarrow> put_routes cx rx req path sess
      | verb_delete \<Rightarrow> delete_routes cx rx req path sess
      | verb_other \<Rightarrow> [])"

definition HandleAuthenticated ::
    "ServerContext \<Rightarrow> request_draws \<Rightarrow> HttpRequest \<Rightarrow> string \<Rightarrow> SessionRecord \<Rightarrow> handler" where
  "HandleAuthenticated cx rx req path sess = first_route (routes cx rx req path sess)"

definition known_post :: "string \<Rightarrow> bool" where
  "known_post path \<longleftrightarrow>
     (if path = ''/v1/logout'' \<or> path = ''/v1/messages/send'' \<or> path = ''/v1/messages/ack'' \<or>
         path = ''/v1/conversations'' \<or> path = ''/v1/attachments/upload-init'' \<or> path = ''/v1/account/change-password''
      then True
      else if prefix ''/v1/attachments/'' path \<and> suffix ''/finalize'' path then SplitAttachmentSubPath path \<noteq> None
      else if (case SplitConvSubPath path of None \<Rightarrow> False
               | Some (_, tail) \<Rightarrow> tail = ''members'' \<or> tail = ''subscribe'' \<or> tail = ''unsubscribe'') then True
      else if SplitDeviceSubPath path ''prekeys'' \<noteq> None \<or> SplitUserDeviceSubPath path ''prekeys'' \<noteq> None then True
      else SplitDeviceSubPath path ''signed-prekey'' \<noteq> None \<or> SplitUserDeviceSubPath path ''signed-prekey'' \<noteq> None)"

definition known_get :: "string \<Rightarrow> bool" where
  "known_get path \<longleftrightarrow>
     (if path = ''/v1/me'' \<or> path = ''/v1/me/devices'' \<or> path = ''/v1/sync/pending'' \<or> path = ''/v1/conversations'' \<or>
         path = ''/v1/users'' \<or> path = ''/v1/sync/key-bundle'' then True
      else if prefix ''/v1/sync/changes'' path then True
      else if prefix ''/v1/users/'' path then True
      else if ConversationIdOnly path \<noteq> None then True
      else if (case SplitConvSubPath path of None \<Rightarrow> False
               | Some (_, tail) \<Rightarrow> tail = ''envelopes'' \<or> tail = ''members'') then True
      else if SplitDeviceSubPath path ''prekey-bundle'' \<noteq> None \<or> SplitUserDeviceSubPath path ''prekey-bundle'' \<noteq> None
      then True
      else if prefix ''/v1/users/'' path \<and> contains_text ''/prekey-bundles'' path then True
      else if prefix ''/v1/attachments/'' path \<and> \<not> contains_text ''/chunk'' path \<and> \<not> contains_text ''/finalize'' path
      then SplitAttachmentSubPath path \<noteq> None
      else False)"

definition known_put :: "string \<Rightarrow> bool" where
  "known_put path \<longleftrightarrow>
     (if path = ''/v1/sync/key-bundle'' then True
      else if prefix ''/v1/sync/records/'' path then True
      else if SplitDeviceSubPath path ''signed-prekey'' \<noteq> None \<or> SplitUserDeviceSubPath path ''signed-prekey'' \<noteq> None
      then True
      else if prefix ''/v1/attachments/'' path \<and> contains_text ''/chunk'' path then SplitAttachmentSubPath path \<noteq> None
      else False)"

definition known_delete :: "string \<Rightarrow> bool" where
  "known_delete path \<longleftrightarrow>
     (if prefix ''/v1/me/devices/'' path then True
      else if prefix ''/v1/sync/records/'' path then True
      else (case SplitConvSubPath path of None \<Rightarrow> False | Some (_, tail) \<Rightarrow> prefix ''members/'' tail))"

fun IsKnownProtectedRoute :: "http_verb \<Rightarrow> string \<Rightarrow> bool" where
  "IsKnownProtectedRoute verb_post path = known_post path"
| "IsKnownProtectedRoute verb_get path = known_get path"
| "IsKnownProtectedRoute verb_put path = known_put path"
| "IsKnownProtectedRoute verb_delete path = known_delete path"
| "IsKnownProtectedRoute verb_other path = False"

text \<open>One call of a limiter, when there is one; without one every request is allowed.\<close>

definition allow_auth :: "string \<Rightarrow> request_draws \<Rightarrow> server \<Rightarrow> bool \<times> server" where
  "allow_auth key rx sv =
     (case sv_auth_limiter sv of
        None \<Rightarrow> (True, sv)
      | Some rl \<Rightarrow> (case Allow key (rx_steady rx) rl of (b, rl') \<Rightarrow> (b, sv\<lparr>sv_auth_limiter := Some rl'\<rparr>)))"

definition allow_account :: "UserId \<Rightarrow> request_draws \<Rightarrow> server \<Rightarrow> bool \<times> server" where
  "allow_account key rx sv =
     (case sv_account_limiter sv of
        None \<Rightarrow> (True, sv)
      | Some rl \<Rightarrow> (case Allow key (rx_steady rx) rl of (b, rl') \<Rightarrow> (b, sv\<lparr>sv_account_limiter := Some rl'\<rparr>)))"

definition auth_route :: "http_verb \<Rightarrow> string \<Rightarrow> bool" where
  "auth_route m path \<longleftrightarrow> m = verb_post \<and> (path = ''/v1/register'' \<or> path = ''/v1/login'' \<or> path = ''/v1/refresh'')"

definition heavy_route :: "http_verb \<Rightarrow> string \<Rightarrow> bool" where
  "heavy_route m path \<longleftrightarrow> (m = verb_post \<and> path = ''/v1/messages/send'') \<or>
     (m = verb_put \<and> prefix ''/v1/attachments/'' path \<and> contains_text ''/chunk'' path)"

text \<open>\<open>if (auto r = f(...)) return *r;\<close> with what follows.\<close>

definition or_else :: "handler \<Rightarrow> handler \<Rightarrow> handler" where
  "or_else h k sv = (case h sv of (NoMatch, sv') \<Rightarrow> k sv' | res \<Rightarrow> res)"

text \<open>The end of \<open>DispatchHttp\<close>, from the check for a session on.\<close>

definition dispatch_session ::
    "ServerContext \<Rightarrow> request_draws \<Rightarrow> HttpRequest \<Rightarrow> string \<Rightarrow> SessionRecord option \<Rightarrow> handler" where
  "dispatch_session cx rx req path session sv =
     (case session of
        None \<Rightarrow> if \<not> IsKnownProtectedRoute (rq_method req) path then (Reply NotFoundRes, sv)
                else own_reply cx kUnauthorized ''Authentication required'' sv
      | Some sess \<Rightarrow>
          (case (if heavy_route (rq_method req) path then allow_account (s_user_id sess) rx sv else (True, sv)) of
             (False, sv') \<Rightarrow> own_reply cx kRateLimited ''Too many requests'' sv'
           | (True, sv') \<Rightarrow>
               or_else (HandleAuthenticated cx rx req path sess) (\<lambda>sv. (Reply NotFoundRes, sv)) sv'))"

definition DispatchHttp ::
    "ServerContext \<Rightarrow> request_draws \<Rightarrow> HttpRequest \<Rightarrow> SessionRecord option \<Rightarrow> string \<Rightarrow> handler" where
  "DispatchHttp cx rx req session client_ip sv =
     (let m = rq_method req; path = PathOnly (rq_target req)
      in if length (rq_body req) > max_http_body_bytes (cx_config cx)
         then own_reply cx kPayloadTooLarge ''Request body too large'' sv
         else case (if auth_route m path
                    then allow_auth (if client_ip = [] then ''unknown'' else client_ip) rx sv else (True, sv)) of
           (False, sv') \<Rightarrow> own_reply cx kRateLimited ''Too many requests'' sv'
         | (True, sv') \<Rightarrow>
             if m = verb_get \<and> path = ''/v1/health'' then ok_reply cx (JObject [(''status'', JString ''ok'')]) sv'
             else or_else (TryPublicAuth cx rx req path)
               (or_else (TryAdmin cx rx req path) (dispatch_session cx rx req path session)) sv')"

section \<open>A connection\<close>

text \<open>The session of a request: that of its bearer token, if the token is valid.\<close>

definition request_session :: "ServerContext \<Rightarrow> Timestamp \<Rightarrow> HttpRequest \<Rightarrow> db \<Rightarrow> SessionRecord option" where
  "request_session cx now req d =
     (case ParseBearer req of
        None \<Rightarrow> None
      | Some bearer \<Rightarrow>
          (case ValidateAccessToken (cx_tokens cx) bearer now d of Inl _ \<Rightarrow> None | Inr sess \<Rightarrow> Some sess))"

text \<open>
  The two branches of \<open>OnRead\<close> that call \<open>DispatchHttp\<close>, on the storage pool or in place, catch every
  exception and answer 500.
\<close>

definition serve :: "ServerContext \<Rightarrow> request_draws \<Rightarrow> HttpRequest \<Rightarrow> SessionRecord option \<Rightarrow> string \<Rightarrow> server \<Rightarrow> HttpResponse \<times> server" where
  "serve cx rx req sess client_ip sv =
     (case DispatchHttp cx rx req sess client_ip sv of
        (Reply res, sv') \<Rightarrow> (res, sv')
      | (_, sv') \<Rightarrow> (InternalServerErrorResponse (cx_json cx) ''Internal server error'', sv'))"

datatype outcome = Answered HttpResponse | Upgraded

text \<open>
  \<open>is_upgrade\<close> of Boost.Beast is an argument, as is the identity of the new WebSocket session; the
  handshake ends in \<open>OnAccept\<close>.
\<close>

definition OnRead ::
    "ServerContext \<Rightarrow> Timestamp \<Rightarrow> request_draws \<Rightarrow> bool \<Rightarrow> nat \<Rightarrow> string \<Rightarrow> HttpRequest \<Rightarrow> server \<Rightarrow> outcome \<times> server" where
  "OnRead cx now rx is_upgrade i client_ip req sv =
     (if is_upgrade
      then if \<not> IsWsPath (PathOnly (rq_target req))
           then (Answered (StringResponse 404 (Some ''text/plain'') ''Not Found''), sv)
           else (Upgraded, sv\<lparr>sv_ws := OnAccept (cx_tokens cx) (sv_db sv) now (ParseBearer req) i WebSocketSession_new (sv_ws sv)\<rparr>)
      else apfst Answered (serve cx rx req (request_session cx now req (sv_db sv)) client_ip sv))"

section \<open>No reply is left open\<close>

lemma or_else_reply: "fst (k (snd (h sv))) \<noteq> NoMatch \<Longrightarrow> fst (or_else h k sv) \<noteq> NoMatch"
  by (auto simp: or_else_def split: prod.split reply.split)

end
