(* ===== verification/Server_Relation.thy ===== *)
theory Server_Relation
  imports Http_Dispatch
begin

text \<open>
  Reasoning about handlers. A relation between the states before and after a handler that is
  reflexive and transitive and is not broken by a notification or a limiter passes through the
  combinators of the handlers (locale \<open>handler_relation\<close>). If it holds for every operation of the
  services that an authenticated request can call, it holds for every such request
  (locale \<open>session_relation\<close>), and with the operations of the public and the administrative routes
  for every request (locale \<open>request_relation\<close>).
\<close>

section \<open>The combinators\<close>

text \<open>A handler stays in a relation whatever state it starts from.\<close>

definition through :: "(server \<Rightarrow> server \<Rightarrow> bool) \<Rightarrow> handler \<Rightarrow> bool" where
  "through R h \<longleftrightarrow> (\<forall>sv. R sv (snd (h sv)))"

locale handler_relation =
  fixes R :: "server \<Rightarrow> server \<Rightarrow> bool"
  assumes refl [simp]: "R sv sv"
    and trans [trans]: "R sv1 sv2 \<Longrightarrow> R sv2 sv3 \<Longrightarrow> R sv1 sv3"
    and notify: "R sv (sv\<lparr>sv_ws := Notify key msg (sv_ws sv)\<rparr>)"
    and limiters: "R sv (snd (allow_auth key rx sv))" "R sv (snd (allow_account key rx sv))"
begin

lemma notify_fold: "R sv (sv\<lparr>sv_ws := fold (\<lambda>x ws. if P x then ws else Notify (k x) (m x) ws) xs (sv_ws sv)\<rparr>)"
proof (induction xs arbitrary: sv)
  case (Cons x xs)
  let ?sv = "if P x then sv else sv\<lparr>sv_ws := Notify (k x) (m x) (sv_ws sv)\<rparr>"
  have "R sv ?sv" by (simp add: notify)
  also have "R ?sv (?sv\<lparr>sv_ws := fold (\<lambda>x ws. if P x then ws else Notify (k x) (m x) ws) xs (sv_ws ?sv)\<rparr>)" by (rule Cons)
  finally show ?case by (simp split: if_splits)
qed simp

lemma hook_fold: "R sv (sv\<lparr>sv_ws := fold (enqueue_hook js) cs (sv_ws sv)\<rparr>)"
  using notify_fold [where P = "\<lambda>_. False" and xs = cs]
  by (simp add: enqueue_hook_def case_prod_unfold)

lemma notify_devices: "R sv (sv\<lparr>sv_ws := notify_devices sq d line skip uid (sv_ws sv)\<rparr>)"
proof -
  have "(\<lambda>v ws. if d_revoked_at v \<noteq> None then ws else if skip v then ws
      else Notify (DeviceScopeKey (d_user_id v) (d_device_id v)) line ws) =
    (\<lambda>v ws. if d_revoked_at v \<noteq> None \<or> skip v then ws
      else Notify (DeviceScopeKey (d_user_id v) (d_device_id v)) line ws)" by (intro ext) simp
  then show ?thesis
    using notify_fold [where P = "\<lambda>v. d_revoked_at v \<noteq> None \<or> skip v"] by (simp add: notify_devices_def)
qed

lemma notify_users: "R sv (sv\<lparr>sv_ws := snd (notify_users sq d line seen uids (sv_ws sv))\<rparr>)"
proof (induction uids arbitrary: seen sv)
  case (Cons uid uids)
  let ?sv = "sv\<lparr>sv_ws := notify_devices sq d line (\<lambda>_. False) uid (sv_ws sv)\<rparr>"
  have "R sv ?sv" by (rule notify_devices)
  also have "R ?sv (?sv\<lparr>sv_ws := snd (notify_users sq d line (uid # seen) uids (sv_ws ?sv))\<rparr>)" by (rule Cons)
  finally show ?case using Cons by simp
qed simp

lemma notify_other_devices: "R sv (NotifyUserDevicesExcept cx u u' v evt sv)"
  by (simp add: NotifyUserDevicesExcept_def notify_devices)

lemma notify_conversation: "R sv (sv\<lparr>sv_ws := notify_conversation sq d line conv_id typ (sv_ws sv)\<rparr>)"
proof -
  obtain seen ws where n: "notify_users sq d line [] (map m_user_id (GetMembers sq conv_id d)) (sv_ws sv) = (seen, ws)"
    by fastforce
  have "R sv (sv\<lparr>sv_ws := ws\<rparr>)" using notify_users [of sv] n by (metis snd_conv)
  moreover have "R (sv\<lparr>sv_ws := ws\<rparr>) (sv\<lparr>sv_ws := snd (notify_users sq d line seen (GetSubscribers sq conv_id d) ws)\<rparr>)"
    using notify_users [of "sv\<lparr>sv_ws := ws\<rparr>"] by simp
  ultimately show ?thesis using n trans by (simp add: notify_conversation_def)
qed

lemma notify_membership: "R sv (NotifyConversationMembershipChanged cx conv_id sv)"
  by (simp add: NotifyConversationMembershipChanged_def notify_conversation split: option.split)

lemma throughI: "(\<And>sv. R sv (snd (h sv))) \<Longrightarrow> through R h"
  by (simp add: through_def)

lemma throughD: "through R h \<Longrightarrow> R sv (snd (h sv))"
  by (simp add: through_def)

lemma through_replies [intro!, simp]:
  "through R (ok_reply cx v)" "through R (error_reply cx e)" "through R (own_reply cx c m)" "through R no_match"
  "through R (\<lambda>sv. (Reply res, sv))"
  by (simp_all add: through_def ok_reply_def error_reply_def own_reply_def no_match_def)

lemma reply_snd [simp]:
  "R sv (snd (ok_reply cx v sv))" "R sv (snd (own_reply cx c m sv))" "R sv (snd (no_match sv))"
  by (simp_all add: ok_reply_def own_reply_def no_match_def)

lemma through_with_body: "(\<And>o'. through R (k o')) \<Longrightarrow> through R (with_body cx req k)"
  by (simp add: through_def with_body_def split: sum.split)

lemma through_or_throw: "(\<And>x. through R (k x)) \<Longrightarrow> through R (or_throw x k)"
  by (simp add: through_def or_throw_def split: option.split)

lemma checked_R:
  assumes "R sv (snd rs)" and "\<And>x. through R (k x)"
  shows "R sv (snd (checked cx rs k))"
  using assms trans [OF assms(1)] by (auto simp: checked_def error_reply_def through_def split: prod.split sum.split)

lemma checked_opt_R:
  assumes "R sv (snd rs)" and "\<And>x. through R (k x)"
  shows "R sv (snd (checked_opt cx rs k))"
  using assms by (auto simp: checked_opt_def intro: checked_R split: prod.split option.split)

lemma through_or_else: "through R h \<Longrightarrow> through R k \<Longrightarrow> through R (or_else h k)"
  unfolding through_def or_else_def using trans by (auto split: prod.split reply.split) (metis snd_conv)+

lemma through_first_route: "list_all (pred_option (through R)) rs \<Longrightarrow> through R (first_route rs)"
  by (induction rs rule: first_route.induct) auto

lemma through_some [simp]:
  "through R h \<Longrightarrow> pred_option (through R) (route b h)"
  "(\<And>x. through R (f x)) \<Longrightarrow> pred_option (through R) (conv_route path tail f)"
  "(\<And>x. through R (f x)) \<Longrightarrow> pred_option (through R) (user_before suf path f)"
  by (simp_all add: route_def conv_route_def user_before_def Let_def split: option.split)

lemma through_with_active_user: "(\<And>u. through R (k u)) \<Longrightarrow> through R (with_active_user cx found k)"
  by (simp add: through_def with_active_user_def split: option.split)

lemma through_membership [intro!, simp]:
  "through R (membership_changed cx conv_id)" "through R (conversation_created cx conv_id)"
  by (simp_all add: through_def membership_changed_def conversation_created_def ok_reply_def notify_membership)

lemma through_ok_notify [intro!, simp]:
  "through R (\<lambda>sv. ok_reply cx v (NotifyUserDevicesExcept cx u u' dev evt sv))"
  by (simp add: through_def ok_reply_def notify_other_devices)

lemma on_relay_R:
  assumes "case f (sv_delivery sv, sv_db sv) of (r, dm, d) \<Rightarrow> R sv (sv\<lparr>sv_delivery := dm, sv_db := d\<rparr>)"
  shows "R sv (snd (on_relay js f sv))"
proof -
  obtain r dm d where f: "f (sv_delivery sv, sv_db sv) = (r, dm, d)" by (metis prod.exhaust)
  let ?sv = "sv\<lparr>sv_delivery := dm, sv_db := d\<rparr>"
  have "R sv ?sv" using assms f by simp
  also have "R ?sv (?sv\<lparr>sv_ws := fold (enqueue_hook js)
      (drop (length (dm_hook_calls (sv_delivery sv))) (dm_hook_calls dm)) (sv_ws ?sv)\<rparr>)" by (rule hook_fold)
  finally show ?thesis by (simp add: on_relay_def f)
qed

lemma on_files_R:
  "case f (sv_files sv, sv_db sv) of (r, fs, d) \<Rightarrow> R sv (sv\<lparr>sv_files := fs, sv_db := d\<rparr>) \<Longrightarrow> R sv (snd (on_files f sv))"
  by (auto simp: on_files_def split: prod.splits)

lemma read_only [intro!, simp]:
  "through R (get_me cx sess)" "through R (get_me_devices cx sess)" "through R (get_key_bundle cx sess)"
  "through R (get_sync_changes cx req sess)" "through R (get_users cx req)" "through R (get_by_username cx name)"
  "through R (get_search cx req)" "through R (get_user cx u)" "through R (get_user_devices cx u)"
  "through R (get_conversation cx sess c)" "through R (get_members cx sess c)" "through R (get_conversations cx sess)"
  "through R (get_pending cx req sess)" "through R (get_envelopes cx req sess c)" "through R (get_attachment cx sess i)"
  by (simp_all add: through_def get_me_def get_me_devices_def get_key_bundle_def get_sync_changes_def get_users_def
      get_by_username_def get_search_def get_user_def get_user_devices_def get_conversation_def get_members_def
      get_conversations_def get_pending_def get_envelopes_def get_attachment_def with_active_user_def or_throw_def
      checked_def error_reply_def Let_def split: option.split sum.split)

lemma through_user_route [simp]: "pred_option (through R) (user_route cx path)"
  by (simp add: user_route_def Let_def)

end

lemma pred_option_if: "pred_option P (if b then x else y) \<longleftrightarrow> (if b then pred_option P x else pred_option P y)"
  by simp

lemma snd_on_db: "snd (on_db f sv) = sv\<lparr>sv_db := snd (f (sv_db sv))\<rparr>"
  by (simp add: on_db_def split: prod.split)

section \<open>Authenticated requests\<close>

text \<open>
  The operations that the handlers call for a session: on the account, the device and the records of
  its own user, on conversations and attachments, and the prekey bundle of any device.
\<close>

locale session_relation = handler_relation R
  for R :: "server \<Rightarrow> server \<Rightarrow> bool" +
  fixes cx :: ServerContext and sess :: SessionRecord
  assumes account:
      "R sv (sv\<lparr>sv_db := snd (Logout (s_session_id sess) now (sv_db sv))\<rparr>)"
      "R sv (sv\<lparr>sv_db := snd (ChangePassword (cx_auth cx) salt (s_user_id sess) cq (sv_db sv))\<rparr>)"
      "R sv (sv\<lparr>sv_db := snd (SetSyncKeyBundle (s_user_id sess) b (sv_db sv))\<rparr>)"
      "R sv (sv\<lparr>sv_db := snd (RevokeDevice (s_user_id sess) dev now (sv_db sv))\<rparr>)"
      "R sv (sv\<lparr>sv_db := snd (Token_RevokeAllForDevice (s_user_id sess) dev now (sv_db sv))\<rparr>)"
    and keys:
      "R sv (sv\<lparr>sv_db := snd (StorePrekeys (cx_sqlite cx) (s_user_id sess) dev pks now (sv_db sv))\<rparr>)"
      "R sv (sv\<lparr>sv_db := snd (UpdateSignedPrekey (s_user_id sess) dev key sig now (sv_db sv))\<rparr>)"
      "R sv (sv\<lparr>sv_db := snd (GetPrekeyBundle (cx_sqlite cx) u dev now (sv_db sv))\<rparr>)"
    and records:
      "R sv (sv\<lparr>sv_db := snd (UpsertRecord (cx_sqlite cx) (s_user_id sess) coll rid ct h bv t now (sv_db sv))\<rparr>)"
      "R sv (sv\<lparr>sv_db := snd (TombstoneRecord (s_user_id sess) coll rid bv t now (sv_db sv))\<rparr>)"
    and messages:
      "R sv (sv\<lparr>sv_db := snd (AcknowledgeEnvelope (s_user_id sess) dev eid now (sv_db sv))\<rparr>)"
      "case SendEnvelope (cx_sqlite cx) (cx_config cx) r now sm (sv_delivery sv, sv_db sv) of
         (res, dm, d) \<Rightarrow> R sv (sv\<lparr>sv_delivery := dm, sv_db := d\<rparr>)"
    and conversations:
      "R sv (sv\<lparr>sv_db := snd (CreateDm (cx_sqlite cx) r now a b' by' (sv_db sv))\<rparr>)"
      "R sv (sv\<lparr>sv_db := snd (CreateGroup (cx_sqlite cx) (cx_config cx) r now by' ids (sv_db sv))\<rparr>)"
      "R sv (sv\<lparr>sv_db := snd (CreateChannel (cx_sqlite cx) (cx_config cx) r now by' ids ids' (sv_db sv))\<rparr>)"
      "R sv (sv\<lparr>sv_db := snd (AddMember (cx_sqlite cx) (cx_config cx) now c a u role (sv_db sv))\<rparr>)"
      "R sv (sv\<lparr>sv_db := snd (SubscribeChannel (cx_sqlite cx) (cx_config cx) now c u (sv_db sv))\<rparr>)"
      "case UnsubscribeChannel (cx_sqlite cx) now c u (sv_delivery sv, sv_db sv) of
         (res', dm, d) \<Rightarrow> R sv (sv\<lparr>sv_delivery := dm, sv_db := d\<rparr>)"
      "case RemoveMember (cx_sqlite cx) now c a u (sv_delivery sv, sv_db sv) of
         (res', dm, d) \<Rightarrow> R sv (sv\<lparr>sv_delivery := dm, sv_db := d\<rparr>)"
    and attachments:
      "R sv (sv\<lparr>sv_db := snd (InitUpload (cx_sqlite cx) (cx_config cx) r now u c n mime (sv_db sv))\<rparr>)"
      "case WriteChunk i off data (sv_files sv, sv_db sv) of (res', fs, d) \<Rightarrow> R sv (sv\<lparr>sv_files := fs, sv_db := d\<rparr>)"
      "case FinalizeUpload i h (sv_files sv, sv_db sv) of (res', fs, d) \<Rightarrow> R sv (sv\<lparr>sv_files := fs, sv_db := d\<rparr>)"
begin

lemmas db_R = account keys records messages(1) conversations(1-5) attachments(1)

lemma files_R: "R sv (snd (on_files (WriteChunk i off data) sv))" "R sv (snd (on_files (FinalizeUpload i h) sv))"
  by (rule on_files_R, rule attachments)+

lemma relay_R:
  "R sv (snd (on_relay js (SendEnvelope (cx_sqlite cx) (cx_config cx) r now sm) sv))"
  "R sv (snd (on_relay js (UnsubscribeChannel (cx_sqlite cx) now c u) sv))"
  "R sv (snd (on_relay js (RemoveMember (cx_sqlite cx) now c a u) sv))"
  by (rule on_relay_R, rule messages conversations)+

lemma through_posts [intro!, simp]:
  "through R (post_logout cx rx sess)" "through R (post_change_password cx rx req sess)"
  "through R (post_send cx rx req sess)" "through R (post_ack cx rx req sess)"
  "through R (post_conversations cx rx req sess)" "through R (post_member cx rx req sess c)"
  "through R (post_subscribe cx rx sess c)" "through R (post_unsubscribe cx rx sess c)"
  "through R (post_upload_init cx rx req sess)" "through R (post_finalize cx req i)"
  unfolding post_logout_def post_change_password_def post_send_def post_ack_def post_conversations_def
    post_member_def post_subscribe_def post_unsubscribe_def post_upload_init_def post_finalize_def
  by ((rule through_with_body)?, rule throughI,
      (auto intro!: checked_R checked_opt_R simp: snd_on_db db_R relay_R files_R Let_def)[1])+

lemma through_own_device [intro!, simp]:
  "through R (post_prekeys cx rx req sess ud)" "through R (put_signed_prekey cx rx req sess ud)"
proof -
  have "through R (with_body cx req (\<lambda>o' sv. checked cx (on_db (StorePrekeys (cx_sqlite cx) (s_user_id sess) dev
      (prekey_list dev o') (rx_now rx)) sv) (\<lambda>_. ok_reply cx empty_object)))" for dev
    by (rule through_with_body, rule throughI) (auto intro!: checked_R simp: snd_on_db db_R)
  then show "through R (post_prekeys cx rx req sess ud)"
    by (auto simp: post_prekeys_def through_def split: prod.split)
  have "through R (with_body cx req (\<lambda>o' sv. checked cx (on_db (UpdateSignedPrekey (s_user_id sess) dev
      (field o' ''signed_prekey_public'') (field o' ''signed_prekey_signature'') (rx_now rx)) sv) (\<lambda>_ sv.
         ok_reply cx empty_object
           (NotifyUserDevicesExcept cx (s_user_id sess) (s_user_id sess) (s_device_id sess) (devices_changed sess) sv))))" for dev
    by (rule through_with_body, rule throughI) (auto intro!: checked_R simp: snd_on_db db_R)
  then show "through R (put_signed_prekey cx rx req sess ud)"
    by (auto simp: put_signed_prekey_def through_def split: prod.split)
qed

lemma through_key_bundle [intro!, simp]: "through R (put_key_bundle cx req sess)"
  unfolding put_key_bundle_def
  by (rule through_with_body, rule throughI)
    (auto intro!: checked_R simp: snd_on_db db_R Let_def split: option.split)

lemma through_changes [intro!, simp]:
  "through R (put_sync_record cx rx req sess sr)" "through R (delete_sync_record cx rx req sess sr)"
  "through R (delete_member cx rx sess c u)" "through R (put_chunk cx req i)"
  unfolding put_sync_record_def delete_sync_record_def delete_member_def put_chunk_def
  by ((rule through_with_body through_or_throw)?, rule throughI,
      (auto intro!: checked_R simp: snd_on_db db_R relay_R files_R)[1])+

lemma through_delete_device [intro!, simp]: "through R (delete_device cx rx sess dev)"
proof -
  have "through R (\<lambda>sv. checked cx (on_db (Token_RevokeAllForDevice (s_user_id sess) dev (rx_now rx)) sv) (\<lambda>_ sv.
      ok_reply cx empty_object
        (NotifyUserDevicesExcept cx (s_user_id sess) (s_user_id sess) (s_device_id sess) (devices_changed sess) sv)))"
    by (rule throughI) (auto intro!: checked_R simp: snd_on_db db_R)
  then show ?thesis
    unfolding delete_device_def
    by (intro throughI) (auto intro!: checked_R simp: snd_on_db db_R split: option.split)
qed

lemma collect_bundles_R: "R sv (snd (collect_bundles cx rx u n vs bundles sv))"
proof (induction vs arbitrary: n bundles sv)
  case (Cons v vs)
  let ?p = "on_db (GetPrekeyBundle (cx_sqlite cx) u (d_device_id v) (rx_clock rx n)) sv"
  have "R sv (snd ?p)" by (simp add: snd_on_db db_R)
  then have "R sv (snd (collect_bundles cx rx u n' vs bundles' (snd ?p)))" for n' bundles' using Cons trans by blast
  with Cons show ?case by (cases ?p) (auto split: sum.split)
qed simp

lemma through_bundles [intro!, simp]:
  "through R (get_user_bundles cx rx u)" "through R (get_user_device_bundle cx rx ud)" "through R (get_device_bundle cx rx dev)"
proof -
  have b: "R sv (snd (bundle_of cx rx u v sv))" for u v sv
    unfolding bundle_of_def by (auto intro!: checked_R simp: snd_on_db db_R)
  then show "through R (get_user_device_bundle cx rx ud)" "through R (get_device_bundle cx rx dev)"
    by (auto intro!: throughI simp: get_user_device_bundle_def get_device_bundle_def split: list.split)
  have "R sv (snd (case collect_bundles cx rx u 0 vs [] sv of (bundles, sv') \<Rightarrow> ok_reply cx (f bundles) sv'))" for vs f sv
    using collect_bundles_R [of sv rx u 0 vs "[]"] by (auto simp: ok_reply_def split: prod.split)
  then show "through R (get_user_bundles cx rx u)"
    by (auto intro!: throughI simp: get_user_bundles_def with_active_user_def split: option.split)
qed

lemma through_routes: "list_all (pred_option (through R)) (routes cx rx req path sess)"
proof (cases "rq_method req")
  case verb_post
  then show ?thesis by (simp add: routes_def post_routes_def option.pred_map option.pred_True comp_def pred_option_if split: option.split)
next
  case verb_delete
  then show ?thesis by (simp add: routes_def delete_routes_def option.pred_map option.pred_True comp_def pred_option_if split: option.split)
qed (simp_all add: routes_def get_routes_def put_routes_def option.pred_map option.pred_True comp_def pred_option_if)

lemma through_authenticated: "through R (HandleAuthenticated cx rx req path sess)"
  unfolding HandleAuthenticated_def by (rule through_first_route [OF through_routes])

lemma through_session: "through R (dispatch_session cx rx req path (Some sess))"
proof (rule throughI)
  fix sv
  let ?a = "if heavy_route (rq_method req) path then allow_account (s_user_id sess) rx sv else (True, sv)"
  have "R sv (snd ?a)" by (simp add: limiters)
  moreover have "through R (or_else (HandleAuthenticated cx rx req path sess) (\<lambda>sv. (Reply NotFoundRes, sv)))"
    by (intro through_or_else through_authenticated through_replies)
  ultimately show "R sv (snd (dispatch_session cx rx req path (Some sess) sv))"
    using trans by (cases ?a) (auto simp: dispatch_session_def own_reply_def through_def split: bool.split)
qed

end

section \<open>Every request\<close>

text \<open>The operations without a session: the three authentication routes and the administration.\<close>

locale request_relation = handler_relation R
  for R :: "server \<Rightarrow> server \<Rightarrow> bool" +
  fixes cx :: ServerContext
  assumes public:
      "R sv (sv\<lparr>sv_db := snd (Register (cx_auth cx) ad rq (sv_db sv))\<rparr>)"
      "R sv (sv\<lparr>sv_db := snd (Login (cx_auth cx) ad lq (sv_db sv))\<rparr>)"
      "R sv (sv\<lparr>sv_db := snd (Refresh (cx_auth cx) td fq now (sv_db sv))\<rparr>)"
    and admin: "R sv (sv\<lparr>sv_db := snd (DeleteUser (cx_sqlite cx) (cx_raw cx) u (sv_db sv))\<rparr>)"
begin

lemma through_public: "through R (TryPublicAuth cx rx req path)"
proof -
  have "through R (post_register cx rx req)" "through R (post_login cx rx req)" "through R (post_refresh cx rx req)"
    unfolding post_register_def post_login_def post_refresh_def
    by (rule through_with_body, rule throughI,
        (auto intro!: checked_R checked_opt_R simp: snd_on_db public)[1])+
  then show ?thesis by (simp add: TryPublicAuth_def)
qed

lemma through_admin: "through R (TryAdmin cx rx req path)"
proof -
  have "through R (get_admin_stats cx rx)" by (rule throughI) (simp add: get_admin_stats_def Let_def)
  moreover have "through R (delete_admin_user cx u)" for u
    unfolding delete_admin_user_def by (rule throughI) (auto intro!: checked_R simp: snd_on_db admin)
  ultimately show ?thesis by (simp add: TryAdmin_def)
qed

lemma through_dispatch:
  assumes "\<And>sess path. session = Some sess \<Longrightarrow> through R (dispatch_session cx rx req path (Some sess))"
  shows "through R (DispatchHttp cx rx req session ip)"
proof (rule throughI)
  fix sv
  let ?path = "PathOnly (rq_target req)"
  let ?a = "if auth_route (rq_method req) ?path then allow_auth (if ip = [] then ''unknown'' else ip) rx sv else (True, sv)"
  have "through R (dispatch_session cx rx req ?path session)"
    using assms by (cases session) (auto simp: dispatch_session_def through_def)
  then have "through R (or_else (TryPublicAuth cx rx req ?path)
      (or_else (TryAdmin cx rx req ?path) (dispatch_session cx rx req ?path session)))"
    by (intro through_or_else through_public through_admin)
  moreover have "R sv (snd ?a)" by (simp add: limiters)
  ultimately show "R sv (snd (DispatchHttp cx rx req session ip sv))"
    using trans by (cases ?a)
      (auto simp: DispatchHttp_def Let_def own_reply_def ok_reply_def through_def split: bool.split)
qed

lemma serve_R:
  assumes "\<And>sess path. session = Some sess \<Longrightarrow> through R (dispatch_session cx rx req path (Some sess))"
  shows "R sv (snd (serve cx rx req session ip sv))"
proof -
  have "through R (DispatchHttp cx rx req session ip)" using assms by (rule through_dispatch)
  then have "R sv (snd (DispatchHttp cx rx req session ip sv))" by (rule throughD)
  then show ?thesis by (auto simp: serve_def split: prod.split reply.split)
qed

end

end
