(* ===== verification/Server_Frames.thy ===== *)
theory Server_Frames
  imports Server_Relation
begin

text \<open>
  Which tables the operations of the services leave alone. The conversations, the messages and the
  prekey bundles do not touch the accounts (users, devices, sessions and sync records) or the
  attachments; the operations on an account touch only the rows of that account.
\<close>

section \<open>Accounts and attachments\<close>

definition accounts :: "db \<Rightarrow> UserRecord list \<times> DeviceRecord list \<times> SessionRecord list \<times> sync_row list" where
  "accounts d = (users d, devices d, sessions d, sync_records d)"

definition frame :: "db \<Rightarrow> (UserRecord list \<times> DeviceRecord list \<times> SessionRecord list \<times> sync_row list) \<times> attachment_row list" where
  "frame d = (accounts d, attachment_metadata d)"

named_theorems frames

lemma frame_updates [simp]:
  "frame (d\<lparr>one_time_prekeys := x1\<rparr>) = frame d" "frame (d\<lparr>conversations := x2\<rparr>) = frame d"
  "frame (d\<lparr>conversation_members := x3\<rparr>) = frame d" "frame (d\<lparr>channel_subscriptions := x4\<rparr>) = frame d"
  "frame (d\<lparr>encrypted_envelopes := x5\<rparr>) = frame d" "frame (d\<lparr>delivery_state := x6\<rparr>) = frame d"
  by (simp_all add: frame_def accounts_def)

lemma frame_and_then:
  "frame (snd m) = x \<Longrightarrow> (\<And>y d. frame (snd (k y d)) = frame d) \<Longrightarrow> frame (snd (and_then m k)) = x"
  by (simp add: snd_and_then split: sum.split)

lemma conversation_frames [frames]:
  "frame (BumpMembershipVersion c d) = frame d"
  "frame (snd (CreateConversation conv d)) = frame d" "frame (snd (Conv_AddMember sq c u role now d)) = frame d"
  "frame (snd (Conv_RemoveMember c u now d)) = frame d" "frame (snd (Subscribe sq c u now d)) = frame d"
  "frame (snd (Unsubscribe c u now d)) = frame d"
  by (simp_all add: CreateConversation_def Conv_AddMember_def Conv_RemoveMember_def Subscribe_def Unsubscribe_def
      BumpMembershipVersion_def insert_conversation_def upsert_member_def upsert_subscription_def Let_def split: option.split)

lemma message_frames [frames]:
  "frame (snd (StoreEnvelope e d)) = frame d" "frame (snd (AddDeliveryState sq i u v now d)) = frame d"
  "frame (snd (AcknowledgeEnvelope u v i now d)) = frame d"
  "frame (snd (DeletePendingDeliveryForUserInConversation c u d)) = frame d"
  "frame (snd (GetPrekeyBundle sq u v now d)) = frame d"
  by (simp_all add: StoreEnvelope_def AddDeliveryState_def AcknowledgeEnvelope_def Acknowledge_def MarkAcked_def
      update_delivery_def DeletePendingDeliveryForUserInConversation_def GetPrekeyBundle_def
      ConsumeOneAvailableOtpLocked_def insert_envelope_def insert_delivery_def Let_def split: option.split)

lemma member_loop_frames [frames]:
  "frame (snd (add_group_members sq c u now uids d)) = frame d" "frame (snd (add_admins sq c u now uids d)) = frame d"
  "frame (snd (add_subscribers sq c admins now uids d)) = frame d"
  by (induction uids arbitrary: d) (simp_all add: frames frame_and_then)

lemma conversation_service_frames [frames]:
  "frame (snd (CreateDm sq r now a b u d)) = frame d" "frame (snd (CreateGroup sq config r now u ids d)) = frame d"
  "frame (snd (CreateChannel sq config r now u ids ids' d)) = frame d"
  "frame (snd (AddMember sq config now c a u role d)) = frame d"
  "frame (snd (SubscribeChannel sq config now c u d)) = frame d"
  by (simp_all add: CreateDm_def CreateGroup_def CreateChannel_def AddMember_def SubscribeChannel_def Let_def frames
      frame_and_then split: option.split prod.split)

lemma member_purge_frames [frames]:
  "frame (snd (PurgeMemberDelivery sq c u (dm, d))) = frame d"
  "frame (snd (snd (RemoveMember sq now c a u (dm, d)))) = frame d"
  "frame (snd (snd (UnsubscribeChannel sq now c u (dm, d)))) = frame d"
  by (simp_all add: PurgeMemberDelivery_def RemoveMember_def UnsubscribeChannel_def Let_def frames
      case_Inr_pair [OF Conv_RemoveMember_Inr] case_Inr_pair [OF Unsubscribe_Inr] split: option.split)

lemma deliver_frames [frames]:
  "frame (snd (snd (deliver_to sq request queued now uid v st))) = frame (snd (snd st))"
  "frame (snd (snd (deliver_user sq request queued now uid st))) = frame (snd (snd st))"
proof -
  show to: "frame (snd (snd (deliver_to sq request queued now uid v st))) = frame (snd (snd st))" for v st
    by (simp add: deliver_to_def frames split: prod.split sum.split)
  have "frame (snd (snd (fold (deliver_to sq request queued now uid) vs st))) = frame (snd (snd st))" for vs
    by (induction vs arbitrary: st) (simp_all add: to)
  then show "frame (snd (snd (deliver_user sq request queued now uid st))) = frame (snd (snd st))"
    by (simp add: deliver_user_def)
qed

lemma fold_deliver_frame:
  "frame (snd (snd (fold (deliver_user sq request queued now) uids st))) = frame (snd (snd st))"
  by (induction uids arbitrary: st) (simp_all add: frames)

lemma SendEnvelope_frame [frames]: "frame (snd (snd (SendEnvelope sq config r now request (dm, d)))) = frame d"
proof (cases "send_checks request d")
  case (Inr conv)
  let ?eid = "if sm_envelope_id request = [] then uuid r else sm_envelope_id request"
  obtain res d1 where s: "StoreEnvelope (sent_envelope config request ?eid now) d = (res, d1)" by fastforce
  then have "frame d1 = frame d" using message_frames(1) [of _ d] by (metis snd_conv)
  then show ?thesis
    using Inr s fold_deliver_frame [of sq request "queued_envelope request ?eid now" now
        "target_users sq conv (sm_conversation_id request) d1" "(0, dm, d1)"]
    by (auto simp: SendEnvelope_def Let_def split: sum.split prod.split)
qed (simp add: SendEnvelope_def)

section \<open>Attachments\<close>

lemma accounts_frame: "frame d' = frame d \<Longrightarrow> accounts d' = accounts d"
  "frame d' = frame d \<Longrightarrow> attachment_metadata d' = attachment_metadata d"
  by (simp_all add: frame_def)

lemma attachment_accounts [frames]:
  "accounts (snd (InitUpload sq config r now u c n mime d)) = accounts d"
  "accounts (snd (snd (FinalizeUpload i h (fs, d)))) = accounts d"
  by (simp_all add: InitUpload_def FinalizeUpload_def CreateAttachmentMeta_def MarkUploadComplete_def accounts_def
      snd_and_then insert_attachment_def Let_def split: option.split sum.split prod.split)

section \<open>The rows of the other users\<close>

definition others :: "UserId \<Rightarrow> db \<Rightarrow> UserRecord list \<times> DeviceRecord list \<times> SessionRecord list \<times> sync_row list" where
  "others u d = (filter (\<lambda>r. u_user_id r \<noteq> u) (users d), filter (\<lambda>r. d_user_id r \<noteq> u) (devices d),
     filter (\<lambda>r. s_user_id r \<noteq> u) (sessions d), filter (\<lambda>r. sr_user_id r \<noteq> u) (sync_records d))"

lemma others_accounts: "accounts d' = accounts d \<Longrightarrow> others u d' = others u d"
  by (simp add: accounts_def others_def)

lemma others_and_then:
  "others u (snd m) = x \<Longrightarrow> (\<And>y d. others u (snd (k y d)) = others u d) \<Longrightarrow> others u (snd (and_then m k)) = x"
  by (simp add: snd_and_then split: sum.split)

lemma filter_sql_update:
  "(\<And>r. r \<in> set t \<Longrightarrow> P r \<Longrightarrow> \<not> Q r \<and> \<not> Q (f r)) \<Longrightarrow> filter Q (sql_update P f t) = filter Q t"
  by (induction t) (auto simp: sql_update_def)

lemma others_account_ops:
  "others u (snd (SetSyncKeyBundle u b d)) = others u d"
  "others u (snd (UpdatePasswordCredentials u salt verifier d)) = others u d"
  "others u (snd (RevokeDevice u v now d)) = others u d"
  "others u (snd (Token_RevokeAllForDevice u v now d)) = others u d"
  "others u (snd (UpdateSignedPrekey u v k sig now d)) = others u d"
  "others u (snd (UpsertRecord sq u c i ct h bv t now d)) = others u d"
  "others u (snd (TombstoneRecord u c i bv t now d)) = others u d"
  by (auto simp: others_def SetSyncKeyBundle_def UpdatePasswordCredentials_def RevokeDevice_def
      Token_RevokeAllForDevice_def Session_RevokeAllForDevice_def revoke_where_def UpdateSignedPrekey_def
      UpsertRecord_def TombstoneRecord_def insert_sync_def Let_def key_defs intro!: filter_sql_update split: option.split)

lemma insert_prekeys_frame: "insert_prekeys u v pks d = Some d' \<Longrightarrow> frame d' = frame d"
  by (induction pks arbitrary: d) (auto simp: insert_prekey_def split: option.splits if_splits)

lemma others_StorePrekeys: "others u (snd (StorePrekeys sq u v pks now d)) = others u d"
proof (cases "insert_prekeys u v pks d")
  case (Some d')
  then have d': "others u d' = others u d" by (intro others_accounts accounts_frame insert_prekeys_frame)
  have "filter (\<lambda>r. d_user_id r \<noteq> u) (sql_update (\<lambda>v'. dev_key v' = (u, v)) (\<lambda>v. v\<lparr>d_last_prekey_refresh_at := Some now\<rparr>)
      (devices d')) = filter (\<lambda>r. d_user_id r \<noteq> u) (devices d')"
    by (rule filter_sql_update) (simp add: dev_key_def)
  with d' Some show ?thesis by (simp add: StorePrekeys_def others_def)
qed (simp add: StorePrekeys_def)

lemma others_ChangePassword: "others u (snd (ChangePassword as salt u cq d)) = others u d"
  by (simp add: ChangePassword_def others_and_then others_account_ops Let_def split: option.split bool.split)

lemma others_Logout:
  assumes "\<forall>x \<in> set (sessions d). s_session_id x = i \<longrightarrow> s_user_id x = u"
  shows "others u (snd (Logout i now d)) = others u d"
  using assms by (auto simp: others_def Logout_def Token_RevokeSession_def Session_RevokeSession_def revoke_where_def
      Let_def intro!: filter_sql_update)

section \<open>Isolation\<close>

text \<open>
  A session row that belongs to the user of the session, and the relation between the states before
  and after a request of that session.
\<close>

definition owns_session :: "SessionRecord \<Rightarrow> db \<Rightarrow> bool" where
  "owns_session sess d \<longleftrightarrow> (\<forall>x \<in> set (sessions d). s_session_id x = s_session_id sess \<longrightarrow> s_user_id x = s_user_id sess)"

definition isolated :: "SessionRecord \<Rightarrow> server \<Rightarrow> server \<Rightarrow> bool" where
  "isolated sess sv sv' \<longleftrightarrow> (owns_session sess (sv_db sv) \<longrightarrow>
     others (s_user_id sess) (sv_db sv') = others (s_user_id sess) (sv_db sv))"

lemma owns_others:
  assumes "others (s_user_id sess) d' = others (s_user_id sess) d" "owns_session sess d"
  shows "owns_session sess d'"
proof -
  have "set (filter (\<lambda>r. s_user_id r \<noteq> s_user_id sess) (sessions d')) =
      set (filter (\<lambda>r. s_user_id r \<noteq> s_user_id sess) (sessions d))"
    using assms(1) by (simp add: others_def)
  with assms(2) show ?thesis by (auto simp: owns_session_def set_eq_iff)
qed

lemma isolated_frame:
  "frame (sv_db sv') = frame (sv_db sv) \<Longrightarrow> isolated sess sv sv'"
  "accounts (sv_db sv') = accounts (sv_db sv) \<Longrightarrow> isolated sess sv sv'"
  unfolding isolated_def by (metis others_accounts accounts_frame(1))+

interpretation isolation: handler_relation "isolated sess"
proof
  show "isolated sess sv1 sv2 \<Longrightarrow> isolated sess sv2 sv3 \<Longrightarrow> isolated sess sv1 sv3" for sv1 sv2 sv3
    using owns_others by (fastforce simp: isolated_def)
qed (simp_all add: isolated_def allow_auth_def allow_account_def split: option.split prod.split)

lemma case_state: "(case p of (res, dm, d) \<Rightarrow> Q dm d) \<longleftrightarrow> Q (fst (snd p)) (snd (snd p))"
  by (simp add: case_prod_unfold)

lemmas others_frames =
  message_frames [THEN accounts_frame(1), THEN others_accounts]
  conversation_service_frames [THEN accounts_frame(1), THEN others_accounts]
  member_purge_frames [THEN accounts_frame(1), THEN others_accounts]
  SendEnvelope_frame [THEN accounts_frame(1), THEN others_accounts]
  attachment_accounts [THEN others_accounts]

interpretation isolation: session_relation "isolated sess" cx sess
proof
  show "isolated sess sv (sv\<lparr>sv_db := snd (Logout (s_session_id sess) now (sv_db sv))\<rparr>)" for sv now
    by (simp add: isolated_def owns_session_def others_Logout)
qed (simp_all add: case_state isolated_def others_account_ops others_StorePrekeys others_ChangePassword others_frames)

end
