(* ===== verification/Server_Data.thy ===== *)
theory Server_Data
  imports Waiting_Messages Server_Frames
begin

text \<open>
  What the handlers keep of the database and of the delivery queues: the constraints of the schema,
  messages waiting only for participants, one blob file for each attachment, user ids without the
  two characters that other code gives a meaning, a device for each session, and queues within their
  bound. One lemma for each operation that a handler calls.
\<close>

section \<open>The invariant of the database\<close>

definition quotable_id :: "string \<Rightarrow> bool" where
  "quotable_id u \<longleftrightarrow> CHR 0x1F \<notin> set u \<and> CHR 0x27 \<notin> set u"

lemma plain_uuid [simp]: "quotable_id (GenerateUuid h l)"
  by (simp add: quotable_id_def)

definition ids_ok :: "db \<Rightarrow> bool" where
  "ids_ok d \<longleftrightarrow> (\<forall>u \<in> set (user_keys d). quotable_id u) \<and> devices_named d"

definition data_ok :: "ServerConfig \<Rightarrow> db \<Rightarrow> bool" where
  "data_ok config d \<longleftrightarrow> db_ok d \<and> waiting_ok d \<and> blobs_ok config d \<and> ids_ok d"

lemma data_okD:
  assumes "data_ok config d"
  shows "db_ok d" "waiting_ok d" "blobs_ok config d" "ids_ok d" "plain_users d" "devices_named d"
    "r \<in> set (users d) \<Longrightarrow> CHR 0x27 \<notin> set (u_user_id r)"
  using assms by (auto simp: data_ok_def ids_ok_def quotable_id_def plain_users_def no_separator_def)

lemma data_ok_and_then:
  assumes "data_ok config (snd m)" and "\<And>x. fst m = Inr x \<Longrightarrow> data_ok config (snd m) \<Longrightarrow> data_ok config (snd (f x (snd m)))"
  shows "data_ok config (snd (and_then m f))"
  by (rule and_then_inv [where I = "data_ok config"]) (use assms in \<open>blast+\<close>)

text \<open>The columns that the invariant reads beside the constraints of the schema.\<close>

definition anchors where
  "anchors d = (talk d, attachment_metadata d, user_keys d, map s_device_id (sessions d))"

lemma devices_named_iff: "devices_named d \<longleftrightarrow> [] \<notin> set (map s_device_id (sessions d))"
  by (auto simp: devices_named_def image_iff)

lemma data_ok_anchors:
  assumes "anchors d' = anchors d" and "db_ok d'" and "data_ok config d"
  shows "data_ok config d'"
proof -
  have "grows d d'" using assms(1) by (intro talk_grows) (simp add: anchors_def)
  moreover have "map s_device_id (sessions d') = map s_device_id (sessions d)" "user_keys d' = user_keys d"
    using assms(1) by (simp_all add: anchors_def)
  then have "ids_ok d' = ids_ok d" unfolding ids_ok_def devices_named_iff by (simp only:)
  ultimately show ?thesis
    using assms grows_ok [of d d'] by (simp add: data_ok_def anchors_def blobs_ok_def)
qed

named_theorems anchored \<open>operations that leave the anchors alone\<close>

lemma update_keeps_key: "(\<And>r. P r \<Longrightarrow> k (f r) = k r) \<Longrightarrow> map k (sql_update P f t) = map k t"
  by (simp add: sql_update_def comp_def if_distrib cong: if_cong)

lemma account_anchors [anchored]:
  "anchors (snd (SetSyncKeyBundle u b d)) = anchors d"
  "anchors (snd (UpdatePasswordCredentials u salt verifier d)) = anchors d"
  "anchors (snd (RegisterDevice dev d)) = anchors d"
  "anchors (snd (UpdateLastSeen u v now d)) = anchors d"
  "anchors (snd (RevokeDevice u v now d)) = anchors d"
  "anchors (snd (Session_RevokeSession i now d)) = anchors d"
  "anchors (snd (Session_RevokeAllForDevice u v now d)) = anchors d"
  "anchors (snd (UpdateSignedPrekey u v k sig now d)) = anchors d"
  "anchors (snd (UpsertRecord sq u c i ct h bv t now d)) = anchors d"
  "anchors (snd (TombstoneRecord u c i bv t now d)) = anchors d"
  by (simp_all add: anchors_def talk_def SetSyncKeyBundle_def UpdatePasswordCredentials_def RegisterDevice_def
      insert_device_def UpdateLastSeen_def RevokeDevice_def Session_RevokeSession_def Session_RevokeAllForDevice_def
      revoke_where_def UpdateSignedPrekey_def UpsertRecord_def TombstoneRecord_def insert_sync_def Let_def
      update_keeps_key split: option.split)

lemma insert_prekeys_anchors: "insert_prekeys u v pks d = Some d' \<Longrightarrow> anchors d' = anchors d"
  by (induction pks arbitrary: d) (auto simp: insert_prekey_def anchors_def talk_def split: option.splits if_splits)

lemma StorePrekeys_anchors [anchored]: "anchors (snd (StorePrekeys sq u v pks now d)) = anchors d"
proof (cases "insert_prekeys u v pks d")
  case (Some d')
  then have "anchors d' = anchors d" by (rule insert_prekeys_anchors)
  with Some show ?thesis by (simp add: StorePrekeys_def anchors_def talk_def)
qed (simp add: StorePrekeys_def)

lemma GetPrekeyBundle_anchors [anchored]: "anchors (snd (GetPrekeyBundle sq u v now d)) = anchors d"
  by (simp add: GetPrekeyBundle_def ConsumeOneAvailableOtpLocked_def anchors_def talk_def Let_def split: option.split)

named_theorems data_keeps \<open>operations that keep the invariant of the data\<close>

lemma anchored_data [data_keeps]:
  assumes "data_ok config d"
  shows "data_ok config (snd (SetSyncKeyBundle u b d))" "data_ok config (snd (UpdatePasswordCredentials u salt verifier d))"
    "data_ok config (snd (RegisterDevice dev d))" "data_ok config (snd (UpdateLastSeen u v now d))"
    "data_ok config (snd (RevokeDevice u v now d))" "data_ok config (snd (Session_RevokeSession i now d))"
    "data_ok config (snd (Token_RevokeAllForDevice u v now d))" "data_ok config (snd (UpdateSignedPrekey u v k sig now d))"
    "data_ok config (snd (UpsertRecord sq u c rid ct h bv t now d))" "data_ok config (snd (TombstoneRecord u c rid bv t now d))"
    "data_ok config (snd (StorePrekeys sq u v pks now d))" "data_ok config (snd (GetPrekeyBundle sq u v now d))"
  using assms data_okD(1) [OF assms]
  by (auto intro!: data_ok_anchors [OF _ _ assms] simp: anchored keeps Token_RevokeAllForDevice_def)

section \<open>Accounts\<close>

lemma CreateUser_data [data_keeps]:
  assumes "data_ok config d" and "quotable_id (u_user_id user)"
  shows "data_ok config (snd (CreateUser user d))"
proof -
  have "db_ok (snd (CreateUser user d))" using data_okD(1) [OF assms(1)] by (rule keeps)
  moreover have "grows d (snd (CreateUser user d))"
    by (rule talk_grows) (simp add: talk_def CreateUser_def insert_user_def split: option.split list.split)
  moreover have "blobs_ok config (snd (CreateUser user d))" "ids_ok (snd (CreateUser user d))"
    using assms data_okD [OF assms(1)]
    by (auto simp: blobs_ok_def ids_ok_def devices_named_def CreateUser_def insert_user_def split: option.splits list.splits)
  ultimately show ?thesis using grows_ok data_okD(2) [OF assms(1)] by (auto simp: data_ok_def)
qed

lemma IssueTokens_data [data_keeps]:
  assumes "data_ok config d" and "v \<noteq> []"
  shows "data_ok config (snd (IssueTokens tm sq r u v now d))"
proof -
  let ?d = "snd (IssueTokens tm sq r u v now d)"
  have "db_ok ?d" using data_okD(1) [OF assms(1)] by (rule keeps)
  moreover have "grows d ?d"
    by (rule talk_grows) (simp add: talk_def snd_IssueTokens CreateSession_def insert_session_def split: option.split)
  moreover have "blobs_ok config ?d" "ids_ok ?d"
    using assms data_okD [OF assms(1)]
    by (auto simp: blobs_ok_def ids_ok_def devices_named_def snd_IssueTokens CreateSession_def insert_session_def split: option.splits)
  ultimately show ?thesis using grows_ok data_okD(2) [OF assms(1)] by (auto simp: data_ok_def)
qed

lemma auth_device_ids [simp]: "register_device_id request r \<noteq> []" "login_device_id lrequest r \<noteq> []"
  by (simp_all add: register_device_id_def login_device_id_def)

lemma Register_data [data_keeps]: "data_ok config d \<Longrightarrow> data_ok config (snd (Register as r request d))"
  by (simp add: Register_def data_keeps data_ok_and_then registered_user_def)

lemma Login_data [data_keeps]: "data_ok config d \<Longrightarrow> data_ok config (snd (Login as r request d))"
proof -
  have "data_ok config d \<Longrightarrow> data_ok config (snd (login_device r request u d))" for u d
    by (simp add: login_device_def Let_def data_keeps data_ok_and_then split: option.split)
  then show "data_ok config d \<Longrightarrow> data_ok config (snd (Login as r request d))"
    by (simp add: Login_def data_keeps data_ok_and_then split: option.split bool.split)
qed

lemma RefreshTokens_data [data_keeps]:
  assumes "data_ok config d"
  shows "data_ok config (snd (RefreshTokens tm sq r t v now d))"
proof (cases "FindByRefreshToken (HashToken tm t) d")
  case (Some s)
  then have "s_device_id s \<noteq> []"
    using data_okD(6) [OF assms] unfolding FindByRefreshToken_def devices_named_def by (blast dest: first_row_filter)
  with Some assms show ?thesis by (auto simp: RefreshTokens_def data_keeps intro!: data_ok_and_then)
qed (simp add: RefreshTokens_def assms)

lemma auth_service_data [data_keeps]:
  "data_ok config d \<Longrightarrow> data_ok config (snd (Refresh as r request now d))"
  "data_ok config d \<Longrightarrow> data_ok config (snd (ChangePassword as salt u cq d))"
  "data_ok config d \<Longrightarrow> data_ok config (snd (Logout i now d))"
  by (simp_all add: Refresh_def ChangePassword_def Logout_def Token_RevokeSession_def Let_def data_keeps data_ok_and_then
      split: option.split bool.split)

lemma DeleteUser_data [data_keeps]:
  assumes "data_ok config d"
  shows "data_ok config (snd (DeleteUser sq raw u d))"
proof (cases "u \<in> set (user_keys d)")
  case True
  then have q: "CHR 0x27 \<notin> set u" using data_okD(7) [OF assms] by auto
  have "blobs_ok config (without_user u d)" "ids_ok (without_user u d)"
    using data_okD [OF assms] by (auto simp: blobs_ok_def ids_ok_def devices_named_def without_user_def)
  moreover have "db_ok (snd (DeleteUser sq raw u d))" using data_okD(1) [OF assms] q by (rule keeps)
  moreover have "waiting_ok (snd (DeleteUser sq raw u d))" using data_okD(1,2,7) [OF assms] by (rule DeleteUser_waiting)
  ultimately show ?thesis
    using assms by (auto simp: data_ok_def DeleteUser_result [OF data_okD(1) [OF assms] True q])
next
  case False
  then show ?thesis using assms User_FindById_None [of u d] by (simp add: DeleteUser_def)
qed

section \<open>Conversations, messages and attachments\<close>

lemma data_ok_frame:
  assumes "frame d' = frame d" and "db_ok d'" and "waiting_ok d'" and "data_ok config d"
  shows "data_ok config d'"
  using assms by (simp add: data_ok_def frame_def accounts_def blobs_ok_def ids_ok_def devices_named_def)

lemma AcknowledgeEnvelope_keeps [keeps]: "db_ok d \<Longrightarrow> db_ok (snd (AcknowledgeEnvelope u v i now d))"
  by (simp add: AcknowledgeEnvelope_def Acknowledge_def keeps)

lemma conversation_data [data_keeps]:
  assumes "data_ok config d"
  shows "data_ok config (snd (CreateDm sq r now a b u d))" "data_ok config (snd (CreateGroup sq config' r now u ids d))"
    "data_ok config (snd (CreateChannel sq config' r now u ids ids' d))"
    "data_ok config (snd (AddMember sq config' now c a u role d))"
    "data_ok config (snd (SubscribeChannel sq config' now c u d))"
    "data_ok config (snd (AcknowledgeEnvelope u v i now d))"
    "data_ok config (snd (snd (RemoveMember sq now c a u (dm, d))))"
    "data_ok config (snd (snd (UnsubscribeChannel sq now c u (dm, d))))"
  using data_okD(1,2) [OF assms]
  by (auto intro!: data_ok_frame [OF _ _ _ assms] conversation_service_grows [THEN grows_ok] Acknowledge_waiting
      RemoveMember_waiting UnsubscribeChannel_waiting simp: frames keeps)

lemma deliver_keeps:
  "db_ok (snd (snd st)) \<Longrightarrow> db_ok (snd (snd (fold (deliver_to sq request queued now uid) devs st)))"
  "db_ok (snd (snd st)) \<Longrightarrow> db_ok (snd (snd (fold (deliver_user sq request queued now) uids st)))"
proof -
  have to: "db_ok (snd (snd st)) \<Longrightarrow> db_ok (snd (snd (deliver_to sq request queued now uid v st)))" for uid v st
    by (cases st) (auto simp: deliver_to_def keeps split: prod.split sum.split)
  have devs: "db_ok (snd (snd st)) \<Longrightarrow> db_ok (snd (snd (fold (deliver_to sq request queued now uid) devs st)))" for uid devs st
    by (induction devs arbitrary: st) (simp_all add: to)
  then show "db_ok (snd (snd st)) \<Longrightarrow> db_ok (snd (snd (fold (deliver_to sq request queued now uid) devs st)))" .
  show "db_ok (snd (snd st)) \<Longrightarrow> db_ok (snd (snd (fold (deliver_user sq request queued now) uids st)))"
    by (induction uids arbitrary: st) (simp_all add: deliver_user_def devs)
qed

lemma SendEnvelope_keeps [keeps]:
  assumes "db_ok d"
  shows "db_ok (snd (snd (SendEnvelope sq config r now request (dm, d))))"
proof (cases "send_checks request d")
  case (Inr conv)
  let ?eid = "if sm_envelope_id request = [] then uuid r else sm_envelope_id request"
  obtain res d1 where s: "StoreEnvelope (sent_envelope config request ?eid now) d = (res, d1)" by fastforce
  then have "db_ok d1" using StoreEnvelope_keeps [OF assms] by (metis snd_conv)
  then show ?thesis
    using Inr s assms deliver_keeps(2) [of "(0, dm, d1)" sq request "queued_envelope request ?eid now" now
        "target_users sq conv (sm_conversation_id request) d1"]
    by (auto simp: SendEnvelope_def Let_def split: sum.split prod.split)
qed (simp add: SendEnvelope_def assms)

lemma SendEnvelope_data [data_keeps]:
  assumes "data_ok config d" "sqlite_ok sq" "dm_ok dm"
  shows "data_ok config (snd (snd (SendEnvelope sq config r now request (dm, d))))"
  using SendEnvelope_frame keeps SendEnvelope_waiting [OF assms(2) data_okD(1) assms(3)] assms(1) data_okD [OF assms(1)]
  by (intro data_ok_frame [OF _ _ _ assms(1)]) (auto simp: frames intro: SendEnvelope_keeps)

lemma attachment_talk: "talk (snd (InitUpload sq config r now u c n mime d)) = talk d"
  "talk (snd (snd (FinalizeUpload i h (fs, d)))) = talk d"
  by (simp_all add: InitUpload_def FinalizeUpload_def CreateAttachmentMeta_def MarkUploadComplete_def talk_def
      snd_and_then insert_attachment_def Let_def split: option.split sum.split prod.split)

lemma ids_accounts: "accounts d' = accounts d \<Longrightarrow> ids_ok d' = ids_ok d"
  by (simp add: accounts_def ids_ok_def devices_named_def)

lemma attachment_data [data_keeps]:
  assumes "data_ok config d"
  shows "data_ok config (snd (InitUpload sq config r now u c n mime d))"
    "data_ok config (snd (snd (FinalizeUpload i h (fs, d))))"
proof -
  note ok = data_okD [OF assms]
  have "blobs_ok config (snd (InitUpload sq config r now u c n mime d))"
    "blobs_ok config (snd (snd (FinalizeUpload i h (fs, d))))"
    using ok(3) by (auto simp: blobs_ok_def InitUpload_def FinalizeUpload_def CreateAttachmentMeta_def MarkUploadComplete_def
        new_attachment_def snd_and_then insert_attachment_def Let_def sql_update_def split: option.splits sum.splits prod.splits)
  then show "data_ok config (snd (InitUpload sq config r now u c n mime d))"
    "data_ok config (snd (snd (FinalizeUpload i h (fs, d))))"
    using ok ids_accounts [OF attachment_accounts(1), of sq config r now u c n mime d]
      ids_accounts [OF attachment_accounts(2), of i h fs d]
      grows_ok [OF talk_grows [OF attachment_talk(1)] ok(2)] grows_ok [OF talk_grows [OF attachment_talk(2)] ok(2)]
    by (simp_all add: data_ok_def keeps)
qed

lemma maintenance_data:
  assumes "data_ok config d" and "maintenance_purge sq now (fs, d) = Some (m, n, fs', d')"
  shows "data_ok config d'"
proof -
  obtain k d1 where d1: "Env_DeleteExpired now d = Some (k, d1)" "db_ok d1"
    using Env_DeleteExpired_Some [OF data_okD(1) [OF assms(1)]] by metis
  then have "d' = snd (Att_DeleteExpired now d1)"
    using assms(2) by (auto simp: maintenance_purge_def Service_DeleteExpired_def Let_def split: prod.splits)
  moreover have "users d1 = users d" "sessions d1 = sessions d" "attachment_metadata d1 = attachment_metadata d"
    using d1(1) by (auto simp: Env_DeleteExpired_def delete_envelopes_def Let_def split: if_splits)
  moreover from calculation have "db_ok d'" using d1(2) by (simp add: keeps)
  ultimately have "db_ok d'" "blobs_ok config d'" "ids_ok d'"
    using data_okD [OF assms(1)]
    by (auto simp: Att_DeleteExpired_def sql_delete_def blobs_ok_def ids_ok_def devices_named_def)
  then show ?thesis using maintenance_waiting [OF data_okD(2) [OF assms(1)] assms(2)] by (simp add: data_ok_def)
qed

end
