(* ===== verification/Server_Security.thy ===== *)
theory Server_Security
  imports Server_Frames
begin

text \<open>
  What a request can do: nothing without a session, and nothing to the accounts of others; and that
  the table of protected routes covers the routes. The statements are about \<open>OnRead\<close> and
  \<open>DispatchHttp\<close> of \<open>lib/vox_net\<close> with all the handlers behind them.
\<close>

section \<open>Requests outside the public routes\<close>

abbreviation path_of :: "HttpRequest \<Rightarrow> string" where
  "path_of req \<equiv> PathOnly (rq_target req)"

abbreviation public_request :: "HttpRequest \<Rightarrow> bool" where
  "public_request req \<equiv> auth_route (rq_method req) (path_of req)"

definition health_request :: "HttpRequest \<Rightarrow> bool" where
  "health_request req \<longleftrightarrow> rq_method req = verb_get \<and> path_of req = ''/v1/health''"

definition too_large :: "ServerContext \<Rightarrow> HttpRequest \<Rightarrow> bool" where
  "too_large cx req \<longleftrightarrow> length (rq_body req) > max_http_body_bytes (cx_config cx)"

lemma or_else_no_match [simp]: "or_else no_match k = k"
  by (rule ext) (simp add: or_else_def no_match_def)

lemma TryPublicAuth_skip: "\<not> public_request req \<Longrightarrow> TryPublicAuth cx rx req (path_of req) = no_match"
  by (auto simp: TryPublicAuth_def auth_route_def)

lemma TryAdmin_skip: "\<not> is_admin cx req \<Longrightarrow> TryAdmin cx rx req path = no_match"
  by (simp add: TryAdmin_def)

lemma DispatchHttp_plain:
  assumes "\<not> public_request req" "\<not> is_admin cx req"
  shows "DispatchHttp cx rx req session ip sv =
    (if too_large cx req then own_reply cx kPayloadTooLarge ''Request body too large'' sv
     else if health_request req then ok_reply cx (JObject [(''status'', JString ''ok'')]) sv
     else dispatch_session cx rx req (path_of req) session sv)"
  using assms by (simp add: DispatchHttp_def Let_def too_large_def health_request_def TryPublicAuth_skip TryAdmin_skip)

subsection \<open>A server for examples\<close>

text \<open>
  The default configuration, two users with a phone and a laptop in a group, a session of the phone,
  and requests with its token. The JSON library reads every body as one given value.
\<close>

definition sample_cx :: "json \<Rightarrow> ServerContext" where
  "sample_cx v = \<lparr>cx_config = ServerConfig_Default, cx_auth = sample_as, cx_json = fixed_json v,
     cx_raw = (\<lambda>_ d. (Inr (), d)), cx_ws_push = True\<rparr>"

definition sample_rx :: request_draws where
  "sample_rx = \<lparr>rx_clock = (\<lambda>_. 8), rx_steady = 0, rx_uuid = (1, 2), rx_auth = sample_ad\<rparr>"

definition chat_online :: db where
  "chat_online = chat_db\<lparr>sessions := [online_session]\<rparr>"

definition sample_server :: server where
  "sample_server = server_new ServerConfig_Default length chat_online \<lparr>fs_blobs = Map.empty, fs_writable = (\<lambda>_. True)\<rparr>"

definition with_token :: "http_verb \<Rightarrow> string \<Rightarrow> HttpRequest" where
  "with_token m target = \<lparr>rq_method = m, rq_target = target, rq_fields = [(''Authorization'', ''Bearer tok'')], rq_body = []\<rparr>"

lemma sample_cx_sel [simp]:
  "cx_config (sample_cx v) = ServerConfig_Default" "cx_json (sample_cx v) = fixed_json v" "cx_auth (sample_cx v) = sample_as"
  "cx_sqlite (sample_cx v) = rowid_order" "cx_tokens (sample_cx v) = sample_tm" "cx_ws_push (sample_cx v)"
  by (simp_all add: sample_cx_def cx_sqlite_def cx_tokens_def)

lemma sample_server_sel [simp]:
  "sv_db sample_server = chat_online" "sessions chat_online = [online_session]" "rx_clock sample_rx n = 8"
  by (simp_all add: sample_server_def server_new_def chat_online_def sample_rx_def)

lemma with_token_sel [simp]:
  "rq_method (with_token m target) = m" "rq_target (with_token m target) = target" "rq_body (with_token m target) = []"
  by (simp_all add: with_token_def)

lemma not_admin [simp]: "\<not> is_admin (sample_cx v) req"
  by (simp add: is_admin_def ServerConfig_Default_def)

lemma with_token_session [simp]:
  "request_session (sample_cx v) 5 (with_token m target) (d\<lparr>sessions := [online_session]\<rparr>) = Some online_session"
  "request_session (sample_cx v) 5 (with_token m target) chat_online = Some online_session"
  by (simp_all add: request_session_def ParseBearer_def find_field_def with_token_def online_valid chat_online_def)

lemma sample_online_ok [simp]: "db_ok chat_online"
proof -
  have "db_ok chat_db" by simp
  moreover have "(''u1'', ''p'') \<in> set (device_keys chat_db)" "''u1'' \<in> set (user_keys chat_db)" "sessions chat_db = []" by code_simp+
  ultimately show ?thesis
    using insert_session_ok [of online_session chat_db chat_online]
    by (simp add: insert_session_def chat_online_def s_dev_def)
qed

section \<open>Without a session\<close>



section \<open>With a session\<close>

lemma request_session_row:
  assumes "request_session cx now req d = Some sess"
  shows "sess \<in> set (sessions d)" "s_revoked_at sess = None" "now < s_access_expires_at sess"
    "\<exists>bearer. ParseBearer req = Some bearer \<and> s_access_token_hash sess = HashToken (cx_tokens cx) bearer"
proof -
  obtain bearer where b: "ParseBearer req = Some bearer" "ValidateAccessToken (cx_tokens cx) bearer now d = Inr sess"
    using assms by (auto simp: request_session_def split: option.splits sum.splits)
  then have f: "FindByAccessToken (HashToken (cx_tokens cx) bearer) d = Some sess" "now < s_access_expires_at sess"
    by (auto simp: ValidateAccessToken_def split: option.splits if_splits)
  then have "sess \<in> set (sessions d) \<and> s_access_token_hash sess = HashToken (cx_tokens cx) bearer \<and> s_revoked_at sess = None"
    unfolding FindByAccessToken_def by (blast dest: first_row_filter)
  with f b show "sess \<in> set (sessions d)" "s_revoked_at sess = None" "now < s_access_expires_at sess"
    "\<exists>bearer. ParseBearer req = Some bearer \<and> s_access_token_hash sess = HashToken (cx_tokens cx) bearer" by auto
qed

lemma owns_own_session:
  assumes "db_ok d" "sess \<in> set (sessions d)"
  shows "owns_session sess d"
  using assms key_eq [of s_session_id "sessions d"] by (auto simp: owns_session_def db_ok_def sessions_ok_def)

text \<open>
  C5: A request with the session of a user leaves the accounts of all other users as they are: their
  users row, their devices, their sessions and their sync records, whatever the method, the target
  and the body.
\<close>

theorem requests_isolated:
  assumes "db_ok (sv_db sv)" and "request_session cx now req (sv_db sv) = Some sess"
    and "\<not> is_admin cx req" and "\<not> public_request req"
  shows "others (s_user_id sess) (sv_db (snd (OnRead cx now rx False i ip req sv))) = others (s_user_id sess) (sv_db sv)"
proof -
  have "owns_session sess (sv_db sv)" using owns_own_session [OF assms(1)] request_session_row(1) [OF assms(2)] .
  moreover have "isolated sess sv (snd (DispatchHttp cx rx req (Some sess) ip sv))"
    unfolding DispatchHttp_plain [OF assms(4,3)]
    using isolation.through_session [of sess cx rx req "path_of req"]
    by (simp add: through_def)
  ultimately show ?thesis
    using assms(2) by (auto simp: OnRead_def serve_def isolated_def split: prod.split reply.split)
qed

theorem requests_isolated_witness:
  "others ''u1'' (sv_db (snd (OnRead (sample_cx JNull) 5 sample_rx False 0 [] (with_token verb_post ''/v1/logout'') sample_server))) =
     others ''u1'' chat_online \<and>
   fst (OnRead (sample_cx JNull) 5 sample_rx False 0 [] (with_token verb_post ''/v1/logout'') sample_server) =
     Answered (JsonRes (fixed_json JNull) 200 empty_object)"
proof -
  let ?req = "with_token verb_post ''/v1/logout''"
  have p: "PathOnly ''/v1/logout'' = ''/v1/logout''" by code_simp
  then have pub: "\<not> public_request ?req" by (simp add: auth_route_def)
  obtain d where "Logout ''s'' 8 chat_online = (Inr (), d)"
    by (simp add: Logout_def Token_RevokeSession_def Session_RevokeSession_def sql_count_def)
  then have "fst (DispatchHttp (sample_cx JNull) sample_rx ?req (Some online_session) [] sample_server) =
      Reply (JsonRes (fixed_json JNull) 200 empty_object)"
    by (simp add: DispatchHttp_plain [OF pub] p too_large_def health_request_def dispatch_session_def heavy_route_def
        or_else_def HandleAuthenticated_def routes_def post_routes_def route_def post_logout_def checked_def on_db_def
        ok_reply_def)
  with requests_isolated [of sample_server "sample_cx JNull" 5 ?req online_session sample_rx 0 "[]"] pub show ?thesis
    by (auto simp: OnRead_def serve_def split: prod.split)
qed

section \<open>Known routes\<close>

text \<open>A list of routes of which none applies, or only one that ends the search.\<close>

abbreviation closed_route :: "handler option \<Rightarrow> bool" where
  "closed_route r \<equiv> pred_option (\<lambda>h. h = no_match) r"

lemma closed_routes: "list_all closed_route rs \<Longrightarrow> first_route rs = no_match"
  by (induction rs rule: first_route.induct) auto

lemma closed_map [simp]: "closed_route (map_option f x) \<longleftrightarrow> (\<forall>y. x = Some y \<longrightarrow> f y = no_match)"
  by (cases x) auto

lemma closed_route_iff [simp]: "closed_route (route b h) \<longleftrightarrow> (b \<longrightarrow> h = no_match)"
  by (simp add: route_def)

lemma attachment_paths:
  assumes "prefix ''/v1/attachments/'' path"
  shows "SplitConvSubPath path = None" "SplitDeviceSubPath path suf = None" "SplitUserDeviceSubPath path suf = None"
proof -
  have clash: "\<not> prefix p path" if "\<not> prefix p ''/v1/attachments/''" "\<not> prefix ''/v1/attachments/'' p" for p
    using prefix_same_cases [OF assms, of p] that by blast
  have "\<not> prefix ''/v1/conversations/'' path" "\<not> prefix ''/v1/devices/'' path" "\<not> prefix ''/v1/users/'' path"
    by (rule clash; simp)+
  then show "SplitConvSubPath path = None" "SplitDeviceSubPath path suf = None" "SplitUserDeviceSubPath path suf = None"
    by (simp_all add: SplitConvSubPath_def SplitDeviceSubPath_def SplitUserDeviceSubPath_def SplitPrefixedPath_def)
qed

lemma if_True_or: "(if b then True else q) \<longleftrightarrow> b \<or> q"
  by simp

lemma conv_tail: "\<not> (case x of None \<Rightarrow> False | Some (_, t) \<Rightarrow> P t) \<Longrightarrow> x = Some (k, t) \<Longrightarrow> \<not> P t"
  by simp

lemma unknown_post:
  assumes "\<not> known_post path"
  shows "first_route (post_routes cx rx req path sess) = no_match"
proof (rule closed_routes)
  note n = assms [unfolded known_post_def if_True_or de_Morgan_disj]
  let ?fin = "prefix ''/v1/attachments/'' path \<and> suffix ''/finalize'' path"
  have dev: "SplitDeviceSubPath path ''prekeys'' = None" "SplitUserDeviceSubPath path ''prekeys'' = None"
    using n attachment_paths [of path] by presburger+
  have conv: "\<not> (case SplitConvSubPath path of None \<Rightarrow> False
      | Some (_, t) \<Rightarrow> t = ''members'' \<or> t = ''subscribe'' \<or> t = ''unsubscribe'')"
  proof (cases ?fin)
    case True
    then show ?thesis by (simp add: attachment_paths(1))
  next
    case False
    then show ?thesis using n by presburger
  qed
  have fin: "?fin \<Longrightarrow> SplitAttachmentSubPath path = None" using n by presburger
  show "list_all closed_route (post_routes cx rx req path sess)"
    unfolding post_routes_def list.pred_inject closed_route_iff closed_map device_scope_def dev
    using conjunct1 [OF n] conv fin by (auto split: option.splits)
qed

lemma unknown_get:
  assumes "\<not> known_get path"
  shows "first_route (get_routes cx rx req path sess) = no_match"
proof (rule closed_routes)
  note n = assms [unfolded known_get_def if_True_or de_Morgan_disj]
  have users: "\<not> prefix ''/v1/users/'' path" using n by blast
  then have "\<not> prefix (''/v1/users/'' @ q) path" for q using append_prefixD by blast
  from this [of "''by-username/''"] this [of "''search''"]
  have named: "\<not> prefix ''/v1/users/by-username/'' path" "path \<noteq> ''/v1/users/search''" by auto
  have before: "closed_route (user_before suf path f)" "user_route cx path = None" for suf f
    using users prefix_order.trans [OF _ take_is_prefix] by (auto simp: user_before_def user_route_def Let_def)
  have conv: "closed_route (conv_route path ''members'' f)" "closed_route (conv_route path ''envelopes'' f)" for f
    using n by (auto simp: conv_route_def split: option.splits)
  have att: "\<not> (prefix ''/v1/attachments/'' path \<and> \<not> contains_text ''/chunk'' path \<and> \<not> contains_text ''/finalize'' path) \<or>
      SplitAttachmentSubPath path = None"
    using n by (simp only: if_bool_eq_conj) blast
  show "list_all closed_route (get_routes cx rx req path sess)"
    unfolding get_routes_def list.pred_inject closed_route_iff closed_map
    using n named before conv att by (simp del: not_None_eq) auto
qed

lemma unknown_put:
  assumes "\<not> known_put path"
  shows "first_route (put_routes cx rx req path sess) = no_match"
proof (rule closed_routes)
  note n = assms [unfolded known_put_def if_True_or de_Morgan_disj]
  have "prefix ''/v1/attachments/'' path \<and> contains_text ''/chunk'' path \<Longrightarrow> SplitAttachmentSubPath path = None"
    using n by (simp only: if_bool_eq_conj) blast
  moreover have dev: "SplitDeviceSubPath path ''signed-prekey'' = None" "SplitUserDeviceSubPath path ''signed-prekey'' = None"
    using n by blast+
  ultimately show "list_all closed_route (put_routes cx rx req path sess)"
    unfolding put_routes_def list.pred_inject closed_route_iff closed_map device_scope_def dev
    using n by (simp add: SplitSyncRecordPath_def)
qed

lemma unknown_delete:
  assumes "\<not> known_delete path"
  shows "first_route (delete_routes cx rx req path sess) = no_match"
proof (rule closed_routes)
  note n = assms [unfolded known_delete_def if_True_or de_Morgan_disj]
  show "list_all closed_route (delete_routes cx rx req path sess)"
    unfolding delete_routes_def list.pred_inject closed_route_iff closed_map
    using n by (auto simp: SplitSyncRecordPath_def split: option.splits)
qed

lemma unknown_route:
  "\<not> IsKnownProtectedRoute (rq_method req) path \<Longrightarrow> HandleAuthenticated cx rx req path sess = no_match"
  by (cases "rq_method req") (simp_all add: HandleAuthenticated_def routes_def unknown_post unknown_get unknown_put unknown_delete)

text \<open>The path of the signed prekey of a device, which only PUT handles.\<close>

definition signed_prekey_path :: "DeviceId \<Rightarrow> string" where
  "signed_prekey_path v = ''/v1/devices/'' @ v @ ''/signed-prekey''"

lemma signed_prekey_route:
  assumes "CHR ''/'' \<notin> set v"
  shows "SplitDeviceSubPath (signed_prekey_path v) suf = (if suf = ''signed-prekey'' then Some v else None)"
    "SplitUserDeviceSubPath (signed_prekey_path v) suf = None" "SplitConvSubPath (signed_prekey_path v) = None"
    "\<not> prefix ''/v1/attachments/'' (signed_prekey_path v)"
  using assms split_at_char_append [of "CHR ''/''" v "''signed-prekey''"]
  by (auto simp: signed_prekey_path_def SplitDeviceSubPath_def SplitUserDeviceSubPath_def SplitConvSubPath_def SplitPrefixedPath_def)

text \<open>
  C8: The table of routes that need a session agrees with the routes: a request that a handler
  answers for a session is refused with 401 without one, never with 404. The other direction fails
  for one route: POST on a signed prekey is in the table, but no handler takes it, so it is refused
  with 401 without a session and with 404 with one.
\<close>

theorem known_routes_complete:
  "(fst (HandleAuthenticated cx rx req path sess sv) \<noteq> NoMatch \<longrightarrow> IsKnownProtectedRoute (rq_method req) path) \<and>
   (CHR ''/'' \<notin> set v \<longrightarrow> known_post (signed_prekey_path v) \<and>
      first_route (post_routes cx rx req (signed_prekey_path v) sess) = no_match)"
proof (intro conjI impI)
  show "fst (HandleAuthenticated cx rx req path sess sv) \<noteq> NoMatch \<Longrightarrow> IsKnownProtectedRoute (rq_method req) path"
    using unknown_route [of req path cx rx sess] by (metis fst_conv no_match_def)
  assume v: "CHR ''/'' \<notin> set v"
  note r = signed_prekey_route [OF v]
  show "known_post (signed_prekey_path v)" by (simp add: known_post_def r)
  have "list_all closed_route (post_routes cx rx req (signed_prekey_path v) sess)"
    by (simp add: post_routes_def device_scope_def r) (simp add: signed_prekey_path_def)
  then show "first_route (post_routes cx rx req (signed_prekey_path v) sess) = no_match" by (rule closed_routes)
qed

theorem known_routes_complete_witness:
  "IsKnownProtectedRoute verb_post ''/v1/logout'' \<and> known_post ''/v1/devices/p/signed-prekey'' \<and>
   first_route (post_routes (sample_cx JNull) sample_rx (with_token verb_post ''/v1/devices/p/signed-prekey'')
     ''/v1/devices/p/signed-prekey'' online_session) = no_match"
proof -
  have "fst (HandleAuthenticated (sample_cx JNull) sample_rx (with_token verb_post ''/v1/logout'') ''/v1/logout'' online_session
      sample_server) \<noteq> NoMatch"
    by (auto simp: HandleAuthenticated_def routes_def post_routes_def route_def post_logout_def checked_def error_reply_def
        ok_reply_def split: prod.split sum.split)
  moreover have "signed_prekey_path ''p'' = ''/v1/devices/p/signed-prekey''" by (simp add: signed_prekey_path_def)
  ultimately show ?thesis
    using known_routes_complete [of "sample_cx JNull" sample_rx "with_token verb_post ''/v1/logout''" "''/v1/logout''" online_session
        sample_server "''p''"]
      known_routes_complete [of "sample_cx JNull" sample_rx "with_token verb_post ''/v1/devices/p/signed-prekey''" "[]" online_session
        sample_server "''p''"]
    by simp
qed

end
