(* ===== verification/Server_Invariant.thy ===== *)
theory Server_Invariant
  imports Server_Data Server_Security
begin

text \<open>
  The invariant of the whole server and the steps that keep it: requests on any connection, the
  handlers of the WebSocket sessions and the purges of the maintenance thread, in any order. The
  laws of \<open>handler_relation\<close>, \<open>session_relation\<close> and \<open>request_relation\<close> hold for the relation that
  keeps the invariant.
\<close>

section \<open>The queues\<close>

definition queues_ok :: "nat \<Rightarrow> DeliveryManager \<Rightarrow> bool" where
  "queues_ok n dm \<longleftrightarrow> dm_ok dm \<and> dm_max_queue_per_device dm = n \<and> (\<forall>key. length (queue_at dm key) \<le> n)"

lemma Enqueue_queues: "queues_ok n dm \<Longrightarrow> queues_ok n (snd (Enqueue u v e dm))"
  using Enqueue_full [of dm u v e] Enqueue_room [of dm u v e] Enqueue_same [of dm u v e]
  by (cases "length (queue_at dm (DeviceScopeKey u v)) < n") (auto simp: queues_ok_def)

lemma deliver_queues:
  assumes "queues_ok n (fst (snd st))"
  shows "queues_ok n (fst (snd (fold (deliver_user sq request queued now) uids st)))"
proof -
  have to: "queues_ok n (fst (snd st)) \<Longrightarrow> queues_ok n (fst (snd (deliver_to sq request queued now uid v st)))" for uid v st
    using Enqueue_queues [of n "fst (snd st)" uid "d_device_id v" queued]
    by (cases st) (auto simp: deliver_to_def split: prod.splits sum.splits)
  have devs: "queues_ok n (fst (snd st)) \<Longrightarrow> queues_ok n (fst (snd (fold (deliver_to sq request queued now uid) vs st)))" for uid vs st
    by (induction vs arbitrary: st) (simp_all add: to)
  show ?thesis using assms by (induction uids arbitrary: st) (simp_all add: deliver_user_def devs)
qed

lemma SendEnvelope_queues:
  assumes "queues_ok n dm"
  shows "queues_ok n (fst (snd (SendEnvelope sq config r now request (dm, d))))"
proof (cases "send_checks request d")
  case (Inr conv)
  let ?eid = "if sm_envelope_id request = [] then uuid r else sm_envelope_id request"
  obtain res d1 where s: "StoreEnvelope (sent_envelope config request ?eid now) d = (res, d1)" by fastforce
  show ?thesis
    using Inr s assms deliver_queues [of n "(0, dm, d1)" sq request "queued_envelope request ?eid now" now
        "target_users sq conv (sm_conversation_id request) d1"]
    by (auto simp: SendEnvelope_def Let_def split: sum.split prod.split)
qed (simp add: SendEnvelope_def assms)

lemma purge_queues: "queues_ok n dm \<Longrightarrow> queues_ok n (fst (PurgeMemberDelivery sq c u (dm, d)))"
proof -
  have "queues_ok n dm \<Longrightarrow> queues_ok n (PurgeConversationFromDeviceQueue c u v dm)" for u v dm
    using Purge_correct [of dm c u v] order_trans [OF length_filter_le] by (auto simp: queues_ok_def)
  then have "queues_ok n dm \<Longrightarrow>
      queues_ok n (fold (\<lambda>v. PurgeConversationFromDeviceQueue c (d_user_id v) (d_device_id v)) vs dm)" for vs dm
    by (induction vs arbitrary: dm) simp_all
  then show "queues_ok n dm \<Longrightarrow> queues_ok n (fst (PurgeMemberDelivery sq c u (dm, d)))"
    by (simp add: PurgeMemberDelivery_def Let_def)
qed

lemma removal_queues:
  "queues_ok n dm \<Longrightarrow> queues_ok n (fst (snd (RemoveMember sq now c a u (dm, d))))"
  "queues_ok n dm \<Longrightarrow> queues_ok n (fst (snd (UnsubscribeChannel sq now c u (dm, d))))"
  by (simp_all add: RemoveMember_def UnsubscribeChannel_def purge_queues case_Inr_pair [OF Conv_RemoveMember_Inr]
      case_Inr_pair [OF Unsubscribe_Inr] split: option.split)

section \<open>The invariant\<close>

definition server_ok :: "ServerConfig \<Rightarrow> server \<Rightarrow> bool" where
  "server_ok config sv \<longleftrightarrow> data_ok config (sv_db sv) \<and>
     queues_ok (max_queue_depth_per_device config) (sv_delivery sv) \<and>
     ws_ok (max_ws_outbound_queue config) (sv_ws sv) \<and>
     pred_option limiter_ok (sv_auth_limiter sv) \<and> pred_option limiter_ok (sv_account_limiter sv)"

definition keeps_ok :: "ServerContext \<Rightarrow> server \<Rightarrow> server \<Rightarrow> bool" where
  "keeps_ok cx sv sv' \<longleftrightarrow> (sqlite_ok (cx_sqlite cx) \<longrightarrow> server_ok (cx_config cx) sv \<longrightarrow> server_ok (cx_config cx) sv')"

interpretation invariant: handler_relation "keeps_ok cx"
  by unfold_locales (auto simp: keeps_ok_def server_ok_def allow_auth_def allow_account_def Allow_same Notify_ok
      case_prod_unfold split: option.split)

lemma keeps_db:
  "(data_ok (cx_config cx) (sv_db sv) \<Longrightarrow> data_ok (cx_config cx) (snd (f (sv_db sv)))) \<Longrightarrow>
     keeps_ok cx sv (sv\<lparr>sv_db := snd (f (sv_db sv))\<rparr>)"
  by (simp add: keeps_ok_def server_ok_def)

interpretation invariant: session_relation "keeps_ok cx" cx sess
proof
  show "case SendEnvelope (cx_sqlite cx) (cx_config cx) r now sm (sv_delivery sv, sv_db sv) of
      (res, dm, d) \<Rightarrow> keeps_ok cx sv (sv\<lparr>sv_delivery := dm, sv_db := d\<rparr>)" for sv r now sm
    by (auto simp: case_state keeps_ok_def server_ok_def SendEnvelope_queues intro!: SendEnvelope_data)
       (simp add: queues_ok_def)
qed (simp_all add: case_state keeps_ok_def server_ok_def data_keeps removal_queues)

interpretation invariant: request_relation "keeps_ok cx" cx
  by unfold_locales (simp_all add: keeps_ok_def server_ok_def data_keeps)

section \<open>The steps of the server\<close>

text \<open>
  A request is handled as a whole; requests that overlap on the storage pool are taken in some
  order. The schema constraints hold after every call of a repository, and so also between the calls
  of one request; the other parts of the invariant hold after every call of a service. The new
  object of a WebSocket session has an identity of its own. The handlers of the WebSocket sessions
  are those of \<open>ws_step\<close>.
\<close>

inductive server_step :: "ServerContext \<Rightarrow> server \<Rightarrow> server \<Rightarrow> bool"
  for cx :: ServerContext where
  request: "ws_sessions (sv_ws sv) i = None \<Longrightarrow> server_step cx sv (snd (OnRead cx now rx is_upgrade i client_ip req sv))"
| push: "ws_step (cx_tokens cx) (cx_json cx) (max_ws_outbound_queue (cx_config cx)) (sv_ws sv) ws \<Longrightarrow>
    server_step cx sv (sv\<lparr>sv_ws := ws\<rparr>)"
| purge: "maintenance_purge (cx_sqlite cx) now (sv_files sv, sv_db sv) = Some (m, n, fs, d) \<Longrightarrow>
    server_step cx sv (sv\<lparr>sv_files := fs, sv_db := d\<rparr>)"

definition server_reachable :: "ServerContext \<Rightarrow> (string \<Rightarrow> nat) \<Rightarrow> server \<Rightarrow> bool" where
  "server_reachable cx hash sv \<longleftrightarrow> (\<exists>fs. (server_step cx)\<^sup>*\<^sup>* (server_new (cx_config cx) hash CreateSchema fs) sv)"

lemma server_new_ok: "server_ok config (server_new config hash CreateSchema fs)"
proof -
  have "data_ok config CreateSchema"
    by (simp add: data_ok_def CreateSchema_ok) (simp add: CreateSchema_def waiting_ok_def blobs_ok_def ids_ok_def devices_named_def)
  moreover have "queues_ok n (SetEnqueueHook (DeliveryManager_new hash n))" for n
    by (simp add: queues_ok_def SetEnqueueHook_def dm_ok_def queue_at_def DeliveryManager_new_def)
  moreover have "ws_ok n ws_new" for n by (simp add: ws_new_def ws_ok_def umap_defs)
  ultimately show ?thesis by (simp add: server_ok_def server_new_def)
qed

lemma OnRead_keeps:
  assumes "ws_sessions (sv_ws sv) i = None"
  shows "keeps_ok cx sv (snd (OnRead cx now rx is_upgrade i client_ip req sv))"
proof (cases is_upgrade)
  case True
  then show ?thesis
    using assms OnAccept_ok by (auto simp: OnRead_def keeps_ok_def server_ok_def dest: data_okD)
next
  case False
  have "keeps_ok cx sv (snd (serve cx rx req (request_session cx now req (sv_db sv)) client_ip sv))"
    by (rule invariant.serve_R) (rule invariant.through_session)
  then show ?thesis using False by (simp add: OnRead_def)
qed

lemma server_step_ok:
  assumes "server_step cx sv sv'" "sqlite_ok (cx_sqlite cx)" "server_ok (cx_config cx) sv"
  shows "server_ok (cx_config cx) sv'"
  using assms
proof (induction rule: server_step.induct)
  case (request sv i now rx is_upgrade client_ip req)
  then show ?case using OnRead_keeps by (simp add: keeps_ok_def)
next
  case (push sv ws)
  then show ?case by (auto simp: server_ok_def dest: ws_step_ok)
next
  case (purge now sv m n fs d)
  then show ?case by (auto simp: server_ok_def dest: maintenance_data)
qed

lemma reachable_ok:
  assumes "sqlite_ok (cx_sqlite cx)" and "server_reachable cx hash sv"
  shows "server_ok (cx_config cx) sv"
proof -
  obtain fs where "(server_step cx)\<^sup>*\<^sup>* (server_new (cx_config cx) hash CreateSchema fs) sv"
    using assms(2) by (auto simp: server_reachable_def)
  then show ?thesis by (induction rule: rtranclp_induct) (auto simp: server_new_ok intro: server_step_ok [OF _ assms(1)])
qed


text \<open>An upgrade to a WebSocket and a registration, as the first two requests.\<close>

definition ann_cx :: ServerContext where
  "ann_cx = sample_cx (JObject [(''username'', JString ''ann'')])"

definition fresh_server :: server where
  "fresh_server = server_new ServerConfig_Default length CreateSchema \<lparr>fs_blobs = Map.empty, fs_writable = (\<lambda>_. True)\<rparr>"

definition with_socket :: server where
  "with_socket = snd (OnRead ann_cx 5 sample_rx True 0 ''10.0.0.1'' (with_token verb_get ''/v1/ws'') fresh_server)"

lemma OnAccept_other: "j \<noteq> i \<Longrightarrow> ws_sessions (OnAccept tm d now t i s st) j = ws_sessions st j"
  by (simp add: OnAccept_def FinishAuth_def Ws_Shutdown_def Ws_Unregister_def Ws_Register_def Let_def split: option.split sum.split)


end
