(* ===== verification/Server_Privacy.thy ===== *)
theory Server_Privacy
  imports Server_Invariant
begin

text \<open>
  Who can read a conversation. The contents of a conversation are the ciphertexts of its envelopes
  and the blob files of its attachments; \<open>blanked\<close> is the server without them. What a GET request of
  a user outside the conversation returns is the same on both.
\<close>

section \<open>A server without the contents of a conversation\<close>

definition blank_envelope :: "ConversationId \<Rightarrow> EnvelopeRecord \<Rightarrow> EnvelopeRecord" where
  "blank_envelope c e = (if e_conversation_id e = c then e\<lparr>e_ciphertext := []\<rparr> else e)"

definition blank :: "ConversationId \<Rightarrow> db \<Rightarrow> db" where
  "blank c d = d\<lparr>encrypted_envelopes := map (blank_envelope c) (encrypted_envelopes d)\<rparr>"

definition blobs_of :: "ConversationId \<Rightarrow> db \<Rightarrow> string set" where
  "blobs_of c d = set (map a_blob_path (filter (\<lambda>a. a_conversation_id a = c) (attachment_metadata d)))"

definition blanked :: "ConversationId \<Rightarrow> server \<Rightarrow> server" where
  "blanked c sv = sv\<lparr>sv_db := blank c (sv_db sv),
     sv_files := (sv_files sv)\<lparr>fs_blobs := (\<lambda>p. if p \<in> blobs_of c (sv_db sv) then map_option (\<lambda>_. []) (fs_blobs (sv_files sv) p)
                                              else fs_blobs (sv_files sv) p)\<rparr>\<rparr>"

lemma blank_envelope_sel [simp]:
  "e_envelope_id (blank_envelope c e) = e_envelope_id e" "e_conversation_id (blank_envelope c e) = e_conversation_id e"
  "e_server_timestamp (blank_envelope c e) = e_server_timestamp e"
  by (simp_all add: blank_envelope_def)

lemma blank_sel [simp]:
  "users (blank c d) = users d" "devices (blank c d) = devices d" "sessions (blank c d) = sessions d"
  "one_time_prekeys (blank c d) = one_time_prekeys d" "conversations (blank c d) = conversations d"
  "conversation_members (blank c d) = conversation_members d" "channel_subscriptions (blank c d) = channel_subscriptions d"
  "delivery_state (blank c d) = delivery_state d" "attachment_metadata (blank c d) = attachment_metadata d"
  "sync_records (blank c d) = sync_records d"
  "encrypted_envelopes (blank c d) = map (blank_envelope c) (encrypted_envelopes d)"
  by (simp_all add: blank_def)

lemma blanked_sel [simp]:
  "sv_db (blanked c sv) = blank c (sv_db sv)" "sv_auth_limiter (blanked c sv) = sv_auth_limiter sv"
  "sv_account_limiter (blanked c sv) = sv_account_limiter sv"
  by (simp_all add: blanked_def)

section \<open>Queries that do not see the contents\<close>

lemma account_queries [simp]:
  "User_FindById u (blank c d) = User_FindById u d" "FindByUsername sq name (blank c d) = FindByUsername sq name d"
  "SearchByUsernamePrefix sq name n (blank c d) = SearchByUsernamePrefix sq name n d"
  "FindPublicProfilesByIds sq ids (blank c d) = FindPublicProfilesByIds sq ids d"
  "GetSyncKeyBundle u (blank c d) = GetSyncKeyBundle u d" "GetDevicesForUser sq u (blank c d) = GetDevicesForUser sq u d"
  "FindAllByDeviceId sq v (blank c d) = FindAllByDeviceId sq v d"
  "CountAvailableOneTimePrekeys u v (blank c d) = CountAvailableOneTimePrekeys u v d"
  "ListChangesAfterCursor u coll cur n (blank c d) = ListChangesAfterCursor u coll cur n d"
  "request_session cx now req (blank c d) = request_session cx now req d"
  by (simp_all add: User_FindById_def FindByUsername_def SearchByUsernamePrefix_def FindPublicProfilesByIds_def
      GetSyncKeyBundle_def GetDevicesForUser_def FindAllByDeviceId_def CountAvailableOneTimePrekeys_def
      ListChangesAfterCursor_def request_session_def ValidateAccessToken_def FindByAccessToken_def Let_def split: option.split)

lemma conversation_queries [simp]:
  "Conv_FindById k (blank c d) = Conv_FindById k d" "IsUserInConversation k u (blank c d) = IsUserInConversation k u d"
  "GetMembers sq k (blank c d) = GetMembers sq k d" "GetMember k u (blank c d) = GetMember k u d"
  "GetSubscribers sq k (blank c d) = GetSubscribers sq k d" "ListForUser sq u (blank c d) = ListForUser sq u d"
  "GetAttachment i u (blank c d) = GetAttachment i u d" "GetServerStats now (blank c d) = GetServerStats now d"
  by (simp_all add: Conv_FindById_def IsUserInConversation_def GetMembers_def GetMember_def GetSubscribers_def ListForUser_def
      GetConversationsForUser_def last_activity_at_def GetAttachment_def GetAttachmentMeta_def GetServerStats_def
      filter_map comp_def split: option.split)

lemma json_queries [simp]:
  "device_json (blank c d) u = device_json d u" "conversation_json cx (blank c d) sess = conversation_json cx d sess"
  "roster_json cx (blank c d) = roster_json cx d" "channel_roster_json cx (blank c d) = channel_roster_json cx d"
  "listed_json cx (blank c d) = listed_json cx d"
  by (intro ext, simp add: device_json_def conversation_json_def roster_json_def channel_roster_json_def listed_json_def Let_def case_prod_unfold)+

text \<open>The messages of another conversation, and those that wait for somebody outside.\<close>

lemma other_messages:
  assumes "k \<noteq> c"
  shows "ListForConversation sq k t n (blank c d) = ListForConversation sq k t n d"
    "ListForConversationCursored sq k cur n (blank c d) = ListForConversationCursored sq k cur n d"
proof -
  have "filter (\<lambda>e. e_conversation_id e = k \<and> P e) (map (blank_envelope c) es) = filter (\<lambda>e. e_conversation_id e = k \<and> P e) es"
    if "\<And>e. P (blank_envelope c e) = P e" for P es
    using assms that by (induction es) (simp_all add: blank_envelope_def)
  from this [of "\<lambda>e. t < e_server_timestamp e"] this [of "\<lambda>_. True"] show
    "ListForConversation sq k t n (blank c d) = ListForConversation sq k t n d"
    "ListForConversationCursored sq k cur n (blank c d) = ListForConversationCursored sq k cur n d"
    by (simp_all add: ListForConversation_def ListForConversationCursored_def)
qed

lemma pending_outside:
  assumes "waiting_ok d" and "\<not> IsUserInConversation c u d"
  shows "pending_join u v (blank c d) = pending_join u v d"
proof -
  have eq: "map (\<lambda>_. blank_envelope c e) (filter (\<lambda>s. ds_envelope_id s = e_envelope_id e \<and> pending_for u v s) (delivery_state d)) =
      map (\<lambda>_. e) (filter (\<lambda>s. ds_envelope_id s = e_envelope_id e \<and> pending_for u v s) (delivery_state d))"
    if "e \<in> set (encrypted_envelopes d)" for e
  proof (cases "e_conversation_id e = c")
    case True
    then have "filter (\<lambda>s. ds_envelope_id s = e_envelope_id e \<and> pending_for u v s) (delivery_state d) = []"
      using assms that by (auto simp: filter_empty_conv waiting_ok_def pending_for_def ds_dev_def)
    then show ?thesis by simp
  qed (simp add: blank_envelope_def)
  show ?thesis
    unfolding pending_join_def blank_sel map_map comp_def blank_envelope_sel
    by (rule arg_cong [where f = concat], rule map_cong [OF refl], erule eq)
qed

section \<open>The handlers\<close>

lemma GetPrekeyBundle_blank:
  "fst (GetPrekeyBundle sq u v now (blank c d)) = fst (GetPrekeyBundle sq u v now d)"
  "snd (GetPrekeyBundle sq u v now (blank c d)) = blank c (snd (GetPrekeyBundle sq u v now d))"
  by (simp_all add: GetPrekeyBundle_def ConsumeOneAvailableOtpLocked_def FindByUserAndDevice_def Let_def blank_def split: option.split)

lemma on_db_blanked:
  "on_db (GetPrekeyBundle sq u v now) (blanked c sv) = apsnd (blanked c) (on_db (GetPrekeyBundle sq u v now) sv)"
proof -
  have "attachment_metadata (snd (GetPrekeyBundle sq u v now (sv_db sv))) = attachment_metadata (sv_db sv)"
    by (rule accounts_frame(2)) (simp add: frames)
  then show ?thesis
    using GetPrekeyBundle_blank [of sq u v now c "sv_db sv"]
    by (cases sv) (simp add: on_db_def blanked_def blobs_of_def case_prod_unfold cong: if_cong)
qed

lemma collect_bundles_blanked:
  "collect_bundles cx rx u n vs bs (blanked c sv) = apsnd (blanked c) (collect_bundles cx rx u n vs bs sv)"
  by (induction vs arbitrary: n bs sv) (simp_all add: on_db_blanked split: prod.split sum.split)

text \<open>A handler that answers on a state and on the state without the contents in the same way.\<close>

definition blind :: "ConversationId \<Rightarrow> server \<Rightarrow> handler \<Rightarrow> bool" where
  "blind c sv h \<longleftrightarrow> fst (h (blanked c sv)) = fst (h sv)"

lemma blind_accounts [simp]:
  "blind c sv (get_me cx sess)" "blind c sv (get_me_devices cx sess)" "blind c sv (get_key_bundle cx sess)"
  "blind c sv (get_sync_changes cx req sess)" "blind c sv (get_users cx req)" "blind c sv (get_by_username cx name)"
  "blind c sv (get_search cx req)" "blind c sv (get_user cx u)" "blind c sv (get_user_devices cx u)"
  by (simp_all add: blind_def get_me_def get_me_devices_def get_key_bundle_def get_sync_changes_def get_users_def
      get_by_username_def get_search_def get_user_def get_user_devices_def with_active_user_def or_throw_def ok_reply_def
      own_reply_def Let_def split: option.split)

lemma blind_bundles [simp]:
  "blind c sv (get_user_bundles cx rx u)" "blind c sv (get_user_device_bundle cx rx ud)" "blind c sv (get_device_bundle cx rx v)"
  by (simp_all add: blind_def get_user_bundles_def get_user_device_bundle_def get_device_bundle_def bundle_of_def with_active_user_def
      checked_def error_reply_def ok_reply_def own_reply_def collect_bundles_blanked on_db_blanked split: option.split list.split prod.split sum.split)

lemma blind_conversations [simp]:
  "blind c sv (get_conversation cx sess k)" "blind c sv (get_members cx sess k)" "blind c sv (get_conversations cx sess)"
  "blind c sv (get_admin_stats cx rx)" "blind c sv no_match"
  by (simp_all add: blind_def get_conversation_def get_members_def get_conversations_def get_admin_stats_def no_match_def
      ok_reply_def own_reply_def Let_def split: option.split)

text \<open>The three handlers that return contents.\<close>

lemma blind_contents:
  assumes "data_ok config (sv_db sv)" and out: "\<not> IsUserInConversation c (s_user_id sess) (sv_db sv)"
  shows "blind c sv (get_pending cx req sess)" "blind c sv (get_envelopes cx req sess k)" "blind c sv (get_attachment cx sess i)"
proof -
  note ok = data_okD [OF assms(1)]
  show "blind c sv (get_pending cx req sess)"
    using pending_outside [OF ok(2) out]
    by (simp add: blind_def get_pending_def GetPendingForDeviceCursored_def or_throw_def ok_reply_def split: option.split)
  show "blind c sv (get_envelopes cx req sess k)"
  proof (cases "k = c")
    case True
    then show ?thesis using out by (simp add: blind_def get_envelopes_def own_reply_def)
  next
    case False
    then show ?thesis
      by (auto simp: blind_def get_envelopes_def own_reply_def or_throw_def ok_reply_def Let_def other_messages split: option.split)
  qed
  have "path \<notin> blobs_of c (sv_db sv)" if path: "GetAttachment i (s_user_id sess) (sv_db sv) = Inr path" for path
  proof
    assume "path \<in> blobs_of c (sv_db sv)"
    then obtain b where b: "b \<in> set (attachment_metadata (sv_db sv))" "a_conversation_id b = c" "a_blob_path b = path"
      by (auto simp: blobs_of_def)
    obtain a where a: "a \<in> set (attachment_metadata (sv_db sv))" "a_blob_path a = path"
      "IsUserInConversation (a_conversation_id a) (s_user_id sess) (sv_db sv)"
      using path by (auto simp: GetAttachment_def GetAttachmentMeta_def row_to_attachment_def
          dest!: first_row_filter split: option.splits if_splits)
    then show False using same_blob [OF ok(1,3) a(1) b(1)] a b out by auto
  qed
  then show "blind c sv (get_attachment cx sess i)"
    by (auto simp: blind_def get_attachment_def checked_def error_reply_def own_reply_def blanked_def split: sum.split option.split)
qed

lemma blind_routes:
  assumes "\<And>req k i. blind c sv (get_pending cx req sess) \<and> blind c sv (get_envelopes cx req sess k) \<and> blind c sv (get_attachment cx sess i)"
  shows "blind c sv (first_route (get_routes cx rx req path sess))"
proof -
  have first: "list_all (pred_option (blind c sv)) rs \<Longrightarrow> blind c sv (first_route rs)" for rs
    by (induction rs rule: first_route.induct) auto
  have some: "blind c sv h \<Longrightarrow> pred_option (blind c sv) (route b h)"
    "(\<And>x. blind c sv (f x)) \<Longrightarrow> pred_option (blind c sv) (conv_route path tail f)"
    "(\<And>x. blind c sv (f x)) \<Longrightarrow> pred_option (blind c sv) (user_before suf path f)"
    "pred_option (blind c sv) (user_route cx path)" for b h f tail suf
    by (simp_all add: route_def conv_route_def user_before_def user_route_def Let_def split: option.split)
  show ?thesis
    using assms by (intro first) (simp add: get_routes_def some option.pred_map option.pred_True comp_def pred_option_if)
qed

section \<open>Requests\<close>

lemma blind_dispatch:
  assumes "rq_method req = verb_get" and "blind c sv (first_route (get_routes cx rx req (path_of req) sess))"
  shows "blind c sv (DispatchHttp cx rx req (Some sess) ip)"
proof -
  have "blind c sv (dispatch_session cx rx req (path_of req) (Some sess))"
    using assms by (auto simp: blind_def dispatch_session_def heavy_route_def HandleAuthenticated_def routes_def or_else_def
        split: prod.split reply.split)
  moreover have "blind c sv (or_else (get_admin_stats cx rx) h)" for h
    using blind_conversations(4) [of c sv cx rx] by (simp add: blind_def or_else_def get_admin_stats_def ok_reply_def Let_def)
  ultimately have "blind c sv (or_else (TryAdmin cx rx req (path_of req)) (dispatch_session cx rx req (path_of req) (Some sess)))"
    using assms(1) by (simp add: TryAdmin_def)
  then show ?thesis
    using assms(1) by (simp add: blind_def DispatchHttp_def Let_def auth_route_def TryPublicAuth_def own_reply_def ok_reply_def)
qed

text \<open>
  C6: A user who is not in a conversation learns nothing of its contents. In every state of the
  server that has the invariant, whatever GET request the user makes, the answer is the one of the
  server in which all ciphertexts of the conversation and all blob files of its attachments are
  blanked.
\<close>

theorem outsiders_read_nothing:
  assumes "server_ok (cx_config cx) sv" and "request_session cx now req (sv_db sv) = Some sess"
    and "\<not> IsUserInConversation c (s_user_id sess) (sv_db sv)" and "rq_method req = verb_get"
  shows "fst (OnRead cx now rx is_upgrade i ip req (blanked c sv)) = fst (OnRead cx now rx is_upgrade i ip req sv)"
proof -
  have "data_ok (cx_config cx) (sv_db sv)" using assms(1) by (simp add: server_ok_def)
  from blind_contents [OF this assms(3)] have "blind c sv (first_route (get_routes cx rx req (path_of req) sess))"
    by (intro blind_routes) blast
  with assms(4) have "blind c sv (DispatchHttp cx rx req (Some sess) ip)" by (rule blind_dispatch)
  then show ?thesis
    using assms(2) by (auto simp: blind_def OnRead_def serve_def split: prod.split reply.split)
qed

text \<open>A laptop outside the group of the examples, whose three messages have contents.\<close>

definition outsider :: SessionRecord where
  "outsider = online_session\<lparr>s_user_id := ''u2'', s_device_id := ''l''\<rparr>"

definition outsider_server :: server where
  "outsider_server = sample_server\<lparr>sv_db := mail_db\<lparr>delivery_state := [], sessions := [outsider]\<rparr>\<rparr>"

lemma outsider_ok: "server_ok ServerConfig_Default outsider_server"
proof -
  let ?d = "mail_db\<lparr>delivery_state := []\<rparr>"
  have "db_ok ?d" "(''u2'', ''l'') \<in> set (device_keys ?d)" "''u2'' \<in> set (user_keys ?d)" "sessions ?d = []"
    "set (user_keys ?d) = {''u1'', ''u2''}" "attachment_metadata ?d = []" by code_simp+
  then have "data_ok ServerConfig_Default (?d\<lparr>sessions := [outsider]\<rparr>)"
    using insert_session_ok [of outsider ?d "?d\<lparr>sessions := [outsider]\<rparr>"]
    by (auto simp: data_ok_def insert_session_def s_dev_def outsider_def waiting_ok_def blobs_ok_def ids_ok_def devices_named_def quotable_id_def)
  moreover have "server_ok ServerConfig_Default (server_new ServerConfig_Default length CreateSchema (sv_files sample_server))"
    by (rule server_new_ok)
  ultimately show ?thesis by (simp add: server_ok_def outsider_server_def sample_server_def server_new_def)
qed

theorem outsiders_read_nothing_witness:
  "fst (OnRead (sample_cx JNull) 5 sample_rx False 0 [] (with_token verb_get ''/v1/conversations/g/envelopes'') (blanked ''g'' outsider_server)) =
   fst (OnRead (sample_cx JNull) 5 sample_rx False 0 [] (with_token verb_get ''/v1/conversations/g/envelopes'') outsider_server)"
proof -
  let ?req = "with_token verb_get ''/v1/conversations/g/envelopes''"
  have "ValidateAccessToken sample_tm ''tok'' 5 (sv_db outsider_server) = Inr outsider"
    by (simp add: ValidateAccessToken_def FindByAccessToken_def outsider_server_def outsider_def online_session_def first_row_def)
  then have "request_session (sample_cx JNull) 5 ?req (sv_db outsider_server) = Some outsider"
    by (simp add: request_session_def ParseBearer_def find_field_def with_token_def)
  moreover have "\<not> IsUserInConversation ''g'' ''u2'' mail_db" by code_simp
  then have "\<not> IsUserInConversation ''g'' (s_user_id outsider) (sv_db outsider_server)"
    by (simp add: outsider_server_def outsider_def in_conversation_iff conv_type_def Conv_FindById_def)
  ultimately show ?thesis
    using outsiders_read_nothing [of "sample_cx JNull" outsider_server 5 ?req outsider "''g''"] outsider_ok by simp
qed

end
