(* ===== verification/Spec2Isabelle.thy ===== *)
theory Spec2Isabelle
  imports Thread_Pool Sha256_Spec Server_Privacy
begin

text \<open>
  A verification library for vox-server, the relay server of an end-to-end encrypted messenger
  (C++23, under \<open>src/\<close>). The root theory imports all others; the properties, numbered C1 to C40,
  stand in the theories of the components they are about.

  \<^bold>\<open>The program.\<close> The server keeps users, devices, one-time prekeys, sessions, conversations,
  encrypted envelopes, attachment metadata and encrypted sync records in SQLite
  (\<open>lib/vox_store\<close>), authenticates devices with rotating tokens (\<open>lib/vox_auth\<close>), relays opaque
  envelopes to the devices of a conversation through bounded queues in memory, with the database
  behind them (\<open>lib/vox_relay\<close>), stores attachment blobs (\<open>lib/vox_attachments\<close>), has an
  administration (\<open>lib/vox_admin\<close>) and a configuration, thread pools and containers of its own
  (\<open>lib/vox_common\<close>), and serves all of it over HTTP and WebSocket (\<open>lib/vox_net\<close>). \<open>bin/main.cpp\<close>
  reads the configuration, builds the parts and starts the maintenance thread.

  \<^bold>\<open>Conventions.\<close> Definitions have the names of the C++ functions; where two classes share a method
  name a prefix tells them apart (\<open>Conv_AddMember\<close>, \<open>Session_RevokeSession\<close>, \<open>Ws_Register\<close>). A
  \<open>struct\<close> is a record, an \<open>enum class\<close> a datatype, \<open>std::expected\<close> the sum type \<open>Result\<close> with the
  error on the left, and a call that may throw returns an option (in a handler: the reply
  \<open>Throws\<close>). An operation takes the state and returns its result with the new state:
  \<open>db\<close> for the repositories and the services above them, the delivery manager with \<open>db\<close> for the
  relay, the blob files with \<open>db\<close> for attachments, and \<open>server\<close> for the handlers. \<open>int64_t\<close> and
  \<open>int\<close> are \<open>int\<close> with \<open>i64\<close> and \<open>i32\<close> where the code computes with them, \<open>size_t\<close> is \<open>nat\<close> with
  \<open>usize\<close>, and the words of SHA-256 and of UUIDs are \<open>word\<close>s. Readings of the clocks and random
  draws are arguments. Code that is not under \<open>src/\<close> is a parameter: the scan order, LIKE and the
  messages of SQLite (record \<open>sqlite\<close> with the law \<open>sqlite_ok\<close>), Argon2id, Boost.JSON's parser and
  serializer, \<open>std::hash\<close> of the platform, the SQL parser on a user id with a quote in it, the
  operating system's files and environment.

  \<^bold>\<open>Foundations.\<close> \<open>Vox_Prelude\<close>: tables as lists of rows, the combinator \<open>and_then\<close> for early
  returns, strings, the collections \<open>sql_simps\<close> and \<open>keeps\<close>. \<open>Vox_Strings\<close>: the number formats and
  parsers of the C++ library. \<open>Vox_Types\<close>: \<open>vox_common/types.hpp\<close>, \<open>uuid.cpp\<close>, \<open>error_http.hpp\<close>;
  every identifier is a version 4 UUID that keeps 122 bits of its draws. \<open>Sha256\<close> and
  \<open>Sha256_Spec\<close>: \<open>picosha2.h\<close> and \<open>hmac_sha256.cpp\<close>, and that they compute FIPS 180-4 and RFC 2104.
  \<open>Shard_Map\<close> (\<open>shard_map.hpp\<close>, with the locale \<open>table\<close> for hash tables), \<open>Bounded_Queue\<close>
  (\<open>bounded_queue.hpp\<close>, with the threads that wait on its condition variables) and \<open>Thread_Pool\<close>
  (\<open>thread_pool.cpp\<close>) are step relations over the interleavings of threads: the queue is first in
  first out and loses no wake-up, a pool that shuts down runs all that was submitted, and
  \<open>WaitForIdle\<close> can return too early. \<open>Server_Config\<close>: \<open>config.cpp\<close> and the start of \<open>main\<close>, with
  the round trip through a written configuration.

  \<^bold>\<open>Storage.\<close> \<open>Vox_Database\<close>: the tables of \<open>database.cpp\<close> as the record \<open>db\<close>, what INSERT, UPDATE,
  upsert and DELETE do under the declared keys, and \<open>db_ok\<close>, all constraints together. One theory for
  each repository (\<open>User_\<close>, \<open>Device_\<close>, \<open>Session_\<close>, \<open>Conversation_\<close>, \<open>Envelope_\<close>, \<open>Attachment_\<close>,
  \<open>Sync_State_Repository\<close>): every operation keeps \<open>db_ok\<close>, and what each does on every branch. The
  locale \<open>session_store\<close> is the contract of \<open>ISessionRepository\<close>, \<open>keyset_pagination\<close> (in
  \<open>Pagination\<close>) that of the three paged queries: following the cursors gives every row once. Sync
  records are compare-and-set registers; the members of a conversation refine an abstract roster; no
  one-time prekey is handed out twice.

  \<^bold>\<open>Services.\<close> \<open>Token_Manager\<close> and \<open>Auth_Service\<close>: registration, login, refresh with rotation,
  change of password. \<open>Delivery_Manager\<close>, \<open>Relay_Service\<close>, \<open>Conversation_Service\<close>: the queues of the
  devices, the fan-out of a message to every recipient exactly once, and who may change a
  conversation. \<open>Attachment_Service\<close> (with the purge of the maintenance thread), \<open>Admin_Service\<close>,
  \<open>Rate_Limiter\<close>.

  \<^bold>\<open>Network.\<close> \<open>Http_Paths\<close>, \<open>Json\<close>, \<open>Http_Messages\<close>: targets, bodies and responses. \<open>Ws_Push\<close>:
  \<open>ws_registry.cpp\<close> and the WebSocket session of \<open>http_session.cpp\<close> as a step relation over the
  handlers. \<open>Http_Server\<close>, \<open>Http_Public\<close>, \<open>Http_Post\<close>, \<open>Http_Get\<close>, \<open>Http_Dispatch\<close>: every route of
  \<open>http_dispatch.cpp\<close> with its checks, service calls, reply and notifications, \<open>DispatchHttp\<close> and
  \<open>HttpSession::OnRead\<close>. The record \<open>ServerContext\<close> holds the constants of \<open>server_context.hpp\<close> and
  the record \<open>server\<close> the state behind its references.

  \<^bold>\<open>The whole server.\<close> \<open>Server_Relation\<close> has the interface between the handlers and the services:
  the locales \<open>handler_relation\<close>, \<open>session_relation\<close> and \<open>request_relation\<close> list the operations that
  a request can reach, and derive for every request what holds of each of them. They are
  interpreted twice. \<open>Server_Frames\<close> takes the relation that leaves the accounts of others alone, from
  which \<open>Server_Security\<close> gets isolation; it also shows what a request without a session can do and
  that the table of protected routes is complete. \<open>Waiting_Messages\<close>, \<open>Server_Data\<close> and
  \<open>Server_Invariant\<close> take the relation that keeps the invariant of the server, which so holds in
  every state that the requests, the WebSocket handlers and the purges can reach. \<open>Server_Privacy\<close>
  uses the invariant to show that a user outside a conversation reads nothing of its contents.

  \<^bold>\<open>Granularity.\<close> A repository call holds the connection mutex and is one step. A service call and a
  request are composed of such steps and are taken as a whole; requests run on a pool, so in the
  program the calls of two requests can interleave. The constraints of the schema hold after every
  repository call and so under any interleaving; the rest of the invariant of the server is shown for
  service calls that do not overlap, such as a removal and the purge that belongs to it. Where a
  class is about concurrency (queue, pool, push) the interleavings are in the model.

  \<^bold>\<open>Termination and bounds.\<close> All functions are total; recursion that is not structural has a measure
  (the length of the rest of a text, of a buffer or of a number of digits). The only fuel is in the
  client \<open>walk\<close> of \<open>Pagination\<close>, which follows the cursors: one page more than there are rows is
  shown to be enough. Page limits are assumed to fit the signed 64-bit LIMIT of SQLite
  (\<open>max_page\<close>), which is the case for any real client.

  \<^bold>\<open>Not modelled.\<close> The accept loop of \<open>http_listener.cpp\<close>, the reading, writing and timeouts of
  streams in \<open>http_session.cpp\<close>, the signal handling and the start of the threads in \<open>main.cpp\<close>: calls
  of Boost.Asio and Boost.Beast without logic of their own. Logging (\<open>logging.cpp\<close>) has no result.
  \<open>random_bytes.cpp\<close> reads the random source of the operating system, whose bytes are arguments.
  Opening the database file, its busy handler and retries, and the migration of files written by
  older versions (\<open>database.cpp\<close>): the older schemas are not in the repository, so that what such a
  file holds is not known; the development starts from the schema that \<open>CreateSchema\<close> declares. The
  overloads of \<open>picosha2.h\<close> for single-pass iterators and streams have no caller.
  \<open>expected_polyfill.hpp\<close> stands in for \<open>std::expected\<close> on compilers without it; \<open>Result\<close> is that type.
\<close>

end
